theory Spec2Isabelle
  imports Main "HOL-Library.Word"
begin

unbundle bit_operations_syntax

text \<open>
  A shallow embedding of the authentication subsystem of DevSolve: the in-memory rate
  limiter, the token codec, the Edge route guard and the auth endpoints that the
  specification describes, followed by the properties proved about them.

  Conventions.
  \<^item> A JavaScript string is modelled by the string of its bytes in UTF-8;
    \<open>Buffer.from(str)\<close>, \<open>TextEncoder.encode\<close> and \<open>Buffer.toString()\<close> are then the
    identity. The \<open>length\<close> of a string is its number of UTF-16 code units
    (\<open>String_length\<close>), and the binary string that \<open>atob\<close> returns holds one character
    per decoded byte, each written in UTF-8 (\<open>binary_string\<close>).
  \<^item> A JavaScript number that holds a count or a timestamp is an \<open>int\<close> (exact below
    \<open>2 ^ 53\<close>); a number read by \<open>JSON.parse\<close> is a decimal \<open>m * 10 ^ e\<close>, written
    \<open>JNum m e\<close>, which is exact where a double would round.
  \<^item> \<open>Date.now()\<close>, the values drawn from \<open>crypto.randomBytes\<close> and
    \<open>bcrypt.genSalt\<close>, the environment and the request are arguments; module-level
    and database state is passed in and returned. One request reads the clock once.
  \<^item> A \<open>throw\<close> is a result \<open>Inl\<close> of an \<open>exn + 'a\<close>; a \<open>try/catch\<close> is the case
    distinction on it.
  \<^item> The document store and the mail transport do not fail.
\<close>

section \<open>Rate limiter (lib/auth/rateLimit.ts)\<close>

text \<open>
  JavaScript numbers that hold counts and millisecond timestamps are modelled as \<open>int\<close>;
  this is exact for all integral values below \<open>2 ^ 53\<close>. The module-level
  \<open>rateLimitStore\<close> (a \<open>Map\<close> from keys to entries) is threaded through every
  operation as an explicit argument and result, and \<open>Date.now()\<close> is the argument \<open>now\<close>.
\<close>

record RateLimitEntry =
  count :: int
  resetTime :: int

record RateLimitConfig =
  windowMs :: int
  maxRequests :: int

record RateLimitResult =
  allowed :: bool
  remaining :: int
  resetIn :: int

type_synonym rateLimitStore = "string \<rightharpoonup> RateLimitEntry"

definition checkRateLimit ::
  "string \<Rightarrow> RateLimitConfig \<Rightarrow> int \<Rightarrow> rateLimitStore \<Rightarrow> RateLimitResult \<times> rateLimitStore" where
  "checkRateLimit key config now store =
     (let fresh = (\<lparr>allowed = True, remaining = maxRequests config - 1, resetIn = windowMs config\<rparr>,
                   store(key \<mapsto> \<lparr>count = 1, resetTime = now + windowMs config\<rparr>))
      in case store key of
           None \<Rightarrow> fresh
         | Some entry \<Rightarrow>
             if resetTime entry < now then fresh
             else
               let entry' = entry\<lparr>count := count entry + 1\<rparr>;
                   store' = store(key \<mapsto> entry')
               in if count entry' > maxRequests config
                  then (\<lparr>allowed = False, remaining = 0, resetIn = resetTime entry' - now\<rparr>, store')
                  else (\<lparr>allowed = True, remaining = maxRequests config - count entry',
                         resetIn = resetTime entry' - now\<rparr>, store'))"

definition cleanup :: "int \<Rightarrow> rateLimitStore \<Rightarrow> rateLimitStore" where
  "cleanup now store =
     (\<lambda>key. case store key of
                None \<Rightarrow> None
              | Some entry \<Rightarrow> if resetTime entry < now then None else Some entry)"

definition getRateLimitKey :: "string \<Rightarrow> string \<Rightarrow> string" where
  "getRateLimitKey identifier endpoint = endpoint @ '':'' @ identifier"

definition resetRateLimit :: "string \<Rightarrow> rateLimitStore \<Rightarrow> rateLimitStore" where
  "resetRateLimit key store = store(key := None)"

text \<open>A caller that checks the same key once at each of the given instants, in order.\<close>

fun checkRateLimit_calls ::
  "string \<Rightarrow> RateLimitConfig \<Rightarrow> int list \<Rightarrow> rateLimitStore \<Rightarrow> RateLimitResult list \<times> rateLimitStore" where
  "checkRateLimit_calls key config [] store = ([], store)"
| "checkRateLimit_calls key config (t # ts) store =
     (let (r, store') = checkRateLimit key config t store;
          (rs, store'') = checkRateLimit_calls key config ts store'
      in (r # rs, store''))"

section \<open>Platform functions\<close>

text \<open>
  The library functions the code calls, written out from their specifications: Base64
  as Node's \<open>Buffer\<close> encodes and (leniently) decodes it and as the Web platform's
  \<open>atob\<close> (forgiving-base64 decode) does, SHA-256 and HMAC (FIPS 180-4, RFC 2104) for
  both \<open>crypto.createHmac\<close> and \<open>crypto.subtle.sign\<close>, \<open>JSON.stringify\<close> and
  \<open>JSON.parse\<close> (ECMA-404), and the coercions of ECMAScript that the code relies on.
\<close>

subsection \<open>Base64\<close>

text \<open>
  \<open>Buffer_from_base64\<close> is Node's decoder: it accepts both alphabets, skips every
  character outside them and stops at the first \<open>=\<close>. \<open>atob\<close> removes ASCII whitespace,
  strips the padding of an input whose length is a multiple of four, and throws on a
  length of 1 modulo 4 and on any character outside the standard alphabet.
\<close>


definition b64_char :: "nat \<Rightarrow> char" where
  "b64_char n =
     (if n < 26 then char_of (65 + n)
      else if n < 52 then char_of (71 + n)
      else if n < 62 then char_of (n - 4)
      else if n = 62 then CHR ''+'' else CHR ''/'')"

definition b64_value :: "char \<Rightarrow> nat option" where
  "b64_value c =
     (let k = (of_char c :: nat)
      in if 65 \<le> k \<and> k \<le> 90 then Some (k - 65)
         else if 97 \<le> k \<and> k \<le> 122 then Some (k - 71)
         else if 48 \<le> k \<and> k \<le> 57 then Some (k + 4)
         else if c = CHR ''+'' then Some 62
         else if c = CHR ''/'' then Some 63
         else None)"

fun base64_encode :: "string \<Rightarrow> string" where
  "base64_encode (a # b # c # rest) =
     [b64_char (of_char a div 4),
      b64_char (of_char a mod 4 * 16 + of_char b div 16),
      b64_char (of_char b mod 16 * 4 + of_char c div 64),
      b64_char (of_char c mod 64)] @ base64_encode rest"
| "base64_encode [a, b] =
     [b64_char (of_char a div 4),
      b64_char (of_char a mod 4 * 16 + of_char b div 16),
      b64_char (of_char b mod 16 * 4),
      CHR ''='']"
| "base64_encode [a] =
     [b64_char (of_char a div 4),
      b64_char (of_char a mod 4 * 16),
      CHR ''='', CHR ''='']"
| "base64_encode [] = []"

fun sextets_to_bytes :: "nat list \<Rightarrow> string" where
  "sextets_to_bytes (a # b # c # d # rest) =
     [char_of (a * 4 + b div 16), char_of (b mod 16 * 16 + c div 4), char_of (c mod 4 * 64 + d)]
       @ sextets_to_bytes rest"
| "sextets_to_bytes [a, b, c] = [char_of (a * 4 + b div 16), char_of (b mod 16 * 16 + c div 4)]"
| "sextets_to_bytes [a, b] = [char_of (a * 4 + b div 16)]"
| "sextets_to_bytes _ = []"

definition replace_char :: "char \<Rightarrow> char \<Rightarrow> string \<Rightarrow> string" where
  "replace_char a b s = map (\<lambda>c. if c = a then b else c) s"

definition remove_char :: "char \<Rightarrow> string \<Rightarrow> string" where
  "remove_char a s = filter (\<lambda>c. c \<noteq> a) s"

definition node_b64_value :: "char \<Rightarrow> nat option" where
  "node_b64_value c =
     (if c = CHR ''-'' then Some 62 else if c = CHR ''_'' then Some 63 else b64_value c)"

definition Buffer_from_base64 :: "string \<Rightarrow> string" where
  "Buffer_from_base64 s =
     sextets_to_bytes (List.map_filter node_b64_value (takeWhile (\<lambda>c. c \<noteq> CHR ''='') s))"

datatype exn = SyntaxError | TypeError | InvalidCharacterError

definition ascii_whitespace :: "char \<Rightarrow> bool" where
  "ascii_whitespace c \<longleftrightarrow> of_char c \<in> {9::nat, 10, 12, 13, 32}"

definition strip_padding :: "string \<Rightarrow> string" where
  "strip_padding d =
     (if length d mod 4 = 0 then
        (case rev d of
           x # y # r \<Rightarrow> if x = CHR ''='' \<and> y = CHR ''='' then rev r
                        else if x = CHR ''='' then rev (y # r) else d
         | _ \<Rightarrow> d)
      else d)"

text \<open>
  The result of \<open>atob\<close> is a binary string: one character in the range U+0000 to U+00FF
  for every decoded byte. \<open>binary_string\<close> writes these characters in UTF-8, as every
  string of the model is, so a byte of \<open>0x80\<close> and above becomes two bytes.
\<close>

definition binary_string :: "string \<Rightarrow> string" where
  "binary_string bytes =
     concat (map (\<lambda>c. if (of_char c :: nat) < 128 then [c]
                       else [char_of (192 + (of_char c :: nat) div 64),
                             char_of (128 + (of_char c :: nat) mod 64)]) bytes)"

definition atob :: "string \<Rightarrow> exn + string" where
  "atob s =
     (let d = strip_padding (filter (\<lambda>c. \<not> ascii_whitespace c) s)
      in if length d mod 4 = 1 then Inl InvalidCharacterError
         else if \<exists>c \<in> set d. b64_value c = None then Inl InvalidCharacterError
         else Inr (binary_string (sextets_to_bytes (List.map_filter b64_value d))))"

definition base64urlEncode :: "string \<Rightarrow> string" where
  "base64urlEncode str =
     remove_char CHR ''='' (replace_char CHR ''/'' CHR ''_'' (replace_char CHR ''+'' CHR ''-'' (base64_encode str)))"

definition pad4 :: "string \<Rightarrow> string" where
  "pad4 str = str @ replicate ((4 - length str mod 4) mod 4) CHR ''=''"

definition base64urlDecode :: "string \<Rightarrow> string" where
  "base64urlDecode str =
     Buffer_from_base64 (pad4 (replace_char CHR ''_'' CHR ''/'' (replace_char CHR ''-'' CHR ''+'' str)))"

subsection \<open>SHA-256 and HMAC\<close>


type_synonym word32 = "32 word"

definition K256 :: "word32 list" where
  "K256 = [
    1116352408, 1899447441, 3049323471, 3921009573, 961987163, 1508970993, 2453635748, 2870763221,
    3624381080, 310598401, 607225278, 1426881987, 1925078388, 2162078206, 2614888103, 3248222580,
    3835390401, 4022224774, 264347078, 604807628, 770255983, 1249150122, 1555081692, 1996064986,
    2554220882, 2821834349, 2952996808, 3210313671, 3336571891, 3584528711, 113926993, 338241895,
    666307205, 773529912, 1294757372, 1396182291, 1695183700, 1986661051, 2177026350, 2456956037,
    2730485921, 2820302411, 3259730800, 3345764771, 3516065817, 3600352804, 4094571909, 275423344,
    430227734, 506948616, 659060556, 883997877, 958139571, 1322822218, 1537002063, 1747873779,
    1955562222, 2024104815, 2227730452, 2361852424, 2428436474, 2756734187, 3204031479, 3329325298]"

definition H256 :: "word32 \<times> word32 \<times> word32 \<times> word32 \<times> word32 \<times> word32 \<times> word32 \<times> word32" where
  "H256 = (1779033703, 3144134277, 1013904242, 2773480762,
           1359893119, 2600822924, 528734635, 1541459225)"

definition rotr :: "nat \<Rightarrow> word32 \<Rightarrow> word32" where
  "rotr n x = (drop_bit n x) OR (push_bit (32 - n) x)"

definition Ch :: "word32 \<Rightarrow> word32 \<Rightarrow> word32 \<Rightarrow> word32" where
  "Ch x y z = (x AND y) XOR (NOT x AND z)"

definition Maj :: "word32 \<Rightarrow> word32 \<Rightarrow> word32 \<Rightarrow> word32" where
  "Maj x y z = (x AND y) XOR (x AND z) XOR (y AND z)"

definition bsig0 :: "word32 \<Rightarrow> word32" where
  "bsig0 x = rotr 2 x XOR rotr 13 x XOR rotr 22 x"

definition bsig1 :: "word32 \<Rightarrow> word32" where
  "bsig1 x = rotr 6 x XOR rotr 11 x XOR rotr 25 x"

definition ssig0 :: "word32 \<Rightarrow> word32" where
  "ssig0 x = rotr 7 x XOR rotr 18 x XOR drop_bit 3 x"

definition ssig1 :: "word32 \<Rightarrow> word32" where
  "ssig1 x = rotr 17 x XOR rotr 19 x XOR drop_bit 10 x"

fun be_words :: "string \<Rightarrow> word32 list" where
  "be_words (a # b # c # d # rest) =
     word_of_nat (((of_char a * 256 + of_char b) * 256 + of_char c) * 256 + of_char d) # be_words rest"
| "be_words _ = []"

definition be_bytes :: "nat \<Rightarrow> nat \<Rightarrow> string" where
  "be_bytes k n = map (\<lambda>i. char_of (n div 256 ^ (k - 1 - i))) [0..<k]"

definition sha256_pad :: "string \<Rightarrow> string" where
  "sha256_pad m =
     m @ [char_of (128::nat)] @ replicate ((119 - length m mod 64) mod 64) (char_of (0::nat))
       @ be_bytes 8 (8 * length m)"

definition schedule_step :: "word32 list \<Rightarrow> nat \<Rightarrow> word32 list" where
  "schedule_step ws t =
     ws @ [ssig1 (ws ! (t - 2)) + ws ! (t - 7) + ssig0 (ws ! (t - 15)) + ws ! (t - 16)]"

definition schedule :: "word32 list \<Rightarrow> word32 list" where
  "schedule ws = foldl schedule_step ws [16..<64]"

type_synonym sha_state = "word32 \<times> word32 \<times> word32 \<times> word32 \<times> word32 \<times> word32 \<times> word32 \<times> word32"

definition sha_round :: "sha_state \<Rightarrow> word32 \<times> word32 \<Rightarrow> sha_state" where
  "sha_round s kw =
     (case s of (a, b, c, d, e, f, g, h) \<Rightarrow>
        let t1 = h + bsig1 e + Ch e f g + fst kw + snd kw;
            t2 = bsig0 a + Maj a b c
        in (t1 + t2, a, b, c, d + t1, e, f, g))"

definition add_state :: "sha_state \<Rightarrow> sha_state \<Rightarrow> sha_state" where
  "add_state s t =
     (case s of (a, b, c, d, e, f, g, h) \<Rightarrow>
      case t of (a', b', c', d', e', f', g', h') \<Rightarrow>
        (a + a', b + b', c + c', d + d', e + e', f + f', g + g', h + h'))"

definition state_words :: "sha_state \<Rightarrow> word32 list" where
  "state_words s = (case s of (a, b, c, d, e, f, g, h) \<Rightarrow> [a, b, c, d, e, f, g, h])"

definition compress :: "sha_state \<Rightarrow> string \<Rightarrow> sha_state" where
  "compress hs block =
     add_state hs (foldl sha_round hs (zip K256 (schedule (be_words block))))"

definition blocks64 :: "string \<Rightarrow> string list" where
  "blocks64 m = map (\<lambda>i. take 64 (drop (64 * i) m)) [0..<length m div 64]"

definition sha256 :: "string \<Rightarrow> string" where
  "sha256 m =
     (let p = sha256_pad m
      in concat (map (\<lambda>w. be_bytes 4 (unat w)) (state_words (foldl compress H256 (blocks64 p)))))"

definition hmac_sha256 :: "string \<Rightarrow> string \<Rightarrow> string" where
  "hmac_sha256 key msg =
     (let k0 = (if length key > 64 then sha256 key else key);
          k = k0 @ replicate (64 - length k0) (char_of (0::nat));
          ipad = map (\<lambda>c. char_of (of_char c XOR (54::nat))) k;
          opad = map (\<lambda>c. char_of (of_char c XOR (92::nat))) k
      in sha256 (opad @ sha256 (ipad @ msg)))"

subsection \<open>JSON\<close>

text \<open>
  An object is the list of its properties in insertion order; \<open>obj_put\<close> is property
  assignment (an existing key keeps its place).
\<close>

datatype json =
    JNull
  | JBool bool
  | JNum int int
  | JStr string
  | JArr "json list"
  | JObj "(string \<times> json) list"

fun obj_put :: "(string \<times> json) list \<Rightarrow> string \<Rightarrow> json \<Rightarrow> (string \<times> json) list" where
  "obj_put [] k v = [(k, v)]"
| "obj_put (p # ps) k v = (if fst p = k then (k, v) # ps else p # obj_put ps k v)"

subsection \<open>Printing\<close>

definition digit_char :: "nat \<Rightarrow> char" where
  "digit_char d = char_of (48 + d)"

fun nat_digits :: "nat \<Rightarrow> string" where
  "nat_digits n = (if n < 10 then [digit_char n] else nat_digits (n div 10) @ [digit_char (n mod 10)])"

declare nat_digits.simps [simp del]

definition Number_toString :: "int \<Rightarrow> int \<Rightarrow> string" where
  "Number_toString m e =
     (if m = 0 then ''0''
      else
        let ds0 = nat_digits (nat \<bar>m\<bar>);
            z = length (takeWhile (\<lambda>c. c = CHR ''0'') (rev ds0));
            ds = take (length ds0 - z) ds0;
            k = int (length ds);
            n = k + e + int z;
            sgn = (if m < 0 then ''-'' else '''')
        in if k \<le> n \<and> n \<le> 21 then sgn @ ds @ replicate (nat (n - k)) CHR ''0''
           else if 0 < n \<and> n \<le> 21 then sgn @ take (nat n) ds @ ''.'' @ drop (nat n) ds
           else if - 6 < n \<and> n \<le> 0 then sgn @ ''0.'' @ replicate (nat (- n)) CHR ''0'' @ ds
           else
             let ex = (if n - 1 < 0 then ''-'' else ''+'') @ nat_digits (nat \<bar>n - 1\<bar>)
             in if k = 1 then sgn @ ds @ ''e'' @ ex
                else sgn @ take 1 ds @ ''.'' @ drop 1 ds @ ''e'' @ ex)"

definition hex_digit :: "nat \<Rightarrow> char" where
  "hex_digit n = (if n < 10 then char_of (48 + n) else char_of (87 + n))"

definition escape_char :: "char \<Rightarrow> string" where
  "escape_char c =
     (let k = (of_char c :: nat)
      in if c = CHR 0x22 then [CHR 0x5C, CHR 0x22]
         else if c = CHR 0x5C then [CHR 0x5C, CHR 0x5C]
         else if k = 8 then [CHR 0x5C, CHR ''b'']
         else if k = 12 then [CHR 0x5C, CHR ''f'']
         else if k = 10 then [CHR 0x5C, CHR ''n'']
         else if k = 13 then [CHR 0x5C, CHR ''r'']
         else if k = 9 then [CHR 0x5C, CHR ''t'']
         else if k < 32 then [CHR 0x5C, CHR ''u'', CHR ''0'', CHR ''0'', hex_digit (k div 16), hex_digit (k mod 16)]
         else [c])"

definition QuoteJSONString :: "string \<Rightarrow> string" where
  "QuoteJSONString s = [CHR 0x22] @ concat (map escape_char s) @ [CHR 0x22]"

fun JSON_stringify :: "json \<Rightarrow> string"
  and stringify_elements :: "json list \<Rightarrow> string"
  and stringify_members :: "(string \<times> json) list \<Rightarrow> string" where
  "JSON_stringify JNull = ''null''"
| "JSON_stringify (JBool b) = (if b then ''true'' else ''false'')"
| "JSON_stringify (JNum m e) = Number_toString m e"
| "JSON_stringify (JStr s) = QuoteJSONString s"
| "JSON_stringify (JArr xs) = ''['' @ stringify_elements xs @ '']''"
| "JSON_stringify (JObj ms) = ''{'' @ stringify_members ms @ ''}''"
| "stringify_elements [] = []"
| "stringify_elements [x] = JSON_stringify x"
| "stringify_elements (x # y # xs) = JSON_stringify x @ '','' @ stringify_elements (y # xs)"
| "stringify_members [] = []"
| "stringify_members [(k, v)] = QuoteJSONString k @ '':'' @ JSON_stringify v"
| "stringify_members ((k, v) # m # ms) =
     QuoteJSONString k @ '':'' @ JSON_stringify v @ '','' @ stringify_members (m # ms)"

subsection \<open>Lexing\<close>

datatype token =
    TLBrace | TRBrace | TLBrack | TRBrack | TColon | TComma
  | TString string | TNumber int int | TTrue | TFalse | TNull

datatype item = Byte char | Unit nat

definition json_ws :: "char \<Rightarrow> bool" where
  "json_ws c \<longleftrightarrow> of_char c \<in> {9::nat, 10, 13, 32}"

definition is_digit :: "char \<Rightarrow> bool" where
  "is_digit c \<longleftrightarrow> 48 \<le> (of_char c :: nat) \<and> (of_char c :: nat) \<le> 57"

definition hex_value :: "char \<Rightarrow> nat option" where
  "hex_value c =
     (let k = (of_char c :: nat)
      in if 48 \<le> k \<and> k \<le> 57 then Some (k - 48)
         else if 97 \<le> k \<and> k \<le> 102 then Some (k - 87)
         else if 65 \<le> k \<and> k \<le> 70 then Some (k - 55)
         else None)"

definition hex4 :: "char \<Rightarrow> char \<Rightarrow> char \<Rightarrow> char \<Rightarrow> nat option" where
  "hex4 a b c d =
     (case (hex_value a, hex_value b, hex_value c, hex_value d) of
        (Some x, Some y, Some z, Some w) \<Rightarrow> Some (((x * 16 + y) * 16 + z) * 16 + w)
      | _ \<Rightarrow> None)"

definition simple_escape :: "char \<Rightarrow> char option" where
  "simple_escape e =
     (if e = CHR 0x22 then Some (CHR 0x22)
      else if e = CHR 0x5C then Some (CHR 0x5C)
      else if e = CHR ''/'' then Some (CHR ''/'')
      else if e = CHR ''b'' then Some (char_of (8::nat))
      else if e = CHR ''f'' then Some (char_of (12::nat))
      else if e = CHR ''n'' then Some (char_of (10::nat))
      else if e = CHR ''r'' then Some (char_of (13::nat))
      else if e = CHR ''t'' then Some (char_of (9::nat))
      else None)"

definition cons_item :: "item \<Rightarrow> (item list \<times> string) option \<Rightarrow> (item list \<times> string) option" where
  "cons_item i r = (case r of None \<Rightarrow> None | Some (is, rest) \<Rightarrow> Some (i # is, rest))"

fun lex_string :: "string \<Rightarrow> (item list \<times> string) option" where
  "lex_string [] = None"
| "lex_string (c # cs) =
     (if c = CHR 0x22 then Some ([], cs)
      else if c = CHR 0x5C then
        (case cs of
           [] \<Rightarrow> None
         | e # cs1 \<Rightarrow>
             if e = CHR ''u'' then
               (case cs1 of
                  h1 # h2 # h3 # h4 # cs2 \<Rightarrow>
                    (case hex4 h1 h2 h3 h4 of
                       None \<Rightarrow> None
                     | Some u \<Rightarrow> cons_item (Unit u) (lex_string cs2))
                | _ \<Rightarrow> None)
             else
               (case simple_escape e of
                  None \<Rightarrow> None
                | Some x \<Rightarrow> cons_item (Byte x) (lex_string cs1)))
      else if (of_char c :: nat) < 32 then None
      else cons_item (Byte c) (lex_string cs))"

definition utf8 :: "nat \<Rightarrow> string" where
  "utf8 n =
     (if n < 128 then [char_of n]
      else if n < 2048 then [char_of (192 + n div 64), char_of (128 + n mod 64)]
      else if n < 65536 then
        [char_of (224 + n div 4096), char_of (128 + n div 64 mod 64), char_of (128 + n mod 64)]
      else
        [char_of (240 + n div 262144), char_of (128 + n div 4096 mod 64),
         char_of (128 + n div 64 mod 64), char_of (128 + n mod 64)])"

fun bytes_of_items :: "item list \<Rightarrow> string" where
  "bytes_of_items [] = []"
| "bytes_of_items (Byte c # r) = c # bytes_of_items r"
| "bytes_of_items (Unit h # r) =
     (case r of
        Unit l # r' \<Rightarrow>
          if 55296 \<le> h \<and> h < 56320 \<and> 56320 \<le> l \<and> l < 57344
          then utf8 (65536 + (h - 55296) * 1024 + (l - 56320)) @ bytes_of_items r'
          else utf8 h @ bytes_of_items r
      | _ \<Rightarrow> utf8 h @ bytes_of_items r)"

definition digits_value :: "string \<Rightarrow> nat" where
  "digits_value ds = foldl (\<lambda>a c. 10 * a + (of_char c - 48)) 0 ds"

definition lex_number :: "string \<Rightarrow> ((int \<times> int) \<times> string) option" where
  "lex_number s =
     (let neg = (case s of [] \<Rightarrow> False | c # _ \<Rightarrow> c = CHR ''-'');
          s1 = (if neg then tl s else s);
          ds = takeWhile is_digit s1;
          s2 = dropWhile is_digit s1
      in if ds = [] \<or> (length ds > 1 \<and> hd ds = CHR ''0'') then None
         else
           let has_frac = (case s2 of [] \<Rightarrow> False | c # _ \<Rightarrow> c = CHR ''.'');
               fs = (if has_frac then takeWhile is_digit (tl s2) else []);
               s3 = (if has_frac then dropWhile is_digit (tl s2) else s2)
           in if has_frac \<and> fs = [] then None
              else
                let has_exp = (case s3 of [] \<Rightarrow> False | c # _ \<Rightarrow> c = CHR ''e'' \<or> c = CHR ''E'');
                    s4 = (if has_exp then tl s3 else s3);
                    eneg = (has_exp \<and> (case s4 of [] \<Rightarrow> False | c # _ \<Rightarrow> c = CHR ''-''));
                    esgn = (has_exp \<and> (case s4 of [] \<Rightarrow> False | c # _ \<Rightarrow> c = CHR ''-'' \<or> c = CHR ''+''));
                    s5 = (if esgn then tl s4 else s4);
                    es = (if has_exp then takeWhile is_digit s5 else []);
                    s6 = (if has_exp then dropWhile is_digit s5 else s3)
                in if has_exp \<and> es = [] then None
                   else
                     let ex = (if eneg then - int (digits_value es) else int (digits_value es))
                     in Some ((if neg then - int (digits_value (ds @ fs)) else int (digits_value (ds @ fs)),
                               ex - int (length fs)), s6))"

definition cons_token :: "token \<Rightarrow> token list option \<Rightarrow> token list option" where
  "cons_token t r = (case r of None \<Rightarrow> None | Some ts \<Rightarrow> Some (t # ts))"

lemma cons_item_length:
  "cons_item i r = Some (is, rest) \<Longrightarrow> \<exists>js. r = Some (js, rest)"
  by (auto simp: cons_item_def split: option.splits)

lemma lex_string_length: "lex_string s = Some (is, rest) \<Longrightarrow> length rest < length s"
proof (induction s arbitrary: "is" rule: lex_string.induct)
  case 1
  then show ?case by simp
next
  case (2 c cs)
  show ?case
  proof (cases "c = CHR 0x22")
    case True
    with 2(4) show ?thesis by simp
  next
    case nq: False
    show ?thesis
    proof (cases "c = CHR 0x5C")
      case True
      with nq 2(4) obtain e cs1 where cs: "cs = e # cs1"
        by (cases cs) auto
      show ?thesis
      proof (cases "e = CHR ''u''")
        case eu: True
        with nq True cs 2(4) obtain h1 h2 h3 h4 cs2 u js where
          cs1: "cs1 = h1 # h2 # h3 # h4 # cs2" and h: "hex4 h1 h2 h3 h4 = Some u"
          and r: "lex_string cs2 = Some (js, rest)"
          by (auto split: list.splits option.splits dest: cons_item_length)
        from "2.IH"(1) [OF nq True cs eu cs1 refl refl refl h r] show ?thesis
          using cs cs1 by simp
      next
        case neu: False
        with nq True cs 2(4) obtain x js where
          x: "simple_escape e = Some x" and r: "lex_string cs1 = Some (js, rest)"
          by (auto split: option.splits dest: cons_item_length)
        from "2.IH"(2) [OF nq True cs neu x r] show ?thesis
          using cs by simp
      qed
    next
      case nb: False
      with nq 2(4) obtain js where c32: "\<not> (of_char c :: nat) < 32"
        and r: "lex_string cs = Some (js, rest)"
        by (auto split: if_splits dest: cons_item_length)
      from "2.IH"(3) [OF nq nb c32 r] show ?thesis by simp
    qed
  qed
qed

lemma lex_number_length: "lex_number s = Some (x, rest) \<Longrightarrow> length rest < length s"
proof -
  assume a: "lex_number s = Some (x, rest)"
  define neg where "neg = (case s of [] \<Rightarrow> False | c # _ \<Rightarrow> c = CHR ''-'')"
  define s1 where "s1 = (if neg then tl s else s)"
  define ds where "ds = takeWhile is_digit s1"
  define s2 where "s2 = dropWhile is_digit s1"
  have ds: "ds \<noteq> []"
    using a unfolding lex_number_def Let_def neg_def [symmetric] s1_def [symmetric] ds_def [symmetric]
    by (auto split: if_splits)
  have l1: "length s1 \<le> length s" by (simp add: s1_def)
  have "length ds + length s2 = length s1"
    unfolding ds_def s2_def by (metis length_append takeWhile_dropWhile_id)
  with ds have l2: "length s2 < length s1" by (cases ds) auto
  have dw: "length (dropWhile is_digit t) \<le> length t" for t
    by (simp add: length_dropWhile_le)
  have tl_le: "length (tl t) \<le> length t" for t :: string by simp
  have "length rest \<le> length s2"
    using a unfolding lex_number_def Let_def neg_def [symmetric] s1_def [symmetric] ds_def [symmetric] s2_def [symmetric]
    by (auto split: if_splits intro: order_trans [OF dw] order_trans [OF dw tl_le]
          order_trans [OF dw order_trans [OF tl_le order_trans [OF tl_le order_trans [OF dw tl_le]]]]
          order_trans [OF dw order_trans [OF tl_le order_trans [OF dw tl_le]]]
          order_trans [OF dw order_trans [OF tl_le order_trans [OF tl_le dw]]]
          order_trans [OF dw order_trans [OF tl_le dw]]
          order_trans [OF dw order_trans [OF tl_le tl_le]])
  with l1 l2 show ?thesis by linarith
qed

function tokenize :: "string \<Rightarrow> token list option" where
  "tokenize [] = Some []"
| "tokenize (c # cs) =
     (if json_ws c then tokenize cs
      else if c = CHR ''{'' then cons_token TLBrace (tokenize cs)
      else if c = CHR ''}'' then cons_token TRBrace (tokenize cs)
      else if c = CHR ''['' then cons_token TLBrack (tokenize cs)
      else if c = CHR '']'' then cons_token TRBrack (tokenize cs)
      else if c = CHR '':'' then cons_token TColon (tokenize cs)
      else if c = CHR '','' then cons_token TComma (tokenize cs)
      else if c = CHR 0x22 then
        (case lex_string cs of
           None \<Rightarrow> None
         | Some (is, rest) \<Rightarrow> cons_token (TString (bytes_of_items is)) (tokenize rest))
      else if c = CHR ''-'' \<or> is_digit c then
        (case lex_number (c # cs) of
           None \<Rightarrow> None
         | Some (me, rest) \<Rightarrow> cons_token (TNumber (fst me) (snd me)) (tokenize rest))
      else if take 4 (c # cs) = ''true'' then cons_token TTrue (tokenize (drop 3 cs))
      else if take 5 (c # cs) = ''false'' then cons_token TFalse (tokenize (drop 4 cs))
      else if take 4 (c # cs) = ''null'' then cons_token TNull (tokenize (drop 3 cs))
      else None)"
  by pat_completeness auto
termination
proof (relation "measure length", goal_cases)
  case (9 c cs x2 x y)
  then show ?case using lex_string_length [of cs x y] by simp
next
  case (10 c cs x2 x y)
  then show ?case using lex_number_length [of "c # cs" x y] by simp
qed auto

subsection \<open>Parsing\<close>

datatype frame =
    FArr "json list"
  | FObj "(string \<times> json) list" "string option"

datatype pstate =
    SValue "frame list" bool
  | SKey "frame list" bool
  | SColon "frame list"
  | SNext "frame list"
  | SDone json

definition finish :: "frame list \<Rightarrow> json \<Rightarrow> pstate option" where
  "finish st v =
     (case st of
        [] \<Rightarrow> Some (SDone v)
      | FArr xs # st' \<Rightarrow> Some (SNext (FArr (xs @ [v]) # st'))
      | FObj ms (Some k) # st' \<Rightarrow> Some (SNext (FObj (obj_put ms k v) None # st'))
      | FObj ms None # st' \<Rightarrow> None)"

definition step :: "pstate \<Rightarrow> token \<Rightarrow> pstate option" where
  "step s t =
     (case s of
        SValue st first \<Rightarrow>
          (case t of
             TLBrack \<Rightarrow> Some (SValue (FArr [] # st) True)
           | TLBrace \<Rightarrow> Some (SKey (FObj [] None # st) True)
           | TString x \<Rightarrow> finish st (JStr x)
           | TNumber m e \<Rightarrow> finish st (JNum m e)
           | TTrue \<Rightarrow> finish st (JBool True)
           | TFalse \<Rightarrow> finish st (JBool False)
           | TNull \<Rightarrow> finish st JNull
           | TRBrack \<Rightarrow>
               (case st of
                  FArr xs # st' \<Rightarrow> if first then finish st' (JArr xs) else None
                | _ \<Rightarrow> None)
           | _ \<Rightarrow> None)
      | SKey st first \<Rightarrow>
          (case t of
             TString k \<Rightarrow>
               (case st of
                  FObj ms _ # st' \<Rightarrow> Some (SColon (FObj ms (Some k) # st'))
                | _ \<Rightarrow> None)
           | TRBrace \<Rightarrow>
               (case st of
                  FObj ms _ # st' \<Rightarrow> if first then finish st' (JObj ms) else None
                | _ \<Rightarrow> None)
           | _ \<Rightarrow> None)
      | SColon st \<Rightarrow> (case t of TColon \<Rightarrow> Some (SValue st False) | _ \<Rightarrow> None)
      | SNext st \<Rightarrow>
          (case st of
             FArr xs # st' \<Rightarrow>
               (case t of
                  TComma \<Rightarrow> Some (SValue st False)
                | TRBrack \<Rightarrow> finish st' (JArr xs)
                | _ \<Rightarrow> None)
           | FObj ms _ # st' \<Rightarrow>
               (case t of
                  TComma \<Rightarrow> Some (SKey st False)
                | TRBrace \<Rightarrow> finish st' (JObj ms)
                | _ \<Rightarrow> None)
           | [] \<Rightarrow> None)
      | SDone v \<Rightarrow> None)"

fun run_parser :: "pstate \<Rightarrow> token list \<Rightarrow> json option" where
  "run_parser s [] = (case s of SDone v \<Rightarrow> Some v | _ \<Rightarrow> None)"
| "run_parser s (t # ts) = (case step s t of None \<Rightarrow> None | Some s' \<Rightarrow> run_parser s' ts)"

definition JSON_parse :: "string \<Rightarrow> exn + json" where
  "JSON_parse text =
     (case tokenize text of
        None \<Rightarrow> Inl SyntaxError
      | Some ts \<Rightarrow>
          (case run_parser (SValue [] False) ts of
             None \<Rightarrow> Inl SyntaxError
           | Some v \<Rightarrow> Inr v))"

subsection \<open>JavaScript operations on parsed values\<close>

fun truthy :: "json option \<Rightarrow> bool" where
  "truthy None = False"
| "truthy (Some JNull) = False"
| "truthy (Some (JBool b)) = b"
| "truthy (Some (JNum m e)) = (m \<noteq> 0)"
| "truthy (Some (JStr s)) = (s \<noteq> [])"
| "truthy (Some (JArr xs)) = True"
| "truthy (Some (JObj ms)) = True"

definition property :: "json \<Rightarrow> string \<Rightarrow> json option" where
  "property v k = (case v of JObj ms \<Rightarrow> map_of ms k | _ \<Rightarrow> None)"

definition get_property :: "json \<Rightarrow> string \<Rightarrow> exn + json option" where
  "get_property v k = (if v = JNull then Inl TypeError else Inr (property v k))"

text \<open>
  The \<open>length\<close> of a string counts UTF-16 code units: one for every character below
  U+10000 and two above. In UTF-8 these are the bytes that are not continuation bytes,
  and the lead bytes of four-byte sequences once more.
\<close>

definition String_length :: "string \<Rightarrow> nat" where
  "String_length s =
     length (filter (\<lambda>c. \<not> (128 \<le> (of_char c :: nat) \<and> (of_char c :: nat) < 192)) s)
     + length (filter (\<lambda>c. 240 \<le> (of_char c :: nat)) s)"

datatype jsnum = NaN | Infinity bool | Finite int int

definition str_ws_prefix :: "string \<Rightarrow> nat" where
  "str_ws_prefix s =
     (case s of
        [] \<Rightarrow> 0
      | c # _ \<Rightarrow>
          if of_char c \<in> {9::nat, 10, 11, 12, 13, 32} then 1
          else if map of_char (take 2 s) = [194::nat, 160] then 2
          else if map of_char (take 3 s) \<in>
                    {[239::nat, 187, 191], [225, 154, 128], [226, 128, 168], [226, 128, 169],
                     [226, 128, 175], [226, 129, 159], [227, 128, 128]} then 3
          else if map of_char (take 2 s) = [226::nat, 128] \<and> length s \<ge> 3
                    \<and> 128 \<le> (of_char (s ! 2) :: nat) \<and> (of_char (s ! 2) :: nat) \<le> 138 then 3
          else 0)"

fun trim_start :: "nat \<Rightarrow> string \<Rightarrow> string" where
  "trim_start 0 s = s"
| "trim_start (Suc n) s = (if str_ws_prefix s = 0 then s else trim_start n (drop (str_ws_prefix s) s))"

definition str_ws_suffix :: "string \<Rightarrow> nat" where
  "str_ws_suffix s =
     (if s = [] then 0
      else if str_ws_prefix [last s] = 1 then 1
      else if str_ws_prefix (drop (length s - 2) s) = 2 then 2
      else if str_ws_prefix (drop (length s - 3) s) = 3 then 3
      else 0)"

fun trim_end :: "nat \<Rightarrow> string \<Rightarrow> string" where
  "trim_end 0 s = s"
| "trim_end (Suc n) s =
     (if str_ws_suffix s = 0 then s else trim_end n (take (length s - str_ws_suffix s) s))"

definition radix_value :: "nat \<Rightarrow> string \<Rightarrow> jsnum" where
  "radix_value r ds =
     (if ds \<noteq> [] \<and> (\<forall>c \<in> set ds. case hex_value c of None \<Rightarrow> False | Some d \<Rightarrow> d < r)
      then Finite (int (foldl (\<lambda>a c. r * a + (case hex_value c of None \<Rightarrow> 0 | Some d \<Rightarrow> d)) 0 ds)) 0
      else NaN)"

definition StrDecimalLiteral :: "string \<Rightarrow> jsnum" where
  "StrDecimalLiteral t =
     (let neg = (case t of [] \<Rightarrow> False | c # _ \<Rightarrow> c = CHR ''-'');
          sgn = (case t of [] \<Rightarrow> False | c # _ \<Rightarrow> c = CHR ''-'' \<or> c = CHR ''+'');
          u = (if sgn then tl t else t)
      in if u = ''Infinity'' then Infinity neg
         else
           let ds = takeWhile is_digit u;
               r1 = dropWhile is_digit u;
               dot = (case r1 of [] \<Rightarrow> False | c # _ \<Rightarrow> c = CHR ''.'');
               fs = (if dot then takeWhile is_digit (tl r1) else []);
               r2 = (if dot then dropWhile is_digit (tl r1) else r1);
               has_exp = (case r2 of [] \<Rightarrow> False | c # _ \<Rightarrow> c = CHR ''e'' \<or> c = CHR ''E'');
               r3 = (if has_exp then tl r2 else r2);
               eneg = (has_exp \<and> (case r3 of [] \<Rightarrow> False | c # _ \<Rightarrow> c = CHR ''-''));
               esgn = (has_exp \<and> (case r3 of [] \<Rightarrow> False | c # _ \<Rightarrow> c = CHR ''-'' \<or> c = CHR ''+''));
               r4 = (if esgn then tl r3 else r3);
               es = (if has_exp then takeWhile is_digit r4 else []);
               r5 = (if has_exp then dropWhile is_digit r4 else r2);
               ex = (if eneg then - int (digits_value es) else int (digits_value es));
               m = int (digits_value (ds @ fs))
           in if (ds = [] \<and> fs = []) \<or> (has_exp \<and> es = []) \<or> r5 \<noteq> [] then NaN
              else Finite (if neg then - m else m) (ex - int (length fs)))"

definition StringToNumber :: "string \<Rightarrow> jsnum" where
  "StringToNumber s =
     (let t = trim_end (length s) (trim_start (length s) s)
      in if t = [] then Finite 0 0
         else if take 2 t = ''0x'' \<or> take 2 t = ''0X'' then radix_value 16 (drop 2 t)
         else if take 2 t = ''0o'' \<or> take 2 t = ''0O'' then radix_value 8 (drop 2 t)
         else if take 2 t = ''0b'' \<or> take 2 t = ''0B'' then radix_value 2 (drop 2 t)
         else StrDecimalLiteral t)"

fun element_string :: "json \<Rightarrow> exn + string"
  and join_elements :: "json list \<Rightarrow> exn + string" where
  "element_string JNull = Inr []"
| "element_string (JBool b) = Inr (if b then ''true'' else ''false'')"
| "element_string (JNum m e) = Inr (Number_toString m e)"
| "element_string (JStr s) = Inr s"
| "element_string (JArr xs) = join_elements xs"
| "element_string (JObj ms) =
     (if map_of ms ''toString'' \<noteq> None then Inl TypeError else Inr ''[object Object]'')"
| "join_elements [] = Inr []"
| "join_elements [x] = element_string x"
| "join_elements (x # y # xs) =
     (case element_string x of
        Inl err \<Rightarrow> Inl err
      | Inr a \<Rightarrow> (case join_elements (y # xs) of Inl err \<Rightarrow> Inl err | Inr b \<Rightarrow> Inr (a @ '','' @ b)))"

definition ToNumber :: "json option \<Rightarrow> exn + jsnum" where
  "ToNumber v =
     (case v of
        None \<Rightarrow> Inr NaN
      | Some JNull \<Rightarrow> Inr (Finite 0 0)
      | Some (JBool b) \<Rightarrow> Inr (Finite (if b then 1 else 0) 0)
      | Some (JNum m e) \<Rightarrow> Inr (Finite m e)
      | Some (JStr s) \<Rightarrow> Inr (StringToNumber s)
      | Some (JArr xs) \<Rightarrow>
          (case join_elements xs of Inl err \<Rightarrow> Inl err | Inr s \<Rightarrow> Inr (StringToNumber s))
      | Some (JObj ms) \<Rightarrow>
          (if map_of ms ''toString'' \<noteq> None then Inl TypeError else Inr NaN))"

definition less_than_integer :: "json option \<Rightarrow> int \<Rightarrow> exn + bool" where
  "less_than_integer v n =
     (case ToNumber v of
        Inl err \<Rightarrow> Inl err
      | Inr NaN \<Rightarrow> Inr False
      | Inr (Infinity neg) \<Rightarrow> Inr neg
      | Inr (Finite m e) \<Rightarrow>
          Inr (if 0 \<le> e then m * 10 ^ nat e < n else m < n * 10 ^ nat (- e)))"

section \<open>Token codec (lib/auth/jwt.ts)\<close>

record Env =
  JWT_SECRET_env :: "string option"
  JWT_EXPIRES_IN_env :: "string option"
  JWT_REFRESH_EXPIRES_IN_env :: "string option"

definition env_or :: "string option \<Rightarrow> string \<Rightarrow> string" where
  "env_or v d = (case v of None \<Rightarrow> d | Some s \<Rightarrow> if s = [] then d else s)"

definition JWT_SECRET :: "Env \<Rightarrow> string" where
  "JWT_SECRET env = env_or (JWT_SECRET_env env) ''fallback-secret-change-in-production''"

definition JWT_EXPIRES_IN :: "Env \<Rightarrow> string" where
  "JWT_EXPIRES_IN env = env_or (JWT_EXPIRES_IN_env env) ''15m''"

definition JWT_REFRESH_EXPIRES_IN :: "Env \<Rightarrow> string" where
  "JWT_REFRESH_EXPIRES_IN env = env_or (JWT_REFRESH_EXPIRES_IN_env env) ''7d''"

definition ACCESS_TOKEN_COOKIE :: string where
  "ACCESS_TOKEN_COOKIE = ''access_token''"

definition REFRESH_TOKEN_COOKIE :: string where
  "REFRESH_TOKEN_COOKIE = ''refresh_token''"

definition parseDuration :: "string \<Rightarrow> int" where
  "parseDuration duration =
     (if duration = [] then 15 * 60 * 1000
      else
        let ds = butlast duration;
            unit = last duration
        in if ds = [] \<or> \<not> list_all is_digit ds then 15 * 60 * 1000
           else
             let v = int (digits_value ds)
             in if unit = CHR ''s'' then v * 1000
                else if unit = CHR ''m'' then v * 60 * 1000
                else if unit = CHR ''h'' then v * 60 * 60 * 1000
                else if unit = CHR ''d'' then v * 24 * 60 * 60 * 1000
                else 15 * 60 * 1000)"

definition createSignature :: "string \<Rightarrow> string \<Rightarrow> string" where
  "createSignature data secret =
     remove_char CHR ''=''
       (replace_char CHR ''/'' CHR ''_''
          (replace_char CHR ''+'' CHR ''-'' (base64_encode (hmac_sha256 secret data))))"

type_synonym TokenPayload = "(string \<times> json) list"

definition signToken :: "Env \<Rightarrow> TokenPayload \<Rightarrow> string \<Rightarrow> int \<Rightarrow> string" where
  "signToken env payload expiresIn date_now =
     (let header = JObj [(''alg'', JStr ''HS256''), (''typ'', JStr ''JWT'')];
          now = date_now div 1000;
          exp = now + parseDuration expiresIn div 1000;
          fullPayload = JObj (obj_put (obj_put payload ''iat'' (JNum now 0)) ''exp'' (JNum exp 0));
          encodedHeader = base64urlEncode (JSON_stringify header);
          encodedPayload = base64urlEncode (JSON_stringify fullPayload);
          signature = createSignature (encodedHeader @ ''.'' @ encodedPayload) (JWT_SECRET env)
      in encodedHeader @ ''.'' @ encodedPayload @ ''.'' @ signature)"

fun split_acc :: "char \<Rightarrow> string \<Rightarrow> string \<Rightarrow> string list" where
  "split_acc sep acc [] = [rev acc]"
| "split_acc sep acc (c # cs) =
     (if c = sep then rev acc # split_acc sep [] cs else split_acc sep (c # acc) cs)"

definition split :: "char \<Rightarrow> string \<Rightarrow> string list" where
  "split sep s = split_acc sep [] s"

definition verifyToken_try :: "Env \<Rightarrow> string \<Rightarrow> int \<Rightarrow> exn + json option" where
  "verifyToken_try env token date_now =
     (case split CHR ''.'' token of
        [encodedHeader, encodedPayload, signature] \<Rightarrow>
          let expectedSignature =
                createSignature (encodedHeader @ ''.'' @ encodedPayload) (JWT_SECRET env)
          in if signature \<noteq> expectedSignature then Inr None
             else
               (case JSON_parse (base64urlDecode encodedPayload) of
                  Inl err \<Rightarrow> Inl err
                | Inr payload \<Rightarrow>
                    (case get_property payload ''exp'' of
                       Inl err \<Rightarrow> Inl err
                     | Inr exp \<Rightarrow>
                         (case less_than_integer exp (date_now div 1000) of
                            Inl err \<Rightarrow> Inl err
                          | Inr expired \<Rightarrow> if expired then Inr None else Inr (Some payload))))
      | _ \<Rightarrow> Inr None)"

definition verifyToken :: "Env \<Rightarrow> string \<Rightarrow> int \<Rightarrow> json option" where
  "verifyToken env token date_now =
     (case verifyToken_try env token date_now of Inl err \<Rightarrow> None | Inr result \<Rightarrow> result)"

definition signAccessToken :: "Env \<Rightarrow> TokenPayload \<Rightarrow> int \<Rightarrow> string" where
  "signAccessToken env payload date_now = signToken env payload (JWT_EXPIRES_IN env) date_now"

definition signRefreshToken :: "Env \<Rightarrow> TokenPayload \<Rightarrow> int \<Rightarrow> string" where
  "signRefreshToken env payload date_now =
     signToken env payload (JWT_REFRESH_EXPIRES_IN env) date_now"

section \<open>Route guard (middleware.ts)\<close>

record TokenResult =
  valid :: bool
  isVerifiedClaim :: "json option"

definition verifyTokenEdge_try :: "Env \<Rightarrow> string \<Rightarrow> int \<Rightarrow> exn + TokenResult" where
  "verifyTokenEdge_try env token date_now =
     (let secret = env_or (JWT_SECRET_env env) ''fallback-secret''
      in case split CHR ''.'' token of
           [encodedHeader, encodedPayload, signature] \<Rightarrow>
             let expectedSignature =
                   remove_char CHR ''=''
                     (replace_char CHR ''/'' CHR ''_''
                        (replace_char CHR ''+'' CHR ''-''
                           (base64_encode (hmac_sha256 secret (encodedHeader @ ''.'' @ encodedPayload)))))
             in if signature \<noteq> expectedSignature then Inr \<lparr>valid = False, isVerifiedClaim = None\<rparr>
                else
                  (case atob (replace_char CHR ''_'' CHR ''/'' (replace_char CHR ''-'' CHR ''+'' encodedPayload)) of
                     Inl err \<Rightarrow> Inl err
                   | Inr text \<Rightarrow>
                       (case JSON_parse text of
                          Inl err \<Rightarrow> Inl err
                        | Inr payload \<Rightarrow>
                            (case get_property payload ''exp'' of
                               Inl err \<Rightarrow> Inl err
                             | Inr exp \<Rightarrow>
                                 (case less_than_integer exp (date_now div 1000) of
                                    Inl err \<Rightarrow> Inl err
                                  | Inr expired \<Rightarrow>
                                      if expired then Inr \<lparr>valid = False, isVerifiedClaim = None\<rparr>
                                      else
                                        (case get_property payload ''isVerified'' of
                                           Inl err \<Rightarrow> Inl err
                                         | Inr v \<Rightarrow> Inr \<lparr>valid = True, isVerifiedClaim = v\<rparr>)))))
         | _ \<Rightarrow> Inr \<lparr>valid = False, isVerifiedClaim = None\<rparr>)"

definition verifyTokenEdge :: "Env \<Rightarrow> string \<Rightarrow> int \<Rightarrow> TokenResult" where
  "verifyTokenEdge env token date_now =
     (case verifyTokenEdge_try env token date_now of
        Inl err \<Rightarrow> \<lparr>valid = False, isVerifiedClaim = None\<rparr>
      | Inr result \<Rightarrow> result)"

definition protectedRoutes :: "string list" where
  "protectedRoutes = [''/dashboard'']"

definition authRoutes :: "string list" where
  "authRoutes = [''/login'', ''/register'']"

definition startsWith :: "string \<Rightarrow> string \<Rightarrow> bool" where
  "startsWith s pre \<longleftrightarrow> take (length pre) s = pre"

record NextRequest =
  pathname :: string
  cookies :: "(string \<times> string) list"

datatype NextResponse = Next | Redirect string "(string \<times> string) list"

definition bypassesGuard :: "string \<Rightarrow> bool" where
  "bypassesGuard path \<longleftrightarrow>
     startsWith path ''/_next'' \<or> startsWith path ''/api/auth'' \<or> CHR ''.'' \<in> set path"

definition isProtectedRoute :: "string \<Rightarrow> bool" where
  "isProtectedRoute path \<longleftrightarrow> list_ex (\<lambda>route. startsWith path route) protectedRoutes"

definition isAuthRoute :: "string \<Rightarrow> bool" where
  "isAuthRoute path \<longleftrightarrow> list_ex (\<lambda>route. path = route \<or> startsWith path route) authRoutes"

definition middleware :: "Env \<Rightarrow> NextRequest \<Rightarrow> int \<Rightarrow> NextResponse" where
  "middleware env request date_now =
     (if bypassesGuard (pathname request) then Next
      else
        let accessToken = map_of (cookies request) ACCESS_TOKEN_COOKIE;
            tokenResult =
              (case accessToken of
                 None \<Rightarrow> \<lparr>valid = False, isVerifiedClaim = Some (JBool False)\<rparr>
               | Some t \<Rightarrow>
                   if t = [] then \<lparr>valid = False, isVerifiedClaim = Some (JBool False)\<rparr>
                   else verifyTokenEdge env t date_now);
            isAuthenticated = valid tokenResult
        in if isProtectedRoute (pathname request)
                \<and> (\<not> isAuthenticated \<or> \<not> truthy (isVerifiedClaim tokenResult))
           then Redirect ''/login'' [(''redirect'', pathname request)]
           else if isAuthRoute (pathname request) \<and> isAuthenticated
                     \<and> truthy (isVerifiedClaim tokenResult)
           then Redirect ''/dashboard'' []
           else Next)"

section \<open>User model (lib/models/User.ts) and mail (lib/auth/email.ts)\<close>

record User =
  user_id :: string
  name :: string
  email :: string
  password :: string
  avatar :: "string option"
  role :: string
  reputation :: int
  isVerified :: bool
  verificationToken :: "string option"
  resetPasswordToken :: "string option"
  resetPasswordExpires :: "int option"
  lastLoginAt :: "int option"
  createdAt :: int
  updatedAt :: int

text \<open>
  Two library functions are parameters: \<open>bcrypt.hash\<close>, and \<open>String.prototype.toLowerCase\<close>,
  which follows the case mapping of the Unicode character database.
\<close>

record Platform =
  bcrypt_hash :: "string \<Rightarrow> string \<Rightarrow> string"
  toLowerCase :: "string \<Rightarrow> string"

definition pre_save :: "Platform \<Rightarrow> string option \<Rightarrow> User \<Rightarrow> User" where
  "pre_save P modified_password_salt this =
     (case modified_password_salt of
        None \<Rightarrow> this
      | Some salt \<Rightarrow> this\<lparr>password := bcrypt_hash P (password this) salt\<rparr>)"

definition User_save :: "Platform \<Rightarrow> string option \<Rightarrow> int \<Rightarrow> User \<Rightarrow> User list \<Rightarrow> User list" where
  "User_save P modified_password_salt date_now doc users =
     (let doc' = (pre_save P modified_password_salt doc)\<lparr>updatedAt := date_now\<rparr>
      in map (\<lambda>u. if user_id u = user_id doc then doc' else u) users)"

definition User_findOne :: "(User \<Rightarrow> bool) \<Rightarrow> User list \<Rightarrow> User option" where
  "User_findOne query users = find query users"

definition hex :: "string \<Rightarrow> string" where
  "hex bs = concat (map (\<lambda>c. [hex_digit (of_char c div 16), hex_digit (of_char c mod 16)]) bs)"

definition hashToken :: "string \<Rightarrow> string" where
  "hashToken token = hex (sha256 token)"

datatype EmailKind = VerificationEmail | PasswordResetEmail

record Email =
  recipient :: string
  recipientName :: string
  kind :: EmailKind
  rawToken :: string

definition sendVerificationEmail :: "string \<Rightarrow> string \<Rightarrow> string \<Rightarrow> Email list \<Rightarrow> Email list" where
  "sendVerificationEmail to nm token outbox =
     outbox @ [\<lparr>recipient = to, recipientName = nm, kind = VerificationEmail, rawToken = token\<rparr>]"

definition sendPasswordResetEmail :: "string \<Rightarrow> string \<Rightarrow> string \<Rightarrow> Email list \<Rightarrow> Email list" where
  "sendPasswordResetEmail to nm token outbox =
     outbox @ [\<lparr>recipient = to, recipientName = nm, kind = PasswordResetEmail, rawToken = token\<rparr>]"

section \<open>Auth endpoints (app/api/auth)\<close>

record Cookie =
  cookieName :: string
  cookieValue :: string
  maxAge :: int

record Response =
  status :: nat
  success :: bool
  message :: string
  errors :: "(string \<times> string) list"
  headers :: "(string \<times> string) list"
  setCookies :: "Cookie list"

definition json_response :: "nat \<Rightarrow> bool \<Rightarrow> string \<Rightarrow> Response" where
  "json_response st ok msg =
     \<lparr>status = st, success = ok, message = msg, errors = [], headers = [], setCookies = []\<rparr>"

record ServerState =
  rateLimitStore :: rateLimitStore
  users :: "User list"
  outbox :: "Email list"

definition RATE_LIMIT_CONFIGS_auth :: RateLimitConfig where
  "RATE_LIMIT_CONFIGS_auth = \<lparr>windowMs = 15 * 60 * 1000, maxRequests = 10\<rparr>"

definition RATE_LIMIT_CONFIGS_login :: RateLimitConfig where
  "RATE_LIMIT_CONFIGS_login = \<lparr>windowMs = 15 * 60 * 1000, maxRequests = 5\<rparr>"

definition RATE_LIMIT_CONFIGS_register :: RateLimitConfig where
  "RATE_LIMIT_CONFIGS_register = \<lparr>windowMs = 60 * 60 * 1000, maxRequests = 3\<rparr>"

definition RATE_LIMIT_CONFIGS_passwordReset :: RateLimitConfig where
  "RATE_LIMIT_CONFIGS_passwordReset = \<lparr>windowMs = 60 * 60 * 1000, maxRequests = 3\<rparr>"

definition RATE_LIMIT_CONFIGS_api :: RateLimitConfig where
  "RATE_LIMIT_CONFIGS_api = \<lparr>windowMs = 60 * 1000, maxRequests = 100\<rparr>"

definition setAuthCookies :: "Env \<Rightarrow> Response \<Rightarrow> string \<Rightarrow> string \<Rightarrow> Response" where
  "setAuthCookies env response accessToken refreshToken =
     response\<lparr>setCookies := setCookies response @
       [\<lparr>cookieName = ACCESS_TOKEN_COOKIE, cookieValue = accessToken,
          maxAge = parseDuration (JWT_EXPIRES_IN env) div 1000\<rparr>,
        \<lparr>cookieName = REFRESH_TOKEN_COOKIE, cookieValue = refreshToken,
          maxAge = parseDuration (JWT_REFRESH_EXPIRES_IN env) div 1000\<rparr>]\<rparr>"

definition login_tokenPayload :: "User \<Rightarrow> TokenPayload" where
  "login_tokenPayload user =
     [(''userId'', JStr (user_id user)), (''email'', JStr (email user)),
      (''role'', JStr (role user)), (''isVerified'', JBool (isVerified user))]"

definition login_issue_tokens :: "Env \<Rightarrow> User \<Rightarrow> int \<Rightarrow> Response" where
  "login_issue_tokens env user date_now =
     (let tokenPayload = login_tokenPayload user;
          accessToken = signAccessToken env tokenPayload date_now;
          refreshToken = signRefreshToken env tokenPayload date_now
      in setAuthCookies env (json_response 200 True ''Login successful'') accessToken refreshToken)"

definition defined_properties :: "(string \<times> json option) list \<Rightarrow> TokenPayload" where
  "defined_properties ps = List.map_filter (\<lambda>(k, v). case v of None \<Rightarrow> None | Some x \<Rightarrow> Some (k, x)) ps"

definition refresh_POST :: "Env \<Rightarrow> (string \<times> string) list \<Rightarrow> int \<Rightarrow> Response" where
  "refresh_POST env cookie_store date_now =
     (case map_of cookie_store REFRESH_TOKEN_COOKIE of
        None \<Rightarrow> json_response 401 False ''No refresh token provided''
      | Some refreshToken \<Rightarrow>
          if refreshToken = [] then json_response 401 False ''No refresh token provided''
          else
            (case verifyToken env refreshToken date_now of
               None \<Rightarrow> json_response 401 False ''Invalid or expired refresh token''
             | Some decoded \<Rightarrow>
                 if \<not> truthy (Some decoded)
                 then json_response 401 False ''Invalid or expired refresh token''
                 else
                   let tokenPayload = defined_properties
                         [(''userId'', property decoded ''userId''),
                          (''email'', property decoded ''email''),
                          (''role'', property decoded ''role'')];
                       newAccessToken = signAccessToken env tokenPayload date_now;
                       newRefreshToken = signRefreshToken env tokenPayload date_now
                   in setAuthCookies env (json_response 200 True ''Token refreshed successfully'')
                        newAccessToken newRefreshToken))"

definition generic_reset_response :: Response where
  "generic_reset_response =
     json_response 200 True ''If an account exists with that email, a password reset link has been sent.''"

definition too_many_requests :: "string \<Rightarrow> RateLimitResult \<Rightarrow> Response" where
  "too_many_requests msg rateLimit =
     (json_response 429 False msg)
       \<lparr>headers := [(''Retry-After'', Number_toString (- ((- resetIn rateLimit) div 1000)) 0)]\<rparr>"

definition forgot_password_POST ::
  "Platform \<Rightarrow> string option \<Rightarrow> string option \<Rightarrow> string \<Rightarrow> int \<Rightarrow> ServerState \<Rightarrow> Response \<times> ServerState" where
  "forgot_password_POST P forwarded_for body_email generated_token date_now s =
     (let ip = env_or forwarded_for ''unknown'';
          rateLimitKey = getRateLimitKey ip ''passwordReset'';
          (rateLimit, store') =
            checkRateLimit rateLimitKey RATE_LIMIT_CONFIGS_passwordReset date_now (rateLimitStore s);
          s1 = s\<lparr>rateLimitStore := store'\<rparr>
      in if \<not> allowed rateLimit
         then (too_many_requests ''Too many requests. Please try again later.'' rateLimit, s1)
         else
           (case body_email of
              None \<Rightarrow> (json_response 400 False ''Email is required'', s1)
            | Some email_in \<Rightarrow>
                if email_in = [] then (json_response 400 False ''Email is required'', s1)
                else
                  (case User_findOne (\<lambda>u. email u = toLowerCase P email_in) (users s1) of
                     None \<Rightarrow> (generic_reset_response, s1)
                   | Some user \<Rightarrow>
                       let resetToken = generated_token;
                           hashedToken = hashToken resetToken;
                           user' = user\<lparr>resetPasswordToken := Some hashedToken,
                                         resetPasswordExpires := Some (date_now + 60 * 60 * 1000)\<rparr>;
                           s2 = s1\<lparr>users := User_save P None date_now user' (users s1)\<rparr>;
                           s3 = s2\<lparr>outbox := sendPasswordResetEmail (email user') (name user')
                                                    resetToken (outbox s2)\<rparr>
                       in (generic_reset_response, s3))))"

definition reset_password_POST ::
  "Platform \<Rightarrow> string option \<Rightarrow> string option \<Rightarrow> string \<Rightarrow> int \<Rightarrow> ServerState \<Rightarrow> Response \<times> ServerState" where
  "reset_password_POST P body_token body_password generated_salt date_now s =
     (let token = (case body_token of None \<Rightarrow> [] | Some t \<Rightarrow> t);
          new_password = (case body_password of None \<Rightarrow> [] | Some p \<Rightarrow> p)
      in if token = [] \<or> new_password = []
         then ((json_response 400 False ''Token and password are required'')
                 \<lparr>errors := (if token = [] then [(''token'', ''Reset token is required'')] else [])
                          @ (if new_password = [] then [(''password'', ''New password is required'')] else [])\<rparr>, s)
         else if String_length new_password < 8
         then ((json_response 400 False ''Password too short'')
                 \<lparr>errors := [(''password'', ''Password must be at least 8 characters'')]\<rparr>, s)
         else
           let hashedToken = hashToken token
           in case User_findOne
                     (\<lambda>u. resetPasswordToken u = Some hashedToken
                          \<and> (case resetPasswordExpires u of None \<Rightarrow> False | Some t \<Rightarrow> t > date_now))
                     (users s) of
                None \<Rightarrow>
                  ((json_response 400 False ''Invalid or expired reset token'')
                     \<lparr>errors := [(''token'', ''This reset link is invalid or has expired'')]\<rparr>, s)
              | Some user \<Rightarrow>
                  let user' = user\<lparr>password := new_password, resetPasswordToken := None,
                                    resetPasswordExpires := None\<rparr>
                  in (json_response 200 True
                        ''Password reset successfully. You can now log in with your new password.'',
                      s\<lparr>users := User_save P (Some generated_salt) date_now user' (users s)\<rparr>))"

definition verify_email_GET ::
  "Platform \<Rightarrow> string option \<Rightarrow> int \<Rightarrow> ServerState \<Rightarrow> Response \<times> ServerState" where
  "verify_email_GET P token_param date_now s =
     (let token = (case token_param of None \<Rightarrow> [] | Some t \<Rightarrow> t)
      in if token = [] then (json_response 400 False ''Verification token is required'', s)
         else
           let hashedToken = hashToken token
           in case User_findOne (\<lambda>u. verificationToken u = Some hashedToken) (users s) of
                None \<Rightarrow> (json_response 400 False ''Invalid or expired verification token'', s)
              | Some user \<Rightarrow>
                  let user' = user\<lparr>isVerified := True, verificationToken := None\<rparr>
                  in (json_response 200 True ''Email verified successfully. You can now log in.'',
                      s\<lparr>users := User_save P None date_now user' (users s)\<rparr>))"

section \<open>Notions used to state and prove the properties\<close>

fun sextets_of_bytes :: "string \<Rightarrow> nat list" where
  "sextets_of_bytes (a # b # c # rest) =
     [of_char a div 4, of_char a mod 4 * 16 + of_char b div 16,
      of_char b mod 16 * 4 + of_char c div 64, of_char c mod 64] @ sextets_of_bytes rest"
| "sextets_of_bytes [a, b] =
     [of_char a div 4, of_char a mod 4 * 16 + of_char b div 16, of_char b mod 16 * 4]"
| "sextets_of_bytes [a] = [of_char a div 4, of_char a mod 4 * 16]"
| "sextets_of_bytes [] = []"

definition b64url_char :: "nat \<Rightarrow> char" where
  "b64url_char n = (if n = 62 then CHR ''-'' else if n = 63 then CHR ''_'' else b64_char n)"

definition item_of :: "char \<Rightarrow> item" where
  "item_of c =
     (if (of_char c :: nat) < 32 \<and> (of_char c :: nat) \<notin> {8, 9, 10, 12, 13}
      then Unit (of_char c) else Byte c)"

definition closes_value :: "string \<Rightarrow> bool" where
  "closes_value rest \<longleftrightarrow> (case rest of [] \<Rightarrow> False | c # _ \<Rightarrow> c = CHR '','' \<or> c = CHR ''}'')"

fun plain_value :: "json \<Rightarrow> bool" where
  "plain_value (JStr s) = True"
| "plain_value (JBool b) = True"
| "plain_value (JNum m e) = (0 \<le> m \<and> m < 10 ^ 21 \<and> e = 0)"
| "plain_value _ = False"

fun value_token :: "json \<Rightarrow> token" where
  "value_token (JStr s) = TString s"
| "value_token (JBool b) = (if b then TTrue else TFalse)"
| "value_token (JNum m e) = TNumber m e"
| "value_token _ = TNull"

fun member_tokens :: "(string \<times> json) list \<Rightarrow> token list" where
  "member_tokens [] = []"
| "member_tokens [(k, v)] = [TString k, TColon, value_token v]"
| "member_tokens ((k, v) # m # ms) =
     [TString k, TColon, value_token v, TComma] @ member_tokens (m # ms)"

definition cons_tokens :: "token list \<Rightarrow> token list option \<Rightarrow> token list option" where
  "cons_tokens ts r = (case r of None \<Rightarrow> None | Some us \<Rightarrow> Some (ts @ us))"

definition put_all :: "(string \<times> json) list \<Rightarrow> (string \<times> json) list \<Rightarrow> (string \<times> json) list" where
  "put_all acc ms = foldl (\<lambda>a m. obj_put a (fst m) (snd m)) acc ms"

definition minted_payload :: "TokenPayload \<Rightarrow> string \<Rightarrow> int \<Rightarrow> TokenPayload" where
  "minted_payload payload expiresIn date_now =
     obj_put (obj_put payload ''iat'' (JNum (date_now div 1000) 0))
       ''exp'' (JNum (date_now div 1000 + parseDuration expiresIn div 1000) 0)"

fun claim_value :: "json \<Rightarrow> bool" where
  "claim_value (JStr s) = True"
| "claim_value (JBool b) = True"
| "claim_value _ = False"

definition claim_set :: "TokenPayload \<Rightarrow> bool" where
  "claim_set payload \<longleftrightarrow>
     distinct (map fst payload) \<and> list_all (\<lambda>m. claim_value (snd m)) payload"

text \<open>A configuration with a signing secret, and the identity of one user, for the examples.\<close>

definition example_env :: Env where
  "example_env = \<lparr>JWT_SECRET_env = Some ''0123456789abcdef'', JWT_EXPIRES_IN_env = None,
                   JWT_REFRESH_EXPIRES_IN_env = None\<rparr>"

definition example_claims :: "bool \<Rightarrow> TokenPayload" where
  "example_claims verified =
     [(''userId'', JStr ''65a1f0c2''), (''email'', JStr ''ann@example.com''),
      (''role'', JStr ''user''), (''isVerified'', JBool verified)]"

definition ascii :: "string \<Rightarrow> bool" where
  "ascii s = list_all (\<lambda>c. (of_char c :: nat) < 128) s"

definition b64url_alphabet :: string where
  "b64url_alphabet = ''ABCDEFGHIJKLMNOPQRSTUVWXYZabcdefghijklmnopqrstuvwxyz0123456789-_''"

definition example_header :: string where
  "example_header = ''eyJhbGciOiJIUzI1NiIsInR5cCI6IkpXVCJ9''"

definition example_user :: User where
  "example_user =
     \<lparr>user_id = ''65a1f0c2'', name = ''Ann'', email = ''ann@example.com'',
      password = ''$2a$12$hash'', avatar = None, role = ''user'', reputation = 0,
      isVerified = True, verificationToken = None, resetPasswordToken = None,
      resetPasswordExpires = None, lastLoginAt = None, createdAt = 0, updatedAt = 0\<rparr>"

definition refreshed_tokenPayload :: "User \<Rightarrow> TokenPayload" where
  "refreshed_tokenPayload user =
     [(''userId'', JStr (user_id user)), (''email'', JStr (email user)), (''role'', JStr (role user))]"

text \<open>The user store: replacing a document by its id, the query of the reset route, and
  a stand-in for bcrypt, a server state and users for the examples.\<close>

definition replace_user :: "User \<Rightarrow> User list \<Rightarrow> User list" where
  "replace_user doc us = map (\<lambda>u. if user_id u = user_id doc then doc else u) us"

definition reset_query :: "string \<Rightarrow> int \<Rightarrow> User \<Rightarrow> bool" where
  "reset_query token date_now u \<longleftrightarrow>
     resetPasswordToken u = Some (hex (sha256 token))
     \<and> (case resetPasswordExpires u of None \<Rightarrow> False | Some t \<Rightarrow> date_now < t)"

definition example_bcrypt :: "string \<Rightarrow> string \<Rightarrow> string" where
  "example_bcrypt pw salt = ''$2a$12$'' @ salt @ rev pw"

text \<open>On ASCII text the lower-case mapping of the platform is this one.\<close>

definition ascii_toLowerCase :: "string \<Rightarrow> string" where
  "ascii_toLowerCase s =
     map (\<lambda>c. if 65 \<le> (of_char c :: nat) \<and> (of_char c :: nat) \<le> 90
                then char_of (of_char c + 32 :: nat) else c) s"

definition example_platform :: Platform where
  "example_platform = \<lparr>bcrypt_hash = example_bcrypt, toLowerCase = ascii_toLowerCase\<rparr>"

definition no_entries :: rateLimitStore where
  "no_entries key = None"

definition example_state :: "User list \<Rightarrow> ServerState" where
  "example_state us = \<lparr>rateLimitStore = no_entries, users = us, outbox = []\<rparr>"

definition example_reset_user :: User where
  "example_reset_user = example_user\<lparr>resetPasswordToken :=
       Some ''a4f43cb2ebe7536a321e7e29decfabff15b159d7bff43f04f5daff9778ee971b'',
                                     resetPasswordExpires := Some 3605000\<rparr>"

definition example_pending_user :: User where
  "example_pending_user = example_user\<lparr>isVerified := False,
                                       verificationToken := Some (hashToken ''v3r1fy'')\<rparr>"

text \<open>
  A token with a given header and payload segment and the signature that the codec
  computes for them, and two payload segments: the text \<open>{"exp":9999999999}\<close> followed
  by one dangling character, and an object whose \<open>exp\<close> is the string of a no-break
  space and the digit 5.
\<close>

definition signed_token :: "Env \<Rightarrow> string \<Rightarrow> string \<Rightarrow> string" where
  "signed_token env h p = h @ ''.'' @ p @ ''.'' @ createSignature (h @ ''.'' @ p) (JWT_SECRET env)"

definition dangling_payload :: string where
  "dangling_payload = ''eyJleHAiOjk5OTk5OTk5OTl9A''"

definition nbsp_payload :: string where
  "nbsp_payload = ''eyJleHAiOiLCoDUifQ''"

section \<open>Properties of the rate limiter\<close>

lemma checkRateLimit_fresh:
  "store key = None \<or> (\<exists>e. store key = Some e \<and> resetTime e < now) \<Longrightarrow>
   checkRateLimit key config now store =
     (\<lparr>allowed = True, remaining = maxRequests config - 1, resetIn = windowMs config\<rparr>,
      store(key \<mapsto> \<lparr>count = 1, resetTime = now + windowMs config\<rparr>))"
  by (auto simp: checkRateLimit_def)

lemma checkRateLimit_within:
  "store key = Some e \<Longrightarrow> \<not> resetTime e < now \<Longrightarrow>
   checkRateLimit key config now store =
     (if count e + 1 > maxRequests config
      then \<lparr>allowed = False, remaining = 0, resetIn = resetTime e - now\<rparr>
      else \<lparr>allowed = True, remaining = maxRequests config - (count e + 1), resetIn = resetTime e - now\<rparr>,
      store(key \<mapsto> e\<lparr>count := count e + 1\<rparr>))"
  by (simp add: checkRateLimit_def Let_def)

lemma calls_within:
  "store key = Some e \<Longrightarrow> \<forall>t\<in>set ts. \<not> resetTime e < t \<Longrightarrow>
   map (\<lambda>r. (allowed r, remaining r)) (fst (checkRateLimit_calls key config ts store)) =
   map (\<lambda>i. if count e + 1 + int i > maxRequests config then (False, 0)
              else (True, maxRequests config - (count e + 1 + int i))) [0..<length ts]"
proof (induction ts arbitrary: store e)
  case Nil
  then show ?case by simp
next
  case (Cons t ts)
  let ?e' = "e\<lparr>count := count e + 1\<rparr>"
  let ?s' = "store(key \<mapsto> ?e')"
  have step: "checkRateLimit key config t store =
     (if count e + 1 > maxRequests config
      then \<lparr>allowed = False, remaining = 0, resetIn = resetTime e - t\<rparr>
      else \<lparr>allowed = True, remaining = maxRequests config - (count e + 1), resetIn = resetTime e - t\<rparr>, ?s')"
    using Cons.prems by (simp add: checkRateLimit_within)
  have IH: "map (\<lambda>r. (allowed r, remaining r)) (fst (checkRateLimit_calls key config ts ?s')) =
   map (\<lambda>i. if count ?e' + 1 + int i > maxRequests config then (False, 0)
              else (True, maxRequests config - (count ?e' + 1 + int i))) [0..<length ts]"
    using Cons.prems by (intro Cons.IH) auto
  have shift: "[0..<length (t # ts)] = 0 # map Suc [0..<length ts]"
    by (simp add: upt_conv_Cons map_Suc_upt del: upt_Suc)
  show ?case
    unfolding shift
    using IH by (auto simp: step split_beta Let_def comp_def algebra_simps)
qed

lemma calls_from_fresh:
  assumes fresh: "store key = None \<or> (\<exists>e. store key = Some e \<and> resetTime e < now)"
    and N: "1 \<le> maxRequests config"
    and len: "length ts = nat (maxRequests config)"
    and win: "\<forall>t\<in>set ts. \<not> now + windowMs config < t"
  shows "map (\<lambda>r. (allowed r, remaining r)) (fst (checkRateLimit_calls key config (now # ts) store)) =
         map (\<lambda>i. (True, maxRequests config - 1 - int i)) [0..<nat (maxRequests config)] @ [(False, 0)]"
proof -
  let ?e = "\<lparr>count = 1, resetTime = now + windowMs config\<rparr>"
  let ?s = "store(key \<mapsto> ?e)"
  let ?N = "maxRequests config"
  have first: "checkRateLimit key config now store =
     (\<lparr>allowed = True, remaining = ?N - 1, resetIn = windowMs config\<rparr>, ?s)"
    using fresh by (rule checkRateLimit_fresh)
  have rest: "map (\<lambda>r. (allowed r, remaining r)) (fst (checkRateLimit_calls key config ts ?s)) =
     map (\<lambda>i. if count ?e + 1 + int i > ?N then (False, 0)
                else (True, ?N - (count ?e + 1 + int i))) [0..<length ts]"
    using win by (intro calls_within) auto
  obtain m where m: "nat ?N = Suc m" using N by (cases "nat ?N") auto
  have Nm: "?N = int m + 1" using m N by linarith
  have "map (\<lambda>i. if count ?e + 1 + int i > ?N then (False, 0)
                else (True, ?N - (count ?e + 1 + int i))) [0..<Suc m] =
        map (\<lambda>i. (True, ?N - 1 - int (Suc i))) [0..<m] @ [(False, 0)]"
    by (simp add: Nm)
  moreover have "map (\<lambda>i. (True, ?N - 1 - int i)) [0..<Suc m] =
        (True, ?N - 1) # map (\<lambda>i. (True, ?N - 1 - int (Suc i))) [0..<m]"
    by (simp add: upt_conv_Cons map_Suc_upt [symmetric] comp_def del: upt_Suc)
  ultimately show ?thesis
    using rest by (simp add: first len m split_beta del: upt_Suc)
qed

text \<open>
  Claim C5 (fixed-window rate limiting). For every key and every configuration with
  \<open>maxRequests = N\<close> and \<open>windowMs = W\<close>:
  \<^item> a call that finds no entry for the key, or an entry whose window has elapsed
    (\<open>resetTime < now\<close>), stores count 1 with a new window ending at \<open>now + W\<close> and
    returns \<open>allowed = true\<close>, \<open>remaining = N - 1\<close>;
  \<^item> a call inside the stored window increments the count and returns not-allowed with
    \<open>remaining = 0\<close> when the incremented count exceeds \<open>N\<close>, and allowed with
    \<open>remaining = N - count\<close> otherwise;
  \<^item> hence, when the \<open>(N+1)\<close>-th call is one of the subsequent calls (\<open>1 \<le> N\<close>), a run of
    \<open>N + 1\<close> calls that starts a window and stays inside it is allowed \<open>N\<close> times, with
    \<open>remaining\<close> counting down from \<open>N - 1\<close> to 0, and its last call is refused.
\<close>

theorem checkRateLimit_fixed_window:
  "(store key = None \<or> (\<exists>e. store key = Some e \<and> resetTime e < now) \<longrightarrow>
      checkRateLimit key config now store =
        (\<lparr>allowed = True, remaining = maxRequests config - 1, resetIn = windowMs config\<rparr>,
         store(key \<mapsto> \<lparr>count = 1, resetTime = now + windowMs config\<rparr>)))
   \<and> (\<forall>e. store key = Some e \<and> \<not> resetTime e < now \<longrightarrow>
      checkRateLimit key config now store =
        (if count e + 1 > maxRequests config
         then \<lparr>allowed = False, remaining = 0, resetIn = resetTime e - now\<rparr>
         else \<lparr>allowed = True, remaining = maxRequests config - (count e + 1),
                resetIn = resetTime e - now\<rparr>,
         store(key \<mapsto> e\<lparr>count := count e + 1\<rparr>)))
   \<and> ((store key = None \<or> (\<exists>e. store key = Some e \<and> resetTime e < now))
        \<and> 1 \<le> maxRequests config \<and> length ts = nat (maxRequests config)
        \<and> (\<forall>t\<in>set ts. \<not> now + windowMs config < t) \<longrightarrow>
      map (\<lambda>r. (allowed r, remaining r))
          (fst (checkRateLimit_calls key config (now # ts) store)) =
        map (\<lambda>i. (True, maxRequests config - 1 - int i)) [0..<nat (maxRequests config)]
          @ [(False, 0)])"
  using checkRateLimit_fresh [of store key now config]
    checkRateLimit_within [of store key _ now config]
    calls_from_fresh [of store key now config ts]
  by blast

theorem checkRateLimit_fixed_window_witness:
  "checkRateLimit ''login:10.0.0.1'' \<lparr>windowMs = 900000, maxRequests = 2\<rparr> 1000 Map.empty =
     (\<lparr>allowed = True, remaining = 1, resetIn = 900000\<rparr>,
      Map.empty(''login:10.0.0.1'' \<mapsto> \<lparr>count = 1, resetTime = 901000\<rparr>))
   \<and> checkRateLimit ''login:10.0.0.1'' \<lparr>windowMs = 900000, maxRequests = 2\<rparr> 2000
        (Map.empty(''login:10.0.0.1'' \<mapsto> \<lparr>count = 2, resetTime = 901000\<rparr>)) =
     (\<lparr>allowed = False, remaining = 0, resetIn = 899000\<rparr>,
      Map.empty(''login:10.0.0.1'' \<mapsto> \<lparr>count = 3, resetTime = 901000\<rparr>))
   \<and> map (\<lambda>r. (allowed r, remaining r))
        (fst (checkRateLimit_calls ''login:10.0.0.1'' \<lparr>windowMs = 900000, maxRequests = 2\<rparr>
               [1000, 2000, 901000] Map.empty)) =
     [(True, 1), (True, 0), (False, 0)]"
proof -
  let ?k = "''login:10.0.0.1''"
  let ?c = "\<lparr>windowMs = 900000, maxRequests = 2\<rparr>"
  let ?e = "\<lparr>count = 2, resetTime = 901000\<rparr>"
  note a = checkRateLimit_fixed_window [of Map.empty ?k 1000 ?c "[2000, 901000]"]
  note b = checkRateLimit_fixed_window [of "Map.empty(?k \<mapsto> ?e)" ?k 2000 ?c "[]"]
  from a have a1: "checkRateLimit ?k ?c 1000 Map.empty =
     (\<lparr>allowed = True, remaining = 1, resetIn = 900000\<rparr>,
      Map.empty(?k \<mapsto> \<lparr>count = 1, resetTime = 901000\<rparr>))"
    by simp
  from a have a3: "map (\<lambda>r. (allowed r, remaining r))
        (fst (checkRateLimit_calls ?k ?c [1000, 2000, 901000] Map.empty)) =
     [(True, 1), (True, 0), (False, 0)]"
    by (simp add: upt_conv_Cons del: checkRateLimit_calls.simps)
  from b have b2: "checkRateLimit ?k ?c 2000 (Map.empty(?k \<mapsto> ?e)) =
     (\<lparr>allowed = False, remaining = 0, resetIn = 899000\<rparr>,
      Map.empty(?k \<mapsto> \<lparr>count = 3, resetTime = 901000\<rparr>))"
    by simp
  from a1 b2 a3 show ?thesis by blast
qed

section \<open>Properties of the platform functions\<close>

subsection \<open>Base64 round trip\<close>

lemma replicate_eval:
  "replicate 0 x = []" "replicate (numeral n) x = x # replicate (pred_numeral n) x"
  by (simp_all add: numeral_eq_Suc)

lemma of_char_lt_256: "(of_char (c::char) :: nat) < 256"
proof -
  have "(of_char c :: nat) mod 256 = of_char c" by (rule of_char_mod_256)
  then show ?thesis by (metis mod_less_divisor zero_less_numeral)
qed

lemma hi6: "(a::nat) < 256 \<Longrightarrow> a div 4 < 64" by simp

lemma mid6a: "(b::nat) < 256 \<Longrightarrow> a mod 4 * 16 + b div 16 < 64"
proof -
  assume "b < 256"
  then have "b div 16 < 16" by simp
  moreover have "a mod 4 \<le> 3" by simp
  ultimately show ?thesis by linarith
qed

lemma mid6b: "(c::nat) < 256 \<Longrightarrow> b mod 16 * 4 + c div 64 < 64"
proof -
  assume "c < 256"
  then have "c div 64 < 4" by simp
  moreover have "b mod 16 \<le> 15" by simp
  ultimately show ?thesis by linarith
qed

lemma mid6c: "(b::nat) mod 16 * 4 < 64"
proof -
  have "b mod 16 \<le> 15" by simp
  then show ?thesis by linarith
qed

lemma mid6d: "(a::nat) mod 4 * 16 < 64"
proof -
  have "a mod 4 \<le> 3" by simp
  then show ?thesis by linarith
qed

lemma byte1: "(b::nat) < 256 \<Longrightarrow> a div 4 * 4 + (a mod 4 * 16 + b div 16) div 16 = a"
proof -
  assume "b < 256"
  then have "b div 16 < 16" by simp
  then have "(a mod 4 * 16 + b div 16) div 16 = a mod 4" by simp
  then show ?thesis by simp
qed

lemma byte2: "(c::nat) < 256 \<Longrightarrow> b < 256 \<Longrightarrow>
    (a mod 4 * 16 + b div 16) mod 16 * 16 + (b mod 16 * 4 + c div 64) div 4 = b"
proof -
  assume "c < 256" "b < 256"
  then have c: "c div 64 < 4" and b: "b div 16 < 16" by simp_all
  have "(a mod 4 * 16 + b div 16) mod 16 = b div 16" using b by simp
  moreover have "(b mod 16 * 4 + c div 64) div 4 = b mod 16" using c by simp
  ultimately show ?thesis by simp
qed

lemma byte3: "(c::nat) < 256 \<Longrightarrow> (b mod 16 * 4 + c div 64) mod 4 * 64 + c mod 64 = c"
proof -
  assume "c < 256"
  then have c: "c div 64 < 4" by simp
  have "(b mod 16 * 4 + c div 64) mod 4 = c div 64" using c by simp
  then show ?thesis by simp
qed

lemma byte2': "(b::nat) < 256 \<Longrightarrow> (a mod 4 * 16 + b div 16) mod 16 * 16 + (b mod 16 * 4) div 4 = b"
proof -
  assume "b < 256"
  then have b: "b div 16 < 16" by simp
  have "(a mod 4 * 16 + b div 16) mod 16 = b div 16" using b by simp
  then show ?thesis by simp
qed

lemma byte1': "(a::nat) div 4 * 4 + (a mod 4 * 16) div 16 = a"
  by simp

lemma sextets_lt_64: "n \<in> set (sextets_of_bytes s) \<Longrightarrow> n < 64"
proof (induction s arbitrary: n rule: sextets_of_bytes.induct)
  case (1 a b c rest)
  then show ?case
    using hi6 [OF of_char_lt_256 [of a]] mid6a [OF of_char_lt_256 [of b], of "of_char a"]
      mid6b [OF of_char_lt_256 [of c], of "of_char b"]
    by auto
next
  case (2 a b)
  then show ?case
    using hi6 [OF of_char_lt_256 [of a]] mid6a [OF of_char_lt_256 [of b], of "of_char a"]
      mid6c [of "of_char b"]
    by auto
next
  case (3 a)
  then show ?case
    using hi6 [OF of_char_lt_256 [of a]] mid6d [of "of_char a"] by auto
qed simp

lemma sextets_roundtrip: "sextets_to_bytes (sextets_of_bytes s) = s"
proof (induction s rule: sextets_of_bytes.induct)
  case (1 a b c rest)
  then show ?case
    using byte1 [OF of_char_lt_256 [of b], of "of_char a"]
      byte2 [OF of_char_lt_256 [of c] of_char_lt_256 [of b], of "of_char a"]
      byte3 [OF of_char_lt_256 [of c], of "of_char b"]
    by simp
next
  case (2 a b)
  then show ?case
    using byte1 [OF of_char_lt_256 [of b], of "of_char a"]
      byte2' [OF of_char_lt_256 [of b], of "of_char a"]
    by simp
next
  case (3 a)
  then show ?case using byte1' [of "of_char a"] by simp
qed simp

lemma length_sextets_mod4: "length (sextets_of_bytes s) mod 4 \<noteq> 1"
  by (induction s rule: sextets_of_bytes.induct) simp_all

lemma b64_value_char: "n < 64 \<Longrightarrow> b64_value (b64_char n) = Some n"
  by (auto simp: b64_value_def b64_char_def Let_def char_of_eq_iff take_bit_eq_mod)

lemma b64_char_plain:
  "n < 64 \<Longrightarrow> b64_char n \<noteq> CHR ''=''"
  "n < 64 \<Longrightarrow> b64_char n \<noteq> CHR ''.''"
  "n < 64 \<Longrightarrow> b64_char n \<noteq> CHR ''-''"
  "n < 64 \<Longrightarrow> b64_char n \<noteq> CHR ''_''"
  "n < 62 \<Longrightarrow> b64_char n \<noteq> CHR ''+''"
  "n < 62 \<Longrightarrow> b64_char n \<noteq> CHR ''/''"
  "b64_char 62 = CHR ''+''" "b64_char 63 = CHR ''/''"
  by (auto simp: b64_char_def char_of_eq_iff take_bit_eq_mod)

lemma b64_char_ws: "n < 64 \<Longrightarrow> \<not> ascii_whitespace (b64_char n)"
  by (auto simp: b64_char_def ascii_whitespace_def take_bit_eq_mod)

lemma base64_encode_sextets:
  "base64_encode s =
     map b64_char (sextets_of_bytes s) @ replicate ((3 - length s mod 3) mod 3) CHR ''=''"
proof (induction s rule: sextets_of_bytes.induct)
  case (1 a b c rest)
  have "length (a # b # c # rest) mod 3 = length rest mod 3" by simp
  with 1 show ?case by simp
qed (simp_all add: numeral_2_eq_2)

lemma url_chars:
  assumes "\<forall>n \<in> set xs. n < 64"
  shows "replace_char CHR ''/'' CHR ''_'' (replace_char CHR ''+'' CHR ''-'' (map b64_char xs))
         = map b64url_char xs"
  using assms
proof (induction xs)
  case Nil
  then show ?case by (simp add: replace_char_def)
next
  case (Cons n xs)
  then have n: "n < 64" by simp
  have "(if (if b64_char n = CHR ''+'' then CHR ''-'' else b64_char n) = CHR ''/''
         then CHR ''_'' else (if b64_char n = CHR ''+'' then CHR ''-'' else b64_char n))
        = b64url_char n"
  proof -
    consider "n < 62" | "n = 62" | "n = 63" using n by linarith
    then show ?thesis
      by cases (simp_all add: b64url_char_def b64_char_plain)
  qed
  with Cons show ?case by (simp add: replace_char_def)
qed

lemma b64url_char_plain:
  "n < 64 \<Longrightarrow> b64url_char n \<noteq> CHR ''=''"
  "n < 64 \<Longrightarrow> b64url_char n \<noteq> CHR ''.''"
  by (auto simp: b64url_char_def b64_char_plain)

lemma base64urlEncode_sextets: "base64urlEncode s = map b64url_char (sextets_of_bytes s)"
proof -
  let ?xs = "sextets_of_bytes s"
  let ?k = "(3 - length s mod 3) mod 3"
  have lt: "\<forall>n \<in> set ?xs. n < 64" by (simp add: sextets_lt_64)
  have "replace_char CHR ''/'' CHR ''_'' (replace_char CHR ''+'' CHR ''-'' (base64_encode s))
        = map b64url_char ?xs @ replicate ?k CHR ''=''"
    using url_chars [OF lt] by (simp add: base64_encode_sextets replace_char_def)
  moreover have "remove_char CHR ''='' (map b64url_char ?xs) = map b64url_char ?xs"
    unfolding remove_char_def using lt by (auto simp: filter_id_conv b64url_char_plain)
  ultimately show ?thesis
    by (simp add: base64urlEncode_def remove_char_def)
qed

lemma std_chars:
  assumes "\<forall>n \<in> set xs. n < 64"
  shows "replace_char CHR ''_'' CHR ''/'' (replace_char CHR ''-'' CHR ''+'' (map b64url_char xs))
         = map b64_char xs"
  using assms
proof (induction xs)
  case Nil
  then show ?case by (simp add: replace_char_def)
next
  case (Cons n xs)
  then have n: "n < 64" by simp
  have "(if (if b64url_char n = CHR ''-'' then CHR ''+'' else b64url_char n) = CHR ''_''
         then CHR ''/'' else (if b64url_char n = CHR ''-'' then CHR ''+'' else b64url_char n))
        = b64_char n"
  proof -
    consider "n < 62" | "n = 62" | "n = 63" using n by linarith
    then show ?thesis
      by cases (simp_all add: b64url_char_def b64_char_plain)
  qed
  with Cons show ?case by (simp add: replace_char_def)
qed

lemma map_filter_values:
  assumes "\<forall>n \<in> set xs. n < 64"
  shows "List.map_filter node_b64_value (map b64_char xs) = xs"
    and "List.map_filter b64_value (map b64_char xs) = xs"
  using assms
  by (induction xs)
     (simp_all add: List.map_filter_simps node_b64_value_def b64_value_char b64_char_plain)

lemma Buffer_from_base64_chars:
  assumes "\<forall>n \<in> set xs. n < 64"
  shows "Buffer_from_base64 (pad4 (map b64_char xs)) = sextets_to_bytes xs"
proof -
  have "takeWhile (\<lambda>c. c \<noteq> CHR ''='') (map b64_char xs @ replicate k CHR ''='') = map b64_char xs" for k
    using assms by (cases k) (auto simp: takeWhile_tail b64_char_plain)
  then show ?thesis
    using map_filter_values(1) [OF assms] by (simp add: Buffer_from_base64_def pad4_def)
qed

lemma base64urlDecode_chars:
  assumes "\<forall>n \<in> set xs. n < 64"
  shows "base64urlDecode (map b64url_char xs) = sextets_to_bytes xs"
  using std_chars [OF assms] Buffer_from_base64_chars [OF assms]
  by (simp add: base64urlDecode_def)

lemma base64url_roundtrip: "base64urlDecode (base64urlEncode s) = s"
  by (simp add: base64urlEncode_sextets base64urlDecode_chars sextets_lt_64 sextets_roundtrip)

lemma base64urlEncode_no_dot: "CHR ''.'' \<notin> set (base64urlEncode s)"
proof
  assume "CHR ''.'' \<in> set (base64urlEncode s)"
  then obtain n where "n \<in> set (sextets_of_bytes s)" and "b64url_char n = CHR ''.''"
    by (auto simp: base64urlEncode_sextets)
  then show False using sextets_lt_64 b64url_char_plain(2) by blast
qed

lemma strip_padding_id: "CHR ''='' \<notin> set d \<Longrightarrow> strip_padding d = d"
  by (cases "rev d") (auto simp: strip_padding_def split: list.splits)

lemma atob_chars:
  assumes lt: "\<forall>n \<in> set xs. n < 64" and len: "length xs mod 4 \<noteq> 1"
  shows "atob (map b64_char xs) = Inr (binary_string (sextets_to_bytes xs))"
proof -
  let ?d = "map b64_char xs"
  have ws: "filter (\<lambda>c. \<not> ascii_whitespace c) ?d = ?d"
    using lt by (auto simp: filter_id_conv b64_char_ws)
  have "CHR ''='' \<notin> set ?d"
  proof
    assume "CHR ''='' \<in> set ?d"
    then obtain n where "n \<in> set xs" and "b64_char n = CHR ''=''" by auto
    then show False using lt b64_char_plain(1) by blast
  qed
  then have sp: "strip_padding ?d = ?d" by (rule strip_padding_id)
  have ok: "\<not> (\<exists>c \<in> set ?d. b64_value c = None)"
    using lt by (auto simp: b64_value_char)
  show ?thesis
    using len ok map_filter_values(2) [OF lt]
    by (simp add: atob_def ws sp Let_def)
qed

lemma binary_string_ascii: "ascii s \<Longrightarrow> binary_string s = s"
  by (induction s) (simp_all add: binary_string_def ascii_def)

lemma atob_base64urlEncode:
  "atob (replace_char CHR ''_'' CHR ''/'' (replace_char CHR ''-'' CHR ''+'' (base64urlEncode s)))
   = Inr (binary_string s)"
proof -
  have lt: "\<forall>n \<in> set (sextets_of_bytes s). n < 64" by (simp add: sextets_lt_64)
  show ?thesis
    using atob_chars [OF lt length_sextets_mod4] std_chars [OF lt]
    by (simp add: base64urlEncode_sextets sextets_roundtrip)
qed

subsection \<open>JSON round trip\<close>

subsubsection \<open>Strings\<close>

lemma hex_value_digit: "d < 16 \<Longrightarrow> hex_value (hex_digit d) = Some d"
  by (auto simp: hex_value_def hex_digit_def Let_def take_bit_eq_mod)

lemma hex4_control: "k < 32 \<Longrightarrow> hex4 CHR ''0'' CHR ''0'' (hex_digit (k div 16)) (hex_digit (k mod 16)) = Some k"
proof -
  assume k: "k < 32"
  then have "k div 16 < 16" by simp
  then have a: "hex_value (hex_digit (k div 16)) = Some (k div 16)" by (rule hex_value_digit)
  have b: "hex_value (hex_digit (k mod 16)) = Some (k mod 16)" by (rule hex_value_digit) simp
  have z: "hex_value CHR ''0'' = Some 0" by (simp add: hex_value_def)
  show ?thesis by (simp add: hex4_def a b z)
qed

lemma char_eq_of_char: "(of_char (c::char) :: nat) = k \<Longrightarrow> c = char_of k"
  by (metis char_of_char)

lemma lex_string_escape:
  "lex_string (escape_char c @ cs) = cons_item (item_of c) (lex_string cs)"
proof -
  let ?k = "of_char c :: nat"
  consider (quote) "c = CHR 0x22" | (bs) "c = CHR 0x5C"
    | (b) "?k = 8" | (f) "?k = 12" | (n) "?k = 10" | (r) "?k = 13" | (t) "?k = 9"
    | (ctl) "?k < 32" "?k \<notin> {8, 9, 10, 12, 13}"
    | (plain) "32 \<le> ?k" "c \<noteq> CHR 0x22" "c \<noteq> CHR 0x5C"
    by fastforce
  then show ?thesis
  proof cases
    case quote
    then show ?thesis by (simp add: escape_char_def item_of_def simple_escape_def)
  next
    case bs
    then show ?thesis by (simp add: escape_char_def item_of_def simple_escape_def)
  next
    case b
    then have "c = char_of (8::nat)" by (rule char_eq_of_char)
    then show ?thesis by (simp add: escape_char_def item_of_def simple_escape_def)
  next
    case f
    then have "c = char_of (12::nat)" by (rule char_eq_of_char)
    then show ?thesis by (simp add: escape_char_def item_of_def simple_escape_def)
  next
    case n
    then have "c = char_of (10::nat)" by (rule char_eq_of_char)
    then show ?thesis by (simp add: escape_char_def item_of_def simple_escape_def)
  next
    case r
    then have "c = char_of (13::nat)" by (rule char_eq_of_char)
    then show ?thesis by (simp add: escape_char_def item_of_def simple_escape_def)
  next
    case t
    then have "c = char_of (9::nat)" by (rule char_eq_of_char)
    then show ?thesis by (simp add: escape_char_def item_of_def simple_escape_def)
  next
    case ctl
    from ctl have nq: "c \<noteq> CHR 0x22" "c \<noteq> CHR 0x5C" by auto
    from ctl have e: "escape_char c =
        [CHR 0x5C, CHR ''u'', CHR ''0'', CHR ''0'', hex_digit (?k div 16), hex_digit (?k mod 16)]"
      using nq by (simp add: escape_char_def Let_def)
    show ?thesis
      using ctl by (simp add: e item_of_def hex4_control)
  next
    case plain
    then have e: "escape_char c = [c]"
      by (auto simp: escape_char_def Let_def)
    show ?thesis
      using plain by (simp add: e item_of_def)
  qed
qed

lemma lex_string_body:
  "lex_string (concat (map escape_char s) @ CHR 0x22 # rest) = Some (map item_of s, rest)"
proof (induction s)
  case Nil
  show ?case by simp
next
  case (Cons c s)
  have "lex_string (escape_char c @ (concat (map escape_char s) @ CHR 0x22 # rest))
        = cons_item (item_of c) (lex_string (concat (map escape_char s) @ CHR 0x22 # rest))"
    by (rule lex_string_escape)
  with Cons show ?case by (simp add: cons_item_def)
qed

lemma bytes_of_items_Unit:
  "u < 128 \<Longrightarrow> bytes_of_items (Unit u # r) = char_of u # bytes_of_items r"
  by (cases r rule: bytes_of_items.cases) (simp_all add: utf8_def)

lemma bytes_of_items_item_of: "bytes_of_items (map item_of s) = s"
proof (induction s)
  case Nil
  show ?case by simp
next
  case (Cons c s)
  show ?case
  proof (cases "item_of c")
    case (Byte x)
    then have "x = c" by (auto simp: item_of_def split: if_splits)
    with Byte Cons show ?thesis by simp
  next
    case (Unit u)
    then have u: "u = of_char c" "u < 32" by (auto simp: item_of_def split: if_splits)
    then have "bytes_of_items (Unit u # map item_of s) = char_of u # bytes_of_items (map item_of s)"
      by (intro bytes_of_items_Unit) simp
    with Unit Cons u show ?thesis by simp
  qed
qed

lemma tokenize_string:
  "tokenize (QuoteJSONString s @ rest) = cons_token (TString s) (tokenize rest)"
proof -
  have "tokenize (CHR 0x22 # concat (map escape_char s) @ CHR 0x22 # rest)
        = cons_token (TString (bytes_of_items (map item_of s))) (tokenize rest)"
    by (simp add: json_ws_def lex_string_body)
  then show ?thesis by (simp add: QuoteJSONString_def bytes_of_items_item_of)
qed

subsubsection \<open>Numbers\<close>

lemma nat_digits_step:
  "n < 10 \<Longrightarrow> nat_digits n = [digit_char n]"
  "10 \<le> n \<Longrightarrow> nat_digits n = nat_digits (n div 10) @ [digit_char (n mod 10)]"
  by (subst nat_digits.simps, simp)+

lemma digit_char_is_digit: "d < 10 \<Longrightarrow> is_digit (digit_char d)"
  by (simp add: is_digit_def digit_char_def take_bit_eq_mod)

lemma digit_char_value: "d < 10 \<Longrightarrow> (of_char (digit_char d) :: nat) - 48 = d"
  by (simp add: digit_char_def take_bit_eq_mod)

lemma nat_digits_all: "c \<in> set (nat_digits n) \<Longrightarrow> is_digit c"
proof (induction n arbitrary: c rule: nat_digits.induct)
  case (1 n)
  show ?case
  proof (cases "n < 10")
    case True
    with 1(2) show ?thesis by (simp add: nat_digits_step digit_char_is_digit)
  next
    case False
    with 1 show ?thesis by (auto simp: nat_digits_step digit_char_is_digit)
  qed
qed

lemma nat_digits_nonempty: "nat_digits n \<noteq> []"
  by (cases "n < 10") (simp_all add: nat_digits_step)

lemma digits_value_Nil: "digits_value [] = 0"
  by (simp add: digits_value_def)

lemma digit_char_0: "digit_char 0 = CHR ''0''"
  by (simp add: digit_char_def char_of_eq_iff)

lemma digits_value_append: "digits_value (ds @ [c]) = 10 * digits_value ds + (of_char c - 48)"
  by (simp add: digits_value_def)

lemma digits_value_nat_digits: "digits_value (nat_digits n) = n"
proof (induction n rule: nat_digits.induct)
  case (1 n)
  show ?case
  proof (cases "n < 10")
    case True
    then show ?thesis by (simp add: nat_digits_step digits_value_def digit_char_value)
  next
    case False
    then have "digits_value (nat_digits n) = 10 * (n div 10) + n mod 10"
      using 1 by (simp add: nat_digits_step digits_value_append digit_char_value)
    then show ?thesis by simp
  qed
qed

lemma hd_nat_digits: "hd (nat_digits n) = CHR ''0'' \<Longrightarrow> n = 0"
proof (induction n rule: nat_digits.induct)
  case (1 n)
  show ?case
  proof (cases "n < 10")
    case True
    with 1(2) have "digit_char n = CHR ''0''" by (simp add: nat_digits_step)
    with True show ?thesis by (simp add: digit_char_def char_of_eq_iff take_bit_eq_mod)
  next
    case False
    with 1(2) have "hd (nat_digits (n div 10)) = CHR ''0''"
      by (simp add: nat_digits_step nat_digits_nonempty)
    with 1(1) False have "n div 10 = 0" by simp
    with False show ?thesis by simp
  qed
qed

lemma nat_digits_no_leading_zero: "1 < length (nat_digits n) \<Longrightarrow> hd (nat_digits n) \<noteq> CHR ''0''"
proof
  assume l: "1 < length (nat_digits n)" and "hd (nat_digits n) = CHR ''0''"
  then have "n = 0" by (rule_tac hd_nat_digits)
  with l show False by (simp add: nat_digits_step)
qed

lemma lex_number_nat_digits:
  assumes "closes_value rest"
  shows "lex_number (nat_digits n @ rest) = Some ((int n, 0), rest)"
proof -
  from assms obtain c r where rest: "rest = c # r" and c: "c = CHR '','' \<or> c = CHR ''}''"
    by (auto simp: closes_value_def split: list.splits)
  have nd: "\<not> is_digit c" "c \<noteq> CHR ''.''" "c \<noteq> CHR ''e''" "c \<noteq> CHR ''E''"
    using c by (auto simp: is_digit_def)
  obtain d ds where dd: "nat_digits n = d # ds"
    using nat_digits_nonempty [of n] by (cases "nat_digits n") auto
  have d: "is_digit d" using nat_digits_all [of d n] dd by simp
  then have dm: "d \<noteq> CHR ''-''" by (auto simp: is_digit_def)
  have tw: "takeWhile is_digit (nat_digits n @ rest) = nat_digits n"
    using nat_digits_all [of _ n] nd(1) by (simp add: rest takeWhile_append2)
  have dw: "dropWhile is_digit (nat_digits n @ rest) = rest"
    using nat_digits_all [of _ n] nd(1) by (simp add: rest dropWhile_append2)
  have lz: "\<not> (1 < length (nat_digits n) \<and> hd (nat_digits n) = CHR ''0'')"
    using nat_digits_no_leading_zero by blast
  have neg: "(case nat_digits n @ rest of [] \<Rightarrow> False | x # _ \<Rightarrow> x = CHR ''-'') = False"
    using dm by (simp add: dd)
  show ?thesis
    unfolding lex_number_def Let_def neg if_False tw dw
    using lz nd nat_digits_nonempty [of n]
    by (simp add: rest digits_value_nat_digits digits_value_Nil)
qed

lemma tokenize_number:
  assumes "closes_value rest"
  shows "tokenize (nat_digits n @ rest) = cons_token (TNumber (int n) 0) (tokenize rest)"
proof -
  obtain d ds where dd: "nat_digits n = d # ds"
    using nat_digits_nonempty [of n] by (cases "nat_digits n") auto
  have d: "is_digit d" using nat_digits_all [of d n] dd by simp
  then have k: "48 \<le> (of_char d :: nat)" "(of_char d :: nat) \<le> 57" by (auto simp: is_digit_def)
  have plain: "\<not> json_ws d" "d \<noteq> CHR ''{''" "d \<noteq> CHR ''}''" "d \<noteq> CHR ''[''" "d \<noteq> CHR '']''"
    "d \<noteq> CHR '':''" "d \<noteq> CHR '',''" "d \<noteq> CHR 0x22"
    using k by (auto simp: json_ws_def)
  have "tokenize (d # (ds @ rest)) = cons_token (TNumber (int n) 0) (tokenize rest)"
    using plain d lex_number_nat_digits [OF assms, of n]
    by (simp add: dd)
  then show ?thesis by (simp add: dd)
qed

lemma take_trailing:
  "take (length xs - length (takeWhile (\<lambda>x. x = c) (rev xs))) xs
     @ replicate (length (takeWhile (\<lambda>x. x = c) (rev xs))) c = xs"
proof -
  let ?t = "takeWhile (\<lambda>x. x = c) (rev xs)"
  let ?d = "dropWhile (\<lambda>x. x = c) (rev xs)"
  have t: "?t = replicate (length ?t) c"
    by (metis (mono_tags, lifting) replicate_length_same set_takeWhileD)
  have "rev xs = ?t @ ?d" by simp
  then have xs: "xs = rev ?d @ rev ?t" by (metis rev_append rev_rev_ident)
  have "length (rev ?d) = length xs - length ?t"
    by (metis add_diff_cancel_right' length_append length_rev xs)
  then have "take (length xs - length ?t) xs = rev ?d"
    by (metis append_eq_conv_conj xs)
  moreover have "rev ?t = replicate (length ?t) c"
    by (metis rev_replicate t)
  ultimately show ?thesis using xs by simp
qed

lemma length_nat_digits: "0 < k \<Longrightarrow> n < 10 ^ k \<Longrightarrow> length (nat_digits n) \<le> k"
proof (induction n arbitrary: k rule: nat_digits.induct)
  case (1 n)
  show ?case
  proof (cases "n < 10")
    case True
    with 1(2) show ?thesis by (simp add: nat_digits_step)
  next
    case False
    then obtain j where k: "k = Suc j" using 1(2) by (cases k) auto
    have "0 < j" using False 1(3) k by (cases j) auto
    moreover have "n div 10 < 10 ^ j" using 1(3) k by (simp add: less_mult_imp_div_less mult.commute)
    ultimately have "length (nat_digits (n div 10)) \<le> j" using 1(1) False by simp
    with False k show ?thesis by (simp add: nat_digits_step)
  qed
qed

lemma Number_toString_nat:
  assumes "n < 10 ^ 21"
  shows "Number_toString (int n) 0 = nat_digits n"
proof (cases "n = 0")
  case True
  then show ?thesis by (simp add: Number_toString_def nat_digits_step digit_char_0)
next
  case False
  define ds0 where "ds0 = nat_digits n"
  define z where "z = length (takeWhile (\<lambda>c. c = CHR ''0'') (rev ds0))"
  define ds where "ds = take (length ds0 - z) ds0"
  have len: "length ds0 \<le> 21" using length_nat_digits [of 21 n] assms by (simp add: ds0_def)
  have z: "z \<le> length ds0" unfolding z_def by (metis length_rev length_takeWhile_le)
  have eq: "ds @ replicate z CHR ''0'' = ds0"
    unfolding ds_def z_def by (rule take_trailing)
  have lds: "int (length ds) + int z = int (length ds0)"
    using z by (simp add: ds_def)
  have k: "int (length ds) \<le> int (length ds) + 0 + int z" by simp
  have n21: "int (length ds) + 0 + int z \<le> 21" using lds len by simp
  have a: "nat \<bar>int n\<bar> = n" by simp
  have "Number_toString (int n) 0 =
          ds @ replicate (nat (int (length ds) + 0 + int z - int (length ds))) CHR ''0''"
    unfolding Number_toString_def Let_def a
    unfolding ds0_def [symmetric]
    unfolding z_def [symmetric]
    unfolding ds_def [symmetric]
    using False k n21 by simp
  also have "\<dots> = ds0" using eq by simp
  finally show ?thesis by (simp add: ds0_def)
qed

subsubsection \<open>Objects of plain values\<close>

lemma cons_token_tokens: "cons_token t (cons_tokens ts r) = cons_tokens (t # ts) r"
  "cons_token t r = cons_tokens [t] r"
  by (simp_all add: cons_token_def cons_tokens_def split: option.splits)

lemma cons_tokens_append: "cons_tokens ts (cons_tokens us r) = cons_tokens (ts @ us) r"
  by (simp add: cons_tokens_def split: option.splits)

lemma tokenize_value:
  assumes "plain_value v" and "closes_value rest"
  shows "tokenize (JSON_stringify v @ rest) = cons_token (value_token v) (tokenize rest)"
proof (cases v)
  case (JStr s)
  then show ?thesis by (simp add: tokenize_string)
next
  case (JBool b)
  then show ?thesis by (cases b) (simp_all add: json_ws_def is_digit_def)
next
  case (JNum m e)
  with assms(1) have m: "0 \<le> m" "m < 10 ^ 21" and e: "e = 0" by simp_all
  define n where "n = nat m"
  have mn: "m = int n" using m by (simp add: n_def)
  have "n < 10 ^ 21" using m by (simp add: n_def nat_less_iff)
  then have "Number_toString (int n) 0 = nat_digits n" by (rule Number_toString_nat)
  then show ?thesis
    using tokenize_number [OF assms(2), of n] by (simp add: JNum mn e)
qed (use assms in simp_all)

lemma tokenize_punct:
  "tokenize (CHR '':'' # s) = cons_token TColon (tokenize s)"
  "tokenize (CHR '','' # s) = cons_token TComma (tokenize s)"
  "tokenize (CHR ''{'' # s) = cons_token TLBrace (tokenize s)"
  "tokenize (CHR ''}'' # s) = cons_token TRBrace (tokenize s)"
  by (simp_all add: json_ws_def)

lemma closes_value_simps [simp]:
  "closes_value (CHR '','' # s)" "closes_value (CHR ''}'' # s)"
  by (simp_all add: closes_value_def)

lemma tokenize_members:
  assumes "list_all (\<lambda>m. plain_value (snd m)) ms"
  shows "tokenize (stringify_members ms @ CHR ''}'' # rest)
         = cons_tokens (member_tokens ms @ [TRBrace]) (tokenize rest)"
  using assms
proof (induction ms rule: member_tokens.induct)
  case 1
  show ?case by (simp add: tokenize_punct cons_token_tokens(2) del: tokenize.simps)
next
  case (2 k v)
  then have v: "plain_value v" by simp
  have "tokenize (QuoteJSONString k @ CHR '':'' # JSON_stringify v @ CHR ''}'' # rest)
        = cons_tokens [TString k, TColon, value_token v, TRBrace] (tokenize rest)"
    by (simp add: tokenize_string tokenize_punct tokenize_value [OF v] cons_token_tokens(2) cons_tokens_append
          del: tokenize.simps)
  then show ?case by simp
next
  case (3 k v m ms)
  then have v: "plain_value v" and rest: "list_all (\<lambda>m. plain_value (snd m)) (m # ms)"
    by simp_all
  have "tokenize (QuoteJSONString k @ CHR '':'' # JSON_stringify v @ CHR '','' #
                    stringify_members (m # ms) @ CHR ''}'' # rest)
        = cons_tokens [TString k, TColon, value_token v, TComma]
            (tokenize (stringify_members (m # ms) @ CHR ''}'' # rest))"
    by (simp add: tokenize_string tokenize_punct tokenize_value [OF v] cons_token_tokens(2) cons_tokens_append
          del: tokenize.simps)
  also have "\<dots> = cons_tokens ([TString k, TColon, value_token v, TComma] @ member_tokens (m # ms) @ [TRBrace])
                      (tokenize rest)"
    using "3.IH" [OF rest] by (simp add: cons_tokens_append)
  finally show ?case by (cases m) simp
qed

lemma tokenize_object:
  assumes "list_all (\<lambda>m. plain_value (snd m)) ms"
  shows "tokenize (JSON_stringify (JObj ms)) = Some (TLBrace # member_tokens ms @ [TRBrace])"
proof -
  have "tokenize (stringify_members ms @ ''}'') = Some (member_tokens ms @ [TRBrace])"
    using tokenize_members [OF assms, of "[]"] by (simp add: cons_tokens_def)
  then show ?thesis
    by (simp add: tokenize_punct cons_token_def del: tokenize.simps)
qed

lemma finish_simps:
  "finish [] v = Some (SDone v)"
  "finish (FObj ms (Some k) # st) v = Some (SNext (FObj (obj_put ms k v) None # st))"
  by (simp_all add: finish_def)

lemma step_simps:
  "step (SKey (FObj ms x # st) first) (TString k) = Some (SColon (FObj ms (Some k) # st))"
  "step (SColon st) TColon = Some (SValue st False)"
  "step (SNext (FObj ms x # st)) TComma = Some (SKey (FObj ms x # st) False)"
  "step (SNext (FObj ms x # st)) TRBrace = finish st (JObj ms)"
  "step (SValue st first) TLBrace = Some (SKey (FObj [] None # st) True)"
  by (simp_all add: step_def)

lemma step_value_token:
  "plain_value v \<Longrightarrow> step (SValue st first) (value_token v) = finish st v"
  by (cases v) (simp_all add: step_def)

lemma run_parser_member:
  assumes "plain_value v"
  shows "run_parser (SKey (FObj acc None # st) first) (TString k # TColon # value_token v # ts)
         = run_parser (SNext (FObj (obj_put acc k v) None # st)) ts"
  using assms by (simp add: step_simps step_value_token finish_simps)

lemma run_parser_members:
  assumes "list_all (\<lambda>m. plain_value (snd m)) ms" and "ms \<noteq> []"
  shows "run_parser (SKey [FObj acc None] first) (member_tokens ms @ [TRBrace])
         = Some (JObj (put_all acc ms))"
  using assms
proof (induction ms arbitrary: acc first rule: member_tokens.induct)
  case 1
  then show ?case by simp
next
  case (2 k v)
  then have v: "plain_value v" by simp
  show ?case
    using run_parser_member [OF v, of acc "[]" first k "[TRBrace]"]
    by (simp add: step_simps finish_simps put_all_def)
next
  case (3 k v m ms)
  then have v: "plain_value v" and rest: "list_all (\<lambda>m. plain_value (snd m)) (m # ms)"
    by simp_all
  have "run_parser (SKey [FObj acc None] first)
          (TString k # TColon # value_token v # TComma # member_tokens (m # ms) @ [TRBrace])
        = run_parser (SNext [FObj (obj_put acc k v) None]) (TComma # member_tokens (m # ms) @ [TRBrace])"
    by (rule run_parser_member [OF v])
  also have "\<dots> = run_parser (SKey [FObj (obj_put acc k v) None] False) (member_tokens (m # ms) @ [TRBrace])"
    by (simp add: step_simps)
  also have "\<dots> = Some (JObj (put_all (obj_put acc k v) (m # ms)))"
    using "3.IH" [OF rest] by simp
  finally show ?case by (simp add: put_all_def)
qed

lemma obj_put_fresh: "k \<notin> fst ` set ms \<Longrightarrow> obj_put ms k v = ms @ [(k, v)]"
  by (induction ms) auto

lemma put_all_distinct: "distinct (map fst (acc @ ms)) \<Longrightarrow> put_all acc ms = acc @ ms"
proof (induction ms arbitrary: acc)
  case Nil
  then show ?case by (simp add: put_all_def)
next
  case (Cons m ms)
  then have f: "fst m \<notin> fst ` set acc" by auto
  have "put_all acc (m # ms) = put_all (obj_put acc (fst m) (snd m)) ms"
    by (simp add: put_all_def)
  also have "\<dots> = put_all (acc @ [m]) ms" by (simp add: obj_put_fresh [OF f])
  also have "\<dots> = (acc @ [m]) @ ms" using Cons.prems by (intro Cons.IH) simp
  finally show ?case by simp
qed

lemma JSON_roundtrip_object:
  assumes "list_all (\<lambda>m. plain_value (snd m)) ms" and "ms \<noteq> []" and "distinct (map fst ms)"
  shows "JSON_parse (JSON_stringify (JObj ms)) = Inr (JObj ms)"
proof -
  have "run_parser (SValue [] False) (TLBrace # member_tokens ms @ [TRBrace])
        = run_parser (SKey [FObj [] None] True) (member_tokens ms @ [TRBrace])"
    by (simp add: step_simps)
  also have "\<dots> = Some (JObj (put_all [] ms))"
    by (rule run_parser_members [OF assms(1,2)])
  also have "put_all [] ms = ms" using put_all_distinct [of "[]" ms] assms(3) by simp
  finally show ?thesis
    by (simp add: JSON_parse_def tokenize_object [OF assms(1)] del: tokenize.simps JSON_stringify.simps)
qed

lemma obj_put_keys:
  "map fst (obj_put ms k v) = (if k \<in> fst ` set ms then map fst ms else map fst ms @ [k])"
  by (induction ms) auto

lemma obj_put_distinct: "distinct (map fst ms) \<Longrightarrow> distinct (map fst (obj_put ms k v))"
  by (auto simp: obj_put_keys)

lemma obj_put_plain:
  "list_all (\<lambda>m. plain_value (snd m)) ms \<Longrightarrow> plain_value v \<Longrightarrow>
   list_all (\<lambda>m. plain_value (snd m)) (obj_put ms k v)"
  by (induction ms) auto

lemma obj_put_nonempty: "obj_put ms k v \<noteq> []"
  by (cases ms) auto

lemma map_of_obj_put: "map_of (obj_put ms k v) = (map_of ms)(k \<mapsto> v)"
  by (induction ms) (auto simp: fun_eq_iff)

section \<open>Properties of the token codec\<close>

subsection \<open>Verifying a minted token\<close>

lemma split_acc_no_sep: "sep \<notin> set a \<Longrightarrow> split_acc sep acc a = [rev acc @ a]"
  by (induction a arbitrary: acc) auto

lemma split_acc_sep:
  "sep \<notin> set a \<Longrightarrow> split_acc sep acc (a @ sep # rest) = (rev acc @ a) # split_acc sep [] rest"
  by (induction a arbitrary: acc) auto

lemma split_three:
  assumes "CHR ''.'' \<notin> set a" "CHR ''.'' \<notin> set b" "CHR ''.'' \<notin> set c"
  shows "split CHR ''.'' (a @ ''.'' @ b @ ''.'' @ c) = [a, b, c]"
  using assms split_acc_sep [of "CHR ''.''" a "[]" "b @ CHR ''.'' # c"]
    split_acc_sep [of "CHR ''.''" b "[]" c] split_acc_no_sep [of "CHR ''.''" c "[]"]
  by (simp add: split_def)

lemma createSignature_base64url: "createSignature d k = base64urlEncode (hmac_sha256 k d)"
  by (simp add: createSignature_def base64urlEncode_def)

lemma createSignature_no_dot: "CHR ''.'' \<notin> set (createSignature d k)"
  by (simp add: createSignature_base64url base64urlEncode_no_dot)

lemma parseDuration_nonneg: "0 \<le> parseDuration d"
  by (simp add: parseDuration_def Let_def)

lemma less_than_integer_int: "less_than_integer (Some (JNum m 0)) n = Inr (m < n)"
  by (simp add: less_than_integer_def ToNumber_def)

lemma claim_value_plain: "claim_value v \<Longrightarrow> plain_value v"
  by (cases v) simp_all

lemma claim_set_plain: "claim_set payload \<Longrightarrow> list_all (\<lambda>m. plain_value (snd m)) payload"
  unfolding claim_set_def
  by (auto simp: list_all_iff claim_value_plain)

lemma signToken_parts:
  "signToken env payload expiresIn date_now =
     base64urlEncode (JSON_stringify (JObj [(''alg'', JStr ''HS256''), (''typ'', JStr ''JWT'')])) @ ''.'' @
     base64urlEncode (JSON_stringify (JObj (minted_payload payload expiresIn date_now))) @ ''.'' @
     createSignature
       (base64urlEncode (JSON_stringify (JObj [(''alg'', JStr ''HS256''), (''typ'', JStr ''JWT'')])) @ ''.'' @
        base64urlEncode (JSON_stringify (JObj (minted_payload payload expiresIn date_now))))
       (JWT_SECRET env)"
  by (simp add: signToken_def minted_payload_def Let_def del: JSON_stringify.simps)

lemma minted_payload_roundtrip:
  assumes cs: "claim_set payload" and t0: "0 \<le> date_now"
    and bound: "date_now div 1000 + parseDuration expiresIn div 1000 < 10 ^ 21"
  shows "JSON_parse (JSON_stringify (JObj (minted_payload payload expiresIn date_now)))
         = Inr (JObj (minted_payload payload expiresIn date_now))"
proof -
  let ?now = "date_now div 1000"
  let ?exp = "?now + parseDuration expiresIn div 1000"
  have d: "0 \<le> parseDuration expiresIn div 1000"
    using parseDuration_nonneg [of expiresIn] by simp
  have now: "0 \<le> ?now" using t0 by simp
  have p1: "plain_value (JNum ?now 0)" using now d bound by simp
  have p2: "plain_value (JNum ?exp 0)" using now d bound by simp
  have "list_all (\<lambda>m. plain_value (snd m)) (minted_payload payload expiresIn date_now)"
    unfolding minted_payload_def
    by (intro obj_put_plain claim_set_plain [OF cs] p1 p2)
  moreover have "distinct (map fst (minted_payload payload expiresIn date_now))"
    unfolding minted_payload_def using cs by (intro obj_put_distinct) (simp add: claim_set_def)
  moreover have "minted_payload payload expiresIn date_now \<noteq> []"
    unfolding minted_payload_def by (rule obj_put_nonempty)
  ultimately show ?thesis by (intro JSON_roundtrip_object)
qed

lemma minted_payload_exp:
  "property (JObj (minted_payload payload expiresIn date_now)) ''exp''
   = Some (JNum (date_now div 1000 + parseDuration expiresIn div 1000) 0)"
  by (simp add: property_def minted_payload_def map_of_obj_put)

lemma minted_payload_other:
  "k \<noteq> ''iat'' \<Longrightarrow> k \<noteq> ''exp'' \<Longrightarrow>
   property (JObj (minted_payload payload expiresIn date_now)) k = map_of payload k"
  by (simp add: property_def minted_payload_def map_of_obj_put)

lemma verifyToken_try_signToken:
  assumes cs: "claim_set payload" and t0: "0 \<le> date_now"
    and bound: "date_now div 1000 + parseDuration expiresIn div 1000 < 10 ^ 21"
  shows "verifyToken_try env (signToken env payload expiresIn date_now) later =
           Inr (if date_now div 1000 + parseDuration expiresIn div 1000 < later div 1000 then None
                else Some (JObj (minted_payload payload expiresIn date_now)))"
proof -
  let ?h = "base64urlEncode (JSON_stringify (JObj [(''alg'', JStr ''HS256''), (''typ'', JStr ''JWT'')]))"
  let ?p = "base64urlEncode (JSON_stringify (JObj (minted_payload payload expiresIn date_now)))"
  let ?s = "createSignature (?h @ ''.'' @ ?p) (JWT_SECRET env)"
  have sp: "split CHR ''.'' (?h @ ''.'' @ ?p @ ''.'' @ ?s) = [?h, ?p, ?s]"
    by (rule split_three) (rule base64urlEncode_no_dot base64urlEncode_no_dot createSignature_no_dot)+
  have dec: "JSON_parse (base64urlDecode ?p) = Inr (JObj (minted_payload payload expiresIn date_now))"
    using minted_payload_roundtrip [OF cs t0 bound] by (simp only: base64url_roundtrip)
  show ?thesis
    unfolding signToken_parts verifyToken_try_def sp
    by (simp add: dec get_property_def minted_payload_exp less_than_integer_int
          del: JSON_stringify.simps)
qed

lemma verifyTokenEdge_try_signToken:
  assumes cs: "claim_set payload" and t0: "0 \<le> date_now"
    and bound: "date_now div 1000 + parseDuration expiresIn div 1000 < 10 ^ 21"
    and secret: "env_or (JWT_SECRET_env env) ''fallback-secret'' = JWT_SECRET env"
    and asc: "ascii (JSON_stringify (JObj (minted_payload payload expiresIn date_now)))"
  shows "verifyTokenEdge_try env (signToken env payload expiresIn date_now) later =
           Inr (if date_now div 1000 + parseDuration expiresIn div 1000 < later div 1000
                then \<lparr>valid = False, isVerifiedClaim = None\<rparr>
                else \<lparr>valid = True,
                       isVerifiedClaim = property (JObj (minted_payload payload expiresIn date_now)) ''isVerified''\<rparr>)"
proof -
  let ?h = "base64urlEncode (JSON_stringify (JObj [(''alg'', JStr ''HS256''), (''typ'', JStr ''JWT'')]))"
  let ?p = "base64urlEncode (JSON_stringify (JObj (minted_payload payload expiresIn date_now)))"
  let ?s = "createSignature (?h @ ''.'' @ ?p) (JWT_SECRET env)"
  have sp: "split CHR ''.'' (?h @ ''.'' @ ?p @ ''.'' @ ?s) = [?h, ?p, ?s]"
    by (rule split_three) (rule base64urlEncode_no_dot base64urlEncode_no_dot createSignature_no_dot)+
  have sig: "remove_char CHR ''='' (replace_char CHR ''/'' CHR ''_'' (replace_char CHR ''+'' CHR ''-''
               (base64_encode (hmac_sha256 (JWT_SECRET env) (?h @ ''.'' @ ?p))))) = ?s"
    by (simp add: createSignature_def)
  have dec: "atob (replace_char CHR ''_'' CHR ''/'' (replace_char CHR ''-'' CHR ''+'' ?p))
             = Inr (JSON_stringify (JObj (minted_payload payload expiresIn date_now)))"
    by (simp add: atob_base64urlEncode binary_string_ascii [OF asc] del: JSON_stringify.simps)
  have parse: "JSON_parse (JSON_stringify (JObj (minted_payload payload expiresIn date_now)))
               = Inr (JObj (minted_payload payload expiresIn date_now))"
    by (rule minted_payload_roundtrip [OF cs t0 bound])
  show ?thesis
    unfolding signToken_parts verifyTokenEdge_try_def sp secret Let_def
    by (simp add: createSignature_def dec parse get_property_def minted_payload_exp
          less_than_integer_int del: JSON_stringify.simps)
qed

subsection \<open>The examples\<close>

lemma parseDuration_defaults:
  "parseDuration ''15m'' = 900000" "parseDuration ''7d'' = 604800000"
  by (simp_all add: parseDuration_def is_digit_def digits_value_def)

lemma example_env_simps:
  "JWT_SECRET example_env = ''0123456789abcdef''"
  "env_or (JWT_SECRET_env example_env) ''fallback-secret'' = ''0123456789abcdef''"
  "JWT_EXPIRES_IN example_env = ''15m''"
  "JWT_REFRESH_EXPIRES_IN example_env = ''7d''"
  by (simp_all add: example_env_def JWT_SECRET_def JWT_EXPIRES_IN_def JWT_REFRESH_EXPIRES_IN_def env_or_def)

lemma example_claims_set: "claim_set (example_claims v)"
  by (simp add: claim_set_def example_claims_def)

lemma signToken_nonempty: "signToken env payload expiresIn date_now \<noteq> []"
  unfolding signToken_parts by simp

lemmas text_eval = QuoteJSONString_def escape_char_def Number_toString_def nat_digits.simps
  digit_char_def replicate_eval char_of_eq_iff Let_def

lemma example_claims_text:
  "ascii (JSON_stringify (JObj (minted_payload (example_claims v) ''15m'' 0)))"
  by (cases v)
     (simp_all add: ascii_def minted_payload_def example_claims_def parseDuration_defaults text_eval)

lemma verifyTokenEdge_example:
  "verifyTokenEdge example_env (signAccessToken example_env (example_claims v) 0) 1000
   = \<lparr>valid = True, isVerifiedClaim = Some (JBool v)\<rparr>"
proof -
  have "verifyTokenEdge_try example_env (signToken example_env (example_claims v) ''15m'' 0) 1000
        = Inr \<lparr>valid = True, isVerifiedClaim =
                 property (JObj (minted_payload (example_claims v) ''15m'' 0)) ''isVerified''\<rparr>"
    by (subst verifyTokenEdge_try_signToken)
       (simp_all add: example_claims_set example_claims_text parseDuration_defaults example_env_simps
          del: JSON_stringify.simps)
  moreover have "property (JObj (minted_payload (example_claims v) ''15m'' 0)) ''isVerified''
                 = Some (JBool v)"
    by (simp add: minted_payload_other example_claims_def)
  ultimately show ?thesis
    by (simp add: verifyTokenEdge_def signAccessToken_def example_env_simps)
qed

subsection \<open>Further facts about tokens and the examples\<close>

lemma verifyToken_signToken:
  assumes "claim_set payload" and "0 \<le> date_now"
    and "date_now div 1000 + parseDuration expiresIn div 1000 < 10 ^ 21"
  shows "verifyToken env (signToken env payload expiresIn date_now) later =
           (if date_now div 1000 + parseDuration expiresIn div 1000 < later div 1000 then None
            else Some (JObj (minted_payload payload expiresIn date_now)))"
  by (simp add: verifyToken_def verifyToken_try_signToken [OF assms])

lemma length_sextets: "length (sextets_of_bytes s) = (4 * length s + 2) div 3"
  by (induction s rule: sextets_of_bytes.induct) simp_all

lemma length_sha256: "length (sha256 m) = 32"
  by (simp add: sha256_def Let_def state_words_def be_bytes_def split_beta)

lemma length_hmac_sha256: "length (hmac_sha256 k m) = 32"
  by (simp add: hmac_sha256_def Let_def length_sha256)

lemma length_createSignature: "length (createSignature d k) = 43"
  by (simp add: createSignature_base64url base64urlEncode_sextets length_sextets length_hmac_sha256)

lemma createSignature_nonempty: "createSignature d k \<noteq> []"
  using length_createSignature [of d k] by auto

lemmas json_eval = JSON_parse_def step_def finish_def cons_token_def cons_item_def json_ws_def
  is_digit_def lex_number_def digits_value_def simple_escape_def
  hex4_def hex_value_def utf8_def char_of_eq_iff Let_def

lemmas base64_eval = base64urlDecode_def Buffer_from_base64_def pad4_def replace_char_def
  node_b64_value_def b64_value_def List.map_filter_def char_of_eq_iff

lemma JSON_parse_empty: "JSON_parse [] = Inl SyntaxError"
  by (simp add: JSON_parse_def)

lemma base64urlDecode_empty: "base64urlDecode [] = []"
  by (simp add: base64_eval)

lemma decode_exp_only: "base64urlDecode ''eyJleHAiOjk5OTk5OTk5OTl9'' = ''{\"exp\":9999999999}''"
  by (simp add: base64_eval)

lemma parse_exp_only: "JSON_parse ''{\"exp\":9999999999}'' = Inr (JObj [(''exp'', JNum 9999999999 0)])"
  by (simp add: json_eval)

lemma b64url_alphabet_chars: "map b64url_char [0..<64] = b64url_alphabet"
  by code_simp

lemma b64url_alphabet_char:
  assumes "c \<in> set b64url_alphabet"
  shows "\<exists>n<64. c = b64url_char n"
proof -
  from assms have "c \<in> set (map b64url_char [0..<64])"
    by (simp only: b64url_alphabet_chars)
  then obtain n where "n \<in> set [0..<64]" and "c = b64url_char n" by auto
  then show ?thesis by auto
qed

lemma segment_sextets:
  assumes "set p \<subseteq> set b64url_alphabet"
  shows "\<exists>xs. p = map b64url_char xs \<and> (\<forall>n \<in> set xs. n < 64)"
  using assms
proof (induction p)
  case Nil
  then show ?case by simp
next
  case (Cons c p)
  then obtain xs where xs: "p = map b64url_char xs" "\<forall>n \<in> set xs. n < 64" by auto
  from Cons.prems obtain n where n: "n < 64" "c = b64url_char n"
    using b64url_alphabet_char [of c] by auto
  show ?case
    by (rule exI [of _ "n # xs"]) (simp add: xs n)
qed

lemma atob_agrees_with_Buffer:
  assumes "set p \<subseteq> set b64url_alphabet" and "length p mod 4 \<noteq> 1"
  shows "atob (replace_char CHR ''_'' CHR ''/'' (replace_char CHR ''-'' CHR ''+'' p))
         = Inr (binary_string (base64urlDecode p))"
proof -
  from segment_sextets [OF assms(1)] obtain xs
    where xs: "p = map b64url_char xs" and lt: "\<forall>n \<in> set xs. n < 64" by blast
  have len: "length xs mod 4 \<noteq> 1" using assms(2) xs by simp
  show ?thesis
    using atob_chars [OF lt len] std_chars [OF lt] base64urlDecode_chars [OF lt]
    by (simp add: xs)
qed

lemma example_header_no_dot: "CHR ''.'' \<notin> set example_header"
  by (simp add: example_header_def)

lemma decode_exp_only_trailing:
  "base64urlDecode ''eyJleHAiOjk5OTk5OTk5OTl9A'' = ''{\"exp\":9999999999}''"
  by (simp add: base64_eval)

lemma atob_trailing:
  "atob (replace_char CHR ''_'' CHR ''/'' (replace_char CHR ''-'' CHR ''+'' ''eyJleHAiOjk5OTk5OTk5OTl9A''))
   = Inl InvalidCharacterError"
  by (simp add: atob_def strip_padding_def ascii_whitespace_def replace_char_def)

lemma login_tokenPayload_claim_set: "claim_set (login_tokenPayload u)"
  by (simp add: claim_set_def login_tokenPayload_def)

lemma refreshed_tokenPayload_claim_set: "claim_set (refreshed_tokenPayload u)"
  by (simp add: claim_set_def refreshed_tokenPayload_def)

lemma safe_bound: "(x::int) < 2 ^ 53 \<Longrightarrow> x < 10 ^ 21"
  by simp

lemma example_user_payloads:
  "login_tokenPayload example_user = example_claims True"
  "refreshed_tokenPayload example_user =
     [(''userId'', JStr ''65a1f0c2''), (''email'', JStr ''ann@example.com''), (''role'', JStr ''user'')]"
  by (simp_all add: login_tokenPayload_def refreshed_tokenPayload_def example_user_def example_claims_def)

subsection \<open>The user store\<close>

lemma User_save_unmodified:
  "User_save P None date_now doc us = replace_user (doc\<lparr>updatedAt := date_now\<rparr>) us"
  by (simp add: User_save_def pre_save_def replace_user_def)

lemma User_save_modified:
  "User_save P (Some salt) date_now doc us
   = replace_user (doc\<lparr>password := bcrypt_hash P (password doc) salt, updatedAt := date_now\<rparr>) us"
  by (simp add: User_save_def pre_save_def replace_user_def)

lemma User_findOne_Some: "User_findOne q us = Some u \<Longrightarrow> u \<in> set us \<and> q u"
  by (auto simp: User_findOne_def find_Some_iff)

lemma User_findOne_None: "User_findOne q us = None \<longleftrightarrow> (\<forall>u \<in> set us. \<not> q u)"
  by (auto simp: User_findOne_def find_None_iff)

lemma toLowerCase_example: "toLowerCase example_platform ''Ann@Example.com'' = ''ann@example.com''"
  by (simp add: example_platform_def ascii_toLowerCase_def char_of_eq_iff)

lemma fresh_allowed:
  "allowed (fst (checkRateLimit key RATE_LIMIT_CONFIGS_passwordReset now no_entries))"
  by (simp add: checkRateLimit_def no_entries_def Let_def)

lemma reset_query_find:
  "User_findOne (\<lambda>u. resetPasswordToken u = Some (hashToken token)
                     \<and> (case resetPasswordExpires u of None \<Rightarrow> False | Some t \<Rightarrow> date_now < t)) us
   = User_findOne (reset_query token date_now) us"
  by (simp add: reset_query_def [abs_def] hashToken_def)

subsection \<open>Two payloads that the decoders read differently\<close>

lemma split_signed_token:
  assumes "CHR ''.'' \<notin> set h" and "CHR ''.'' \<notin> set p"
  shows "split CHR ''.'' (signed_token env h p) = [h, p, createSignature (h @ ''.'' @ p) (JWT_SECRET env)]"
  unfolding signed_token_def using assms by (intro split_three) (simp_all add: createSignature_no_dot)

lemma decode_nbsp:
  "base64urlDecode ''eyJleHAiOiLCoDUifQ''
   = [CHR ''{'', CHR 0x22, CHR ''e'', CHR ''x'', CHR ''p'', CHR 0x22, CHR '':'', CHR 0x22,
      CHR 0xC2, CHR 0xA0, CHR ''5'', CHR 0x22, CHR ''}'']"
  by (simp add: base64_eval)

lemma parse_nbsp:
  "JSON_parse [CHR ''{'', CHR 0x22, CHR ''e'', CHR ''x'', CHR ''p'', CHR 0x22, CHR '':'', CHR 0x22,
      CHR 0xC2, CHR 0xA0, CHR ''5'', CHR 0x22, CHR ''}'']
   = Inr (JObj [(''exp'', JStr [CHR 0xC2, CHR 0xA0, CHR ''5''])])"
  by (simp add: json_eval)

lemma atob_nbsp:
  "atob (replace_char CHR ''_'' CHR ''/'' (replace_char CHR ''-'' CHR ''+'' ''eyJleHAiOiLCoDUifQ''))
   = Inr [CHR ''{'', CHR 0x22, CHR ''e'', CHR ''x'', CHR ''p'', CHR 0x22, CHR '':'', CHR 0x22,
      CHR 0xC3, CHR 0x82, CHR 0xC2, CHR 0xA0, CHR ''5'', CHR 0x22, CHR ''}'']"
  by (simp add: atob_def strip_padding_def ascii_whitespace_def replace_char_def binary_string_def
        b64_value_def List.map_filter_def char_of_eq_iff)

lemma parse_nbsp_binary:
  "JSON_parse [CHR ''{'', CHR 0x22, CHR ''e'', CHR ''x'', CHR ''p'', CHR 0x22, CHR '':'', CHR 0x22,
      CHR 0xC3, CHR 0x82, CHR 0xC2, CHR 0xA0, CHR ''5'', CHR 0x22, CHR ''}'']
   = Inr (JObj [(''exp'', JStr [CHR 0xC3, CHR 0x82, CHR 0xC2, CHR 0xA0, CHR ''5''])])"
  by (simp add: json_eval)

lemmas number_eval = less_than_integer_def ToNumber_def StringToNumber_def StrDecimalLiteral_def
  str_ws_prefix_def str_ws_suffix_def is_digit_def digits_value_def Let_def char_of_eq_iff

lemma less_nbsp: "less_than_integer (Some (JStr [CHR 0xC2, CHR 0xA0, CHR ''5''])) n = Inr (5 < n)"
  by (simp add: number_eval)

lemma less_nbsp_binary:
  "less_than_integer (Some (JStr [CHR 0xC3, CHR 0x82, CHR 0xC2, CHR 0xA0, CHR ''5''])) n = Inr False"
  by (simp add: number_eval)

subsection \<open>Evaluating SHA-256 on numerals\<close>

text \<open>
  Rewriting with the definitions alone lets the numerals grow beyond 32 bits. The
  following equations reduce every intermediate word modulo \<open>2 ^ 32\<close>.
\<close>

lemma norm32: "word_of_int (take_bit 32 (uint x)) = (x :: word32)"
  by transfer simp

lemma rotr_eval:
  "rotr n x = word_of_int (take_bit 32 (or (drop_bit n (uint x)) (push_bit (32 - n) (uint x))))"
  unfolding rotr_def by transfer (simp add: take_bit_drop_bit take_bit_push_bit bit_eq_iff bit_simps)

lemma sha_round_eval:
  "sha_round (a, b, c, d, e, f, g, h) (k, w) =
     (let t1 = word_of_int (take_bit 32 (uint (h + bsig1 e + Ch e f g + k + w)));
          t2 = word_of_int (take_bit 32 (uint (bsig0 a + Maj a b c)))
      in (word_of_int (take_bit 32 (uint (t1 + t2))), a, b, c,
          word_of_int (take_bit 32 (uint (d + t1))), e, f, g))"
  by (simp add: sha_round_def norm32)

lemma schedule_step_eval:
  "schedule_step ws t =
     ws @ [word_of_int (take_bit 32 (uint
             (ssig1 (ws ! (t - 2)) + ws ! (t - 7) + ssig0 (ws ! (t - 15)) + ws ! (t - 16))))]"
  by (simp add: schedule_step_def norm32)

lemma add_state_eval:
  "add_state (a, b, c, d, e, f, g, h) (a', b', c', d', e', f', g', h') =
     (word_of_int (take_bit 32 (uint (a + a'))), word_of_int (take_bit 32 (uint (b + b'))),
      word_of_int (take_bit 32 (uint (c + c'))), word_of_int (take_bit 32 (uint (d + d'))),
      word_of_int (take_bit 32 (uint (e + e'))), word_of_int (take_bit 32 (uint (f + f'))),
      word_of_int (take_bit 32 (uint (g + g'))), word_of_int (take_bit 32 (uint (h + h'))))"
  by (simp add: add_state_def norm32)

lemmas sha_eval = sha_round_eval schedule_step_eval add_state_eval rotr_eval
  bsig0_def bsig1_def ssig0_def ssig1_def Ch_def Maj_def

subsection \<open>The hash of one token\<close>

text \<open>The SHA-256 digest of the token \<open>r3s3t\<close>, in hexadecimal, as \<open>hashToken\<close> computes it.\<close>

lemma r3s3t_blocks:
  "blocks64 (sha256_pad ''r3s3t'')
   = [[CHR 0x72, CHR 0x33, CHR 0x73, CHR 0x33, CHR 0x74, CHR 0x80, CHR 0x00, CHR 0x00, CHR 0x00,
      CHR 0x00, CHR 0x00, CHR 0x00, CHR 0x00, CHR 0x00, CHR 0x00, CHR 0x00, CHR 0x00, CHR 0x00,
      CHR 0x00, CHR 0x00, CHR 0x00, CHR 0x00, CHR 0x00, CHR 0x00, CHR 0x00, CHR 0x00, CHR 0x00,
      CHR 0x00, CHR 0x00, CHR 0x00, CHR 0x00, CHR 0x00, CHR 0x00, CHR 0x00, CHR 0x00, CHR 0x00,
      CHR 0x00, CHR 0x00, CHR 0x00, CHR 0x00, CHR 0x00, CHR 0x00, CHR 0x00, CHR 0x00, CHR 0x00,
      CHR 0x00, CHR 0x00, CHR 0x00, CHR 0x00, CHR 0x00, CHR 0x00, CHR 0x00, CHR 0x00, CHR 0x00,
      CHR 0x00, CHR 0x00, CHR 0x00, CHR 0x00, CHR 0x00, CHR 0x00, CHR 0x00, CHR 0x00, CHR 0x00,
      CHR 0x28]]"
  by (simp add: blocks64_def sha256_pad_def be_bytes_def replicate_eval upt_conv_Cons char_of_eq_iff)

lemma r3s3t_rounds:
  "add_state (1779033703, 3144134277, 1013904242, 2773480762, 1359893119, 2600822924, 528734635, 1541459225)
     (foldl sha_round (1779033703, 3144134277, 1013904242, 2773480762, 1359893119, 2600822924, 528734635, 1541459225)
        (zip K256 (schedule
           [1915974451, 1954545664, 0, 0, 0, 0, 0, 0, 0, 0, 0, 0, 0, 0, 0, 40]))) =
   (2767469746, 3957805930, 840859177, 3738151935, 363944407, 3220455172, 4124770199, 2028902171)"
  by (simp add: K256_def schedule_def upt_conv_Cons sha_eval)

lemma r3s3t_state:
  "foldl compress H256
     [[CHR 0x72, CHR 0x33, CHR 0x73, CHR 0x33, CHR 0x74, CHR 0x80, CHR 0x00, CHR 0x00, CHR 0x00,
      CHR 0x00, CHR 0x00, CHR 0x00, CHR 0x00, CHR 0x00, CHR 0x00, CHR 0x00, CHR 0x00, CHR 0x00,
      CHR 0x00, CHR 0x00, CHR 0x00, CHR 0x00, CHR 0x00, CHR 0x00, CHR 0x00, CHR 0x00, CHR 0x00,
      CHR 0x00, CHR 0x00, CHR 0x00, CHR 0x00, CHR 0x00, CHR 0x00, CHR 0x00, CHR 0x00, CHR 0x00,
      CHR 0x00, CHR 0x00, CHR 0x00, CHR 0x00, CHR 0x00, CHR 0x00, CHR 0x00, CHR 0x00, CHR 0x00,
      CHR 0x00, CHR 0x00, CHR 0x00, CHR 0x00, CHR 0x00, CHR 0x00, CHR 0x00, CHR 0x00, CHR 0x00,
      CHR 0x00, CHR 0x00, CHR 0x00, CHR 0x00, CHR 0x00, CHR 0x00, CHR 0x00, CHR 0x00, CHR 0x00,
      CHR 0x28]]
   = (2767469746, 3957805930, 840859177, 3738151935, 363944407, 3220455172, 4124770199, 2028902171)"
  by (simp add: H256_def compress_def r3s3t_rounds)

lemma r3s3t_digest:
  "concat (map (\<lambda>w. be_bytes 4 (unat w)) (state_words (2767469746, 3957805930, 840859177, 3738151935, 363944407, 3220455172, 4124770199, 2028902171)))
   = [CHR 0xA4, CHR 0xF4, CHR 0x3C, CHR 0xB2, CHR 0xEB, CHR 0xE7, CHR 0x53, CHR 0x6A, CHR 0x32,
     CHR 0x1E, CHR 0x7E, CHR 0x29, CHR 0xDE, CHR 0xCF, CHR 0xAB, CHR 0xFF, CHR 0x15, CHR 0xB1,
     CHR 0x59, CHR 0xD7, CHR 0xBF, CHR 0xF4, CHR 0x3F, CHR 0x04, CHR 0xF5, CHR 0xDA, CHR 0xFF,
     CHR 0x97, CHR 0x78, CHR 0xEE, CHR 0x97, CHR 0x1B]"
  by (simp add: state_words_def be_bytes_def upt_conv_Cons char_of_eq_iff)

lemma r3s3t_sha256:
  "sha256 ''r3s3t''
   = [CHR 0xA4, CHR 0xF4, CHR 0x3C, CHR 0xB2, CHR 0xEB, CHR 0xE7, CHR 0x53, CHR 0x6A, CHR 0x32,
     CHR 0x1E, CHR 0x7E, CHR 0x29, CHR 0xDE, CHR 0xCF, CHR 0xAB, CHR 0xFF, CHR 0x15, CHR 0xB1,
     CHR 0x59, CHR 0xD7, CHR 0xBF, CHR 0xF4, CHR 0x3F, CHR 0x04, CHR 0xF5, CHR 0xDA, CHR 0xFF,
     CHR 0x97, CHR 0x78, CHR 0xEE, CHR 0x97, CHR 0x1B]"
  unfolding sha256_def Let_def r3s3t_blocks r3s3t_state r3s3t_digest ..

lemma r3s3t_hashToken:
  "hashToken ''r3s3t'' = ''a4f43cb2ebe7536a321e7e29decfabff15b159d7bff43f04f5daff9778ee971b''"
  unfolding hashToken_def r3s3t_sha256
  by (simp add: hex_def hex_digit_def char_of_eq_iff)

lemma r3s3t_hex_sha256:
  "hex (sha256 ''r3s3t'') = ''a4f43cb2ebe7536a321e7e29decfabff15b159d7bff43f04f5daff9778ee971b''"
  using r3s3t_hashToken by (simp add: hashToken_def)

subsection \<open>Round trip and expiry\<close>

text \<open>
  Claim C3 (sign/verify round trip with expiry), as amended. For every claim set \<open>C\<close>
  (distinct keys, string and boolean values), every \<open>expiresIn\<close> and every minting
  instant whose expiry second \<open>exp\<close> is a safe integer, \<open>verifyToken (signToken C)\<close>
  returns the payload \<open>C\<close> with \<open>iat\<close> and \<open>exp\<close> added, every claim of \<open>C\<close> unchanged, at
  every current time whose whole second is at most \<open>exp\<close>, and returns null at every
  current time whose whole second is greater than \<open>exp\<close>.
\<close>

theorem verify_sign_roundtrip:
  assumes "claim_set C" and "0 \<le> date_now"
    and "date_now div 1000 + parseDuration expiresIn div 1000 < 2 ^ 53"
  shows "(later div 1000 \<le> date_now div 1000 + parseDuration expiresIn div 1000 \<longrightarrow>
            verifyToken env (signToken env C expiresIn date_now) later
              = Some (JObj (minted_payload C expiresIn date_now)))
         \<and> (date_now div 1000 + parseDuration expiresIn div 1000 < later div 1000 \<longrightarrow>
            verifyToken env (signToken env C expiresIn date_now) later = None)
         \<and> property (JObj (minted_payload C expiresIn date_now)) ''exp''
              = Some (JNum (date_now div 1000 + parseDuration expiresIn div 1000) 0)
         \<and> (\<forall>k. k \<noteq> ''iat'' \<and> k \<noteq> ''exp'' \<longrightarrow>
               property (JObj (minted_payload C expiresIn date_now)) k = map_of C k)"
proof -
  have "(2::int) ^ 53 < 10 ^ 21" by simp
  with assms(3) have b: "date_now div 1000 + parseDuration expiresIn div 1000 < 10 ^ 21"
    by linarith
  show ?thesis
    using verifyToken_signToken [OF assms(1,2) b, of env later]
    by (simp add: minted_payload_exp minted_payload_other)
qed

lemma example_minted:
  "minted_payload (example_claims v) ''15m'' 0 =
     [(''userId'', JStr ''65a1f0c2''), (''email'', JStr ''ann@example.com''),
      (''role'', JStr ''user''), (''isVerified'', JBool v), (''iat'', JNum 0 0), (''exp'', JNum 900 0)]"
  by (simp add: minted_payload_def example_claims_def parseDuration_defaults)

theorem verify_sign_roundtrip_witness:
  "verifyToken example_env (signToken example_env (example_claims True) ''15m'' 0) 899999
     = Some (JObj [(''userId'', JStr ''65a1f0c2''), (''email'', JStr ''ann@example.com''),
                   (''role'', JStr ''user''), (''isVerified'', JBool True),
                   (''iat'', JNum 0 0), (''exp'', JNum 900 0)])
   \<and> verifyToken example_env (signToken example_env (example_claims True) ''15m'' 0) 901000 = None
   \<and> property (JObj (minted_payload (example_claims True) ''15m'' 0)) ''isVerified'' = Some (JBool True)"
proof -
  have h: "claim_set (example_claims True)" "(0::int) \<le> 0"
    "(0::int) div 1000 + parseDuration ''15m'' div 1000 < 2 ^ 53"
    by (simp_all add: example_claims_set parseDuration_defaults)
  note r = verify_sign_roundtrip [OF h, of _ example_env]
  from r [of 899999] have a:
    "verifyToken example_env (signToken example_env (example_claims True) ''15m'' 0) 899999
     = Some (JObj (minted_payload (example_claims True) ''15m'' 0))"
    by (simp add: parseDuration_defaults)
  from r [of 901000] have b:
    "verifyToken example_env (signToken example_env (example_claims True) ''15m'' 0) 901000 = None"
    by (simp add: parseDuration_defaults)
  from r [of 0] have c:
    "property (JObj (minted_payload (example_claims True) ''15m'' 0)) ''isVerified''
       = Some (JBool True)"
    by (simp add: example_claims_def)
  from a b c show ?thesis by (simp add: example_minted)
qed

text \<open>
  The claim as stated fails at the expiry instant: a token minted at time 0 for fifteen
  minutes carries \<open>exp = 900\<close> and is still accepted at 900000 ms, and up to 900999 ms.
\<close>

theorem verify_at_expiry_instant_counterexample:
  "property (JObj (minted_payload (example_claims True) ''15m'' 0)) ''exp'' = Some (JNum 900 0)
   \<and> verifyToken example_env (signToken example_env (example_claims True) ''15m'' 0) (900 * 1000)
     = Some (JObj [(''userId'', JStr ''65a1f0c2''), (''email'', JStr ''ann@example.com''),
                   (''role'', JStr ''user''), (''isVerified'', JBool True),
                   (''iat'', JNum 0 0), (''exp'', JNum 900 0)])
   \<and> verifyToken example_env (signToken example_env (example_claims True) ''15m'' 0) (900 * 1000 + 999)
     \<noteq> None"
proof -
  have h: "claim_set (example_claims True)" "(0::int) \<le> 0"
    "(0::int) div 1000 + parseDuration ''15m'' div 1000 < 10 ^ 21"
    by (simp_all add: example_claims_set parseDuration_defaults)
  show ?thesis
    by (simp add: verifyToken_signToken [OF h] parseDuration_defaults example_minted property_def)
qed

section \<open>Properties of the route guard\<close>

lemma startsWith_nth: "startsWith p pre \<Longrightarrow> i < length pre \<Longrightarrow> p ! i = pre ! i"
  unfolding startsWith_def by (metis nth_take)

lemma protected_not_auth: "isProtectedRoute p \<Longrightarrow> \<not> isAuthRoute p"
proof
  assume P: "isProtectedRoute p" and A: "isAuthRoute p"
  from P have "startsWith p ''/dashboard''"
    by (simp add: isProtectedRoute_def protectedRoutes_def)
  from startsWith_nth [OF this, of 1] have d: "p ! 1 = CHR ''d''" by simp
  from A have "startsWith p ''/login'' \<or> startsWith p ''/register''"
    by (auto simp: isAuthRoute_def authRoutes_def startsWith_def)
  then show False
  proof
    assume "startsWith p ''/login''"
    from startsWith_nth [OF this, of 1] d show False by simp
  next
    assume "startsWith p ''/register''"
    from startsWith_nth [OF this, of 1] d show False by simp
  qed
qed

text \<open>
  Claim C6 (route-guard decision procedure), as amended. The guard returns at once for a
  path under \<open>/_next\<close> or \<open>/api/auth\<close> and for every path that contains a dot, whatever
  the class of the path. For every other request to a Protected path, the middleware
  redirects to \<open>/login\<close> with the original pathname as the \<open>redirect\<close> parameter when no
  access-token cookie is present (or it is empty), when the token fails verification, and
  when the token is valid but its verified-flag is not truthy; with a valid token whose
  verified-flag is truthy the request passes through. For every other request to an
  AuthOnly path, a valid verified token redirects to \<open>/dashboard\<close>, and anonymous and
  valid-but-unverified requests pass through.
\<close>

theorem middleware_decision:
  "(bypassesGuard (pathname request) \<longrightarrow> middleware env request date_now = Next)
   \<and> (\<not> bypassesGuard (pathname request) \<and> isProtectedRoute (pathname request) \<longrightarrow>
        middleware env request date_now =
          (case map_of (cookies request) ACCESS_TOKEN_COOKIE of
             None \<Rightarrow> Redirect ''/login'' [(''redirect'', pathname request)]
           | Some t \<Rightarrow>
               if t \<noteq> [] \<and> valid (verifyTokenEdge env t date_now)
                    \<and> truthy (isVerifiedClaim (verifyTokenEdge env t date_now))
               then Next
               else Redirect ''/login'' [(''redirect'', pathname request)]))
   \<and> (\<not> bypassesGuard (pathname request) \<and> isAuthRoute (pathname request) \<longrightarrow>
        middleware env request date_now =
          (case map_of (cookies request) ACCESS_TOKEN_COOKIE of
             None \<Rightarrow> Next
           | Some t \<Rightarrow>
               if t \<noteq> [] \<and> valid (verifyTokenEdge env t date_now)
                    \<and> truthy (isVerifiedClaim (verifyTokenEdge env t date_now))
               then Redirect ''/dashboard'' []
               else Next))"
proof (intro conjI impI)
  show "middleware env request date_now = Next" if "bypassesGuard (pathname request)"
    using that by (simp add: middleware_def)
next
  assume h: "\<not> bypassesGuard (pathname request) \<and> isProtectedRoute (pathname request)"
  then have na: "\<not> isAuthRoute (pathname request)" by (simp add: protected_not_auth)
  show "middleware env request date_now =
          (case map_of (cookies request) ACCESS_TOKEN_COOKIE of
             None \<Rightarrow> Redirect ''/login'' [(''redirect'', pathname request)]
           | Some t \<Rightarrow>
               if t \<noteq> [] \<and> valid (verifyTokenEdge env t date_now)
                    \<and> truthy (isVerifiedClaim (verifyTokenEdge env t date_now))
               then Next
               else Redirect ''/login'' [(''redirect'', pathname request)])"
    using h na by (auto simp: middleware_def Let_def split: option.splits)
next
  assume h: "\<not> bypassesGuard (pathname request) \<and> isAuthRoute (pathname request)"
  then have np: "\<not> isProtectedRoute (pathname request)" using protected_not_auth by blast
  show "middleware env request date_now =
          (case map_of (cookies request) ACCESS_TOKEN_COOKIE of
             None \<Rightarrow> Next
           | Some t \<Rightarrow>
               if t \<noteq> [] \<and> valid (verifyTokenEdge env t date_now)
                    \<and> truthy (isVerifiedClaim (verifyTokenEdge env t date_now))
               then Redirect ''/dashboard'' []
               else Next)"
    using h np by (auto simp: middleware_def Let_def split: option.splits)
qed

lemma example_paths:
  "\<not> bypassesGuard ''/dashboard''" "isProtectedRoute ''/dashboard''"
  "\<not> bypassesGuard ''/dashboard/settings''" "isProtectedRoute ''/dashboard/settings''"
  "\<not> bypassesGuard ''/login''" "isAuthRoute ''/login''"
  "bypassesGuard ''/_next/static/app.js''"
  "bypassesGuard ''/dashboard/report.pdf''" "isProtectedRoute ''/dashboard/report.pdf''"
  by (simp_all add: bypassesGuard_def isProtectedRoute_def isAuthRoute_def startsWith_def
      protectedRoutes_def authRoutes_def)

theorem middleware_decision_witness:
  "middleware example_env \<lparr>pathname = ''/dashboard/settings'', cookies = []\<rparr> 1000
     = Redirect ''/login'' [(''redirect'', ''/dashboard/settings'')]
   \<and> middleware example_env \<lparr>pathname = ''/dashboard'', cookies = [(''access_token'', ''not-a-token'')]\<rparr> 1000
     = Redirect ''/login'' [(''redirect'', ''/dashboard'')]
   \<and> middleware example_env
        \<lparr>pathname = ''/dashboard'',
         cookies = [(''access_token'', signAccessToken example_env (example_claims False) 0)]\<rparr> 1000
     = Redirect ''/login'' [(''redirect'', ''/dashboard'')]
   \<and> middleware example_env
        \<lparr>pathname = ''/dashboard'',
         cookies = [(''access_token'', signAccessToken example_env (example_claims True) 0)]\<rparr> 1000
     = Next
   \<and> middleware example_env
        \<lparr>pathname = ''/login'',
         cookies = [(''access_token'', signAccessToken example_env (example_claims True) 0)]\<rparr> 1000
     = Redirect ''/dashboard'' []
   \<and> middleware example_env
        \<lparr>pathname = ''/login'',
         cookies = [(''access_token'', signAccessToken example_env (example_claims False) 0)]\<rparr> 1000
     = Next
   \<and> middleware example_env \<lparr>pathname = ''/login'', cookies = []\<rparr> 1000 = Next
   \<and> middleware example_env \<lparr>pathname = ''/_next/static/app.js'', cookies = []\<rparr> 1000 = Next"
proof -
  let ?tok = "\<lambda>v. signAccessToken example_env (example_claims v) 0"
  have ne: "?tok v \<noteq> []" for v by (simp add: signAccessToken_def signToken_nonempty)
  have bad: "valid (verifyTokenEdge example_env ''not-a-token'' 1000) = False"
    by (simp add: verifyTokenEdge_def verifyTokenEdge_try_def split_def)
  note d = middleware_decision [where env = example_env and date_now = 1000]
  have 1: "middleware example_env \<lparr>pathname = ''/dashboard/settings'', cookies = []\<rparr> 1000
     = Redirect ''/login'' [(''redirect'', ''/dashboard/settings'')]"
    using d [of "\<lparr>pathname = ''/dashboard/settings'', cookies = []\<rparr>"]
    by (simp add: example_paths ACCESS_TOKEN_COOKIE_def)
  have 2: "middleware example_env \<lparr>pathname = ''/dashboard'', cookies = [(''access_token'', ''not-a-token'')]\<rparr> 1000
     = Redirect ''/login'' [(''redirect'', ''/dashboard'')]"
    using d [of "\<lparr>pathname = ''/dashboard'', cookies = [(''access_token'', ''not-a-token'')]\<rparr>"] bad
    by (simp add: example_paths ACCESS_TOKEN_COOKIE_def)
  have 3: "middleware example_env \<lparr>pathname = ''/dashboard'', cookies = [(''access_token'', ?tok False)]\<rparr> 1000
     = Redirect ''/login'' [(''redirect'', ''/dashboard'')]"
    using d [of "\<lparr>pathname = ''/dashboard'', cookies = [(''access_token'', ?tok False)]\<rparr>"]
    by (simp add: example_paths ACCESS_TOKEN_COOKIE_def verifyTokenEdge_example ne)
  have 4: "middleware example_env \<lparr>pathname = ''/dashboard'', cookies = [(''access_token'', ?tok True)]\<rparr> 1000
     = Next"
    using d [of "\<lparr>pathname = ''/dashboard'', cookies = [(''access_token'', ?tok True)]\<rparr>"]
    by (simp add: example_paths ACCESS_TOKEN_COOKIE_def verifyTokenEdge_example ne)
  have 5: "middleware example_env \<lparr>pathname = ''/login'', cookies = [(''access_token'', ?tok True)]\<rparr> 1000
     = Redirect ''/dashboard'' []"
    using d [of "\<lparr>pathname = ''/login'', cookies = [(''access_token'', ?tok True)]\<rparr>"]
    by (simp add: example_paths ACCESS_TOKEN_COOKIE_def verifyTokenEdge_example ne)
  have 6: "middleware example_env \<lparr>pathname = ''/login'', cookies = [(''access_token'', ?tok False)]\<rparr> 1000
     = Next"
    using d [of "\<lparr>pathname = ''/login'', cookies = [(''access_token'', ?tok False)]\<rparr>"]
    by (simp add: example_paths ACCESS_TOKEN_COOKIE_def verifyTokenEdge_example ne)
  have 7: "middleware example_env \<lparr>pathname = ''/login'', cookies = []\<rparr> 1000 = Next"
    using d [of "\<lparr>pathname = ''/login'', cookies = []\<rparr>"]
    by (simp add: example_paths ACCESS_TOKEN_COOKIE_def)
  have 8: "middleware example_env \<lparr>pathname = ''/_next/static/app.js'', cookies = []\<rparr> 1000 = Next"
    using d [of "\<lparr>pathname = ''/_next/static/app.js'', cookies = []\<rparr>"]
    by (simp add: example_paths)
  from 1 2 3 4 5 6 7 8 show ?thesis by blast
qed

text \<open>
  The claim as stated fails on a Protected path that contains a dot: without any cookie
  the request to \<open>/dashboard/report.pdf\<close> passes through.
\<close>

theorem middleware_protected_dot_counterexample:
  "isProtectedRoute ''/dashboard/report.pdf''
   \<and> map_of (cookies \<lparr>pathname = ''/dashboard/report.pdf'', cookies = []\<rparr>) ACCESS_TOKEN_COOKIE = None
   \<and> middleware example_env \<lparr>pathname = ''/dashboard/report.pdf'', cookies = []\<rparr> 1000 = Next"
  by (simp add: example_paths middleware_def)

subsection \<open>Token rotation\<close>

text \<open>
  Claim C1 (token rotation preserves identity). The refresh route rebuilds the payload
  from \<open>userId\<close>, \<open>email\<close> and \<open>role\<close> only. For every user \<open>u\<close> and every refresh
  token minted at login at time \<open>t0\<close> and presented, unexpired, at time \<open>t1\<close>: the
  presented token verifies and carries \<open>isVerified\<close>; \<open>refresh_POST\<close> answers 200 with
  a new access and refresh token minted at \<open>t1\<close> from the three rebuilt claims; both
  new tokens verify, and neither carries the \<open>isVerified\<close> claim of the login token.
  So the claims of the rotated pair are not those of the presented token: the
  verified flag is lost.
\<close>

theorem refresh_drops_verified_flag:
  assumes "0 \<le> t0" and "t0 \<le> t1"
    and "t1 div 1000 \<le> t0 div 1000 + parseDuration (JWT_REFRESH_EXPIRES_IN env) div 1000"
    and "t1 div 1000 + parseDuration (JWT_REFRESH_EXPIRES_IN env) div 1000 < 2 ^ 53"
    and "t1 div 1000 + parseDuration (JWT_EXPIRES_IN env) div 1000 < 2 ^ 53"
  shows "verifyToken env (signRefreshToken env (login_tokenPayload u) t0) t1
           = Some (JObj (minted_payload (login_tokenPayload u) (JWT_REFRESH_EXPIRES_IN env) t0))
         \<and> property (JObj (minted_payload (login_tokenPayload u) (JWT_REFRESH_EXPIRES_IN env) t0)) ''isVerified''
           = Some (JBool (isVerified u))
         \<and> refresh_POST env [(REFRESH_TOKEN_COOKIE, signRefreshToken env (login_tokenPayload u) t0)] t1
           = setAuthCookies env (json_response 200 True ''Token refreshed successfully'')
               (signAccessToken env (refreshed_tokenPayload u) t1)
               (signRefreshToken env (refreshed_tokenPayload u) t1)
         \<and> verifyToken env (signAccessToken env (refreshed_tokenPayload u) t1) t1
           = Some (JObj (minted_payload (refreshed_tokenPayload u) (JWT_EXPIRES_IN env) t1))
         \<and> verifyToken env (signRefreshToken env (refreshed_tokenPayload u) t1) t1
           = Some (JObj (minted_payload (refreshed_tokenPayload u) (JWT_REFRESH_EXPIRES_IN env) t1))
         \<and> property (JObj (minted_payload (refreshed_tokenPayload u) (JWT_EXPIRES_IN env) t1)) ''isVerified'' = None
         \<and> property (JObj (minted_payload (refreshed_tokenPayload u) (JWT_REFRESH_EXPIRES_IN env) t1)) ''isVerified'' = None"
proof -
  let ?r = "JWT_REFRESH_EXPIRES_IN env" and ?a = "JWT_EXPIRES_IN env"
  have t1: "0 \<le> t1" using assms(1,2) by simp
  have "t0 div 1000 \<le> t1 div 1000" using assms(2) by (simp add: zdiv_mono1)
  then have b0: "t0 div 1000 + parseDuration ?r div 1000 < 10 ^ 21"
    using assms(4) by (intro safe_bound) linarith
  have b1: "t1 div 1000 + parseDuration ?r div 1000 < 10 ^ 21"
    and b2: "t1 div 1000 + parseDuration ?a div 1000 < 10 ^ 21"
    using assms(4,5) by (auto intro: safe_bound)
  have old: "verifyToken env (signRefreshToken env (login_tokenPayload u) t0) t1
             = Some (JObj (minted_payload (login_tokenPayload u) ?r t0))"
    using assms(3)
    by (simp add: signRefreshToken_def verifyToken_signToken [OF login_tokenPayload_claim_set assms(1) b0])
  have props: "property (JObj (minted_payload (login_tokenPayload u) ?r t0)) ''userId'' = Some (JStr (user_id u))"
    "property (JObj (minted_payload (login_tokenPayload u) ?r t0)) ''email'' = Some (JStr (email u))"
    "property (JObj (minted_payload (login_tokenPayload u) ?r t0)) ''role'' = Some (JStr (role u))"
    "property (JObj (minted_payload (login_tokenPayload u) ?r t0)) ''isVerified'' = Some (JBool (isVerified u))"
    by (simp_all add: minted_payload_other login_tokenPayload_def)
  have ne: "signRefreshToken env (login_tokenPayload u) t0 \<noteq> []"
    by (simp add: signRefreshToken_def signToken_nonempty)
  have rebuilt: "defined_properties
          [(''userId'', Some (JStr (user_id u))), (''email'', Some (JStr (email u))),
           (''role'', Some (JStr (role u)))] = refreshed_tokenPayload u"
    by (simp add: defined_properties_def refreshed_tokenPayload_def List.map_filter_simps)
  have post: "refresh_POST env [(REFRESH_TOKEN_COOKIE, signRefreshToken env (login_tokenPayload u) t0)] t1
           = setAuthCookies env (json_response 200 True ''Token refreshed successfully'')
               (signAccessToken env (refreshed_tokenPayload u) t1)
               (signRefreshToken env (refreshed_tokenPayload u) t1)"
    by (simp add: refresh_POST_def old ne props rebuilt Let_def)
  have new_a: "verifyToken env (signAccessToken env (refreshed_tokenPayload u) t1) t1
           = Some (JObj (minted_payload (refreshed_tokenPayload u) ?a t1))"
    using parseDuration_nonneg [of ?a]
    by (simp add: signAccessToken_def verifyToken_signToken [OF refreshed_tokenPayload_claim_set t1 b2])
  have new_r: "verifyToken env (signRefreshToken env (refreshed_tokenPayload u) t1) t1
           = Some (JObj (minted_payload (refreshed_tokenPayload u) ?r t1))"
    using parseDuration_nonneg [of ?r]
    by (simp add: signRefreshToken_def verifyToken_signToken [OF refreshed_tokenPayload_claim_set t1 b1])
  have none: "property (JObj (minted_payload (refreshed_tokenPayload u) x t1)) ''isVerified'' = None" for x
    by (simp add: minted_payload_other refreshed_tokenPayload_def)
  show ?thesis
    using post new_a new_r none by (simp add: old props)
qed

theorem refresh_drops_verified_flag_witness:
  "verifyToken example_env (signRefreshToken example_env (login_tokenPayload example_user) 0) 60000
     = Some (JObj [(''userId'', JStr ''65a1f0c2''), (''email'', JStr ''ann@example.com''),
                   (''role'', JStr ''user''), (''isVerified'', JBool True),
                   (''iat'', JNum 0 0), (''exp'', JNum 604800 0)])
   \<and> refresh_POST example_env
        [(''refresh_token'', signRefreshToken example_env (login_tokenPayload example_user) 0)] 60000
     = \<lparr>status = 200, success = True, message = ''Token refreshed successfully'', errors = [],
         headers = [],
         setCookies =
           [\<lparr>cookieName = ''access_token'',
              cookieValue = signAccessToken example_env
                [(''userId'', JStr ''65a1f0c2''), (''email'', JStr ''ann@example.com''),
                 (''role'', JStr ''user'')] 60000,
              maxAge = 900\<rparr>,
            \<lparr>cookieName = ''refresh_token'',
              cookieValue = signRefreshToken example_env
                [(''userId'', JStr ''65a1f0c2''), (''email'', JStr ''ann@example.com''),
                 (''role'', JStr ''user'')] 60000,
              maxAge = 604800\<rparr>]\<rparr>
   \<and> verifyToken example_env
        (signAccessToken example_env
           [(''userId'', JStr ''65a1f0c2''), (''email'', JStr ''ann@example.com''),
            (''role'', JStr ''user'')] 60000) 60000
     = Some (JObj [(''userId'', JStr ''65a1f0c2''), (''email'', JStr ''ann@example.com''),
                   (''role'', JStr ''user''), (''iat'', JNum 60 0), (''exp'', JNum 960 0)])
   \<and> middleware example_env
        \<lparr>pathname = ''/dashboard'',
         cookies = [(''access_token'', signAccessToken example_env (login_tokenPayload example_user) 0)]\<rparr>
        60000
     = Next
   \<and> middleware example_env
        \<lparr>pathname = ''/dashboard'',
         cookies = [(''access_token'',
                    signAccessToken example_env
                      [(''userId'', JStr ''65a1f0c2''), (''email'', JStr ''ann@example.com''),
                       (''role'', JStr ''user'')] 60000)]\<rparr>
        60000
     = Redirect ''/login'' [(''redirect'', ''/dashboard'')]
   \<and> status (refresh_POST example_env [] 60000) = 401"
proof -
  let ?p3 = "[(''userId'', JStr ''65a1f0c2''), (''email'', JStr ''ann@example.com''), (''role'', JStr ''user'')]"
  have h: "(0::int) \<le> 0" "(0::int) \<le> 60000"
    "(60000::int) div 1000 \<le> 0 div 1000 + parseDuration (JWT_REFRESH_EXPIRES_IN example_env) div 1000"
    "(60000::int) div 1000 + parseDuration (JWT_REFRESH_EXPIRES_IN example_env) div 1000 < 2 ^ 53"
    "(60000::int) div 1000 + parseDuration (JWT_EXPIRES_IN example_env) div 1000 < 2 ^ 53"
    by (simp_all add: example_env_simps parseDuration_defaults)
  note r = refresh_drops_verified_flag [OF h, of example_user]
  have m_old: "minted_payload (example_claims True) ''7d'' 0
     = [(''userId'', JStr ''65a1f0c2''), (''email'', JStr ''ann@example.com''),
        (''role'', JStr ''user''), (''isVerified'', JBool True), (''iat'', JNum 0 0), (''exp'', JNum 604800 0)]"
    by (simp add: minted_payload_def example_claims_def parseDuration_defaults)
  have m_new: "minted_payload ?p3 ''15m'' 60000
     = [(''userId'', JStr ''65a1f0c2''), (''email'', JStr ''ann@example.com''),
        (''role'', JStr ''user''), (''iat'', JNum 60 0), (''exp'', JNum 960 0)]"
    by (simp add: minted_payload_def parseDuration_defaults)
  from r have 1: "verifyToken example_env (signRefreshToken example_env (login_tokenPayload example_user) 0) 60000
     = Some (JObj [(''userId'', JStr ''65a1f0c2''), (''email'', JStr ''ann@example.com''),
                   (''role'', JStr ''user''), (''isVerified'', JBool True),
                   (''iat'', JNum 0 0), (''exp'', JNum 604800 0)])"
    by (simp add: example_user_payloads example_env_simps m_old)
  from r have 2: "refresh_POST example_env
        [(''refresh_token'', signRefreshToken example_env (login_tokenPayload example_user) 0)] 60000
     = \<lparr>status = 200, success = True, message = ''Token refreshed successfully'', errors = [],
         headers = [],
         setCookies =
           [\<lparr>cookieName = ''access_token'', cookieValue = signAccessToken example_env ?p3 60000,
              maxAge = 900\<rparr>,
            \<lparr>cookieName = ''refresh_token'', cookieValue = signRefreshToken example_env ?p3 60000,
              maxAge = 604800\<rparr>]\<rparr>"
    by (simp add: example_user_payloads(2) REFRESH_TOKEN_COOKIE_def ACCESS_TOKEN_COOKIE_def
          setAuthCookies_def json_response_def example_env_simps parseDuration_defaults)
  from r have 3: "verifyToken example_env (signAccessToken example_env ?p3 60000) 60000
     = Some (JObj [(''userId'', JStr ''65a1f0c2''), (''email'', JStr ''ann@example.com''),
                   (''role'', JStr ''user''), (''iat'', JNum 60 0), (''exp'', JNum 960 0)])"
    by (simp add: example_user_payloads(2) example_env_simps m_new)
  have c3: "claim_set ?p3" by (simp add: claim_set_def)
  have a3: "ascii (JSON_stringify (JObj (minted_payload ?p3 ''15m'' 60000)))"
    by (simp add: ascii_def minted_payload_def parseDuration_defaults text_eval)
  have t_old: "verifyTokenEdge_try example_env (signToken example_env (example_claims True) ''15m'' 0) 60000
        = Inr \<lparr>valid = True, isVerifiedClaim =
                 property (JObj (minted_payload (example_claims True) ''15m'' 0)) ''isVerified''\<rparr>"
    by (subst verifyTokenEdge_try_signToken)
       (simp_all add: example_claims_set example_claims_text parseDuration_defaults example_env_simps
          del: JSON_stringify.simps)
  have p_old: "property (JObj (minted_payload (example_claims True) ''15m'' 0)) ''isVerified''
                 = Some (JBool True)"
    by (simp add: minted_payload_other example_claims_def)
  have e_old: "verifyTokenEdge example_env (signAccessToken example_env (login_tokenPayload example_user) 0) 60000
        = \<lparr>valid = True, isVerifiedClaim = Some (JBool True)\<rparr>"
    by (simp add: verifyTokenEdge_def signAccessToken_def example_env_simps example_user_payloads
          t_old p_old)
  have t_new: "verifyTokenEdge_try example_env (signToken example_env ?p3 ''15m'' 60000) 60000
        = Inr \<lparr>valid = True, isVerifiedClaim =
                 property (JObj (minted_payload ?p3 ''15m'' 60000)) ''isVerified''\<rparr>"
    by (subst verifyTokenEdge_try_signToken)
       (simp_all add: c3 a3 parseDuration_defaults example_env_simps del: JSON_stringify.simps)
  have p_new: "property (JObj (minted_payload ?p3 ''15m'' 60000)) ''isVerified'' = None"
    by (simp add: minted_payload_other)
  have e_new: "verifyTokenEdge example_env (signAccessToken example_env ?p3 60000) 60000
        = \<lparr>valid = True, isVerifiedClaim = None\<rparr>"
    by (simp add: verifyTokenEdge_def signAccessToken_def example_env_simps t_new p_new)
  have ne: "signAccessToken example_env x t \<noteq> []" for x t
    by (simp add: signAccessToken_def signToken_nonempty)
  have 4: "middleware example_env
        \<lparr>pathname = ''/dashboard'',
         cookies = [(''access_token'', signAccessToken example_env (login_tokenPayload example_user) 0)]\<rparr>
        60000 = Next"
    by (simp add: middleware_def example_paths protected_not_auth ACCESS_TOKEN_COOKIE_def e_old ne)
  have 5: "middleware example_env
        \<lparr>pathname = ''/dashboard'',
         cookies = [(''access_token'', signAccessToken example_env ?p3 60000)]\<rparr> 60000
     = Redirect ''/login'' [(''redirect'', ''/dashboard'')]"
    by (simp add: middleware_def example_paths ACCESS_TOKEN_COOKIE_def e_new ne)
  have 6: "status (refresh_POST example_env [] 60000) = 401"
    by (simp add: refresh_POST_def json_response_def)
  from 1 2 3 4 5 6 show ?thesis by blast
qed

subsection \<open>The two verifiers\<close>

lemma verifiers_agree_on_ascii:
  assumes "JWT_SECRET_env env = Some secret" and "secret \<noteq> []"
    and "\<forall>h p s. split CHR ''.'' token = [h, p, s] \<longrightarrow>
           set p \<subseteq> set b64url_alphabet \<and> length p mod 4 \<noteq> 1 \<and> ascii (base64urlDecode p)"
  shows "valid (verifyTokenEdge env token date_now) \<longleftrightarrow> verifyToken env token date_now \<noteq> None"
proof (cases "\<exists>h p s. split CHR ''.'' token = [h, p, s]")
  case False
  then have "verifyToken_try env token date_now = Inr None"
    by (auto simp: verifyToken_try_def split: list.splits)
  moreover from False have "verifyTokenEdge_try env token date_now
                            = Inr \<lparr>valid = False, isVerifiedClaim = None\<rparr>"
    by (auto simp: verifyTokenEdge_try_def split: list.splits)
  ultimately show ?thesis by (simp add: verifyToken_def verifyTokenEdge_def)
next
  case True
  then obtain h p s where sp: "split CHR ''.'' token = [h, p, s]" by blast
  with assms(3) have wf: "set p \<subseteq> set b64url_alphabet" "length p mod 4 \<noteq> 1"
    and asc: "ascii (base64urlDecode p)" by auto
  have k1: "JWT_SECRET env = secret" using assms(1,2) by (simp add: JWT_SECRET_def env_or_def)
  have k2: "env_or (JWT_SECRET_env env) ''fallback-secret'' = secret"
    using assms(1,2) by (simp add: env_or_def)
  have dec: "atob (replace_char CHR ''_'' CHR ''/'' (replace_char CHR ''-'' CHR ''+'' p))
             = Inr (base64urlDecode p)"
    by (simp add: atob_agrees_with_Buffer [OF wf] binary_string_ascii [OF asc])
  show ?thesis
    unfolding verifyToken_def verifyTokenEdge_def verifyToken_try_def verifyTokenEdge_try_def
      sp k1 k2 Let_def
    by (auto simp: dec createSignature_def get_property_def split: sum.splits)
qed

text \<open>
  Claim C2 (the two token verifiers are equivalent). The claim fails in both
  directions, with one shared secret. For every header segment and every time up to
  the expiry, the token whose payload segment carries a dangling character, correctly
  signed, is accepted by \<open>verifyToken\<close> (\<open>Buffer.from\<close> ignores the character) and
  rejected by \<open>verifyTokenEdge\<close> (\<open>atob\<close> throws). For every header segment and every
  time after second 5, the correctly signed token whose \<open>exp\<close> is the string of a no-break
  space and the digit 5 is rejected by \<open>verifyToken\<close>, which reads the payload as UTF-8
  and converts the string to the number 5, and accepted by \<open>verifyTokenEdge\<close>, which
  reads each byte as one character and converts the string to \<open>NaN\<close>.
\<close>

theorem verifiers_disagree:
  assumes "JWT_SECRET_env env = Some secret" and "secret \<noteq> []" and "CHR ''.'' \<notin> set h"
  shows "JWT_SECRET env = env_or (JWT_SECRET_env env) ''fallback-secret''
         \<and> (date_now div 1000 \<le> 9999999999 \<longrightarrow>
               verifyToken env (signed_token env h dangling_payload) date_now
                 = Some (JObj [(''exp'', JNum 9999999999 0)])
               \<and> \<not> valid (verifyTokenEdge env (signed_token env h dangling_payload) date_now))
         \<and> (5 < date_now div 1000 \<longrightarrow>
               verifyToken env (signed_token env h nbsp_payload) date_now = None
               \<and> valid (verifyTokenEdge env (signed_token env h nbsp_payload) date_now))"
proof (intro conjI impI)
  show k: "JWT_SECRET env = env_or (JWT_SECRET_env env) ''fallback-secret''"
    using assms(1,2) by (simp add: JWT_SECRET_def env_or_def)
  have spd: "split CHR ''.'' (signed_token env h dangling_payload)
             = [h, dangling_payload, createSignature (h @ ''.'' @ dangling_payload) (JWT_SECRET env)]"
    using assms(3) by (intro split_signed_token) (simp_all add: dangling_payload_def)
  have spn: "split CHR ''.'' (signed_token env h nbsp_payload)
             = [h, nbsp_payload, createSignature (h @ ''.'' @ nbsp_payload) (JWT_SECRET env)]"
    using assms(3) by (intro split_signed_token) (simp_all add: nbsp_payload_def)
  show "\<not> valid (verifyTokenEdge env (signed_token env h dangling_payload) date_now)"
    unfolding verifyTokenEdge_def verifyTokenEdge_try_def spd Let_def
    by (simp add: dangling_payload_def atob_trailing)
  show "valid (verifyTokenEdge env (signed_token env h nbsp_payload) date_now)"
    unfolding verifyTokenEdge_def verifyTokenEdge_try_def spn Let_def k [symmetric]
    by (simp add: nbsp_payload_def atob_nbsp parse_nbsp_binary get_property_def property_def
          less_nbsp_binary createSignature_def)
  {
    assume "date_now div 1000 \<le> 9999999999"
    then show "verifyToken env (signed_token env h dangling_payload) date_now
                 = Some (JObj [(''exp'', JNum 9999999999 0)])"
      unfolding verifyToken_def verifyToken_try_def spd
      by (simp add: dangling_payload_def decode_exp_only_trailing parse_exp_only get_property_def
            property_def less_than_integer_int)
  }
  {
    assume "5 < date_now div 1000"
    then show "verifyToken env (signed_token env h nbsp_payload) date_now = None"
      unfolding verifyToken_def verifyToken_try_def spn
      by (simp add: nbsp_payload_def decode_nbsp parse_nbsp get_property_def property_def less_nbsp)
  }
qed

theorem verifiers_disagree_witness:
  "JWT_SECRET example_env = env_or (JWT_SECRET_env example_env) ''fallback-secret''
   \<and> verifyToken example_env (signed_token example_env example_header dangling_payload) 6000000
       = Some (JObj [(''exp'', JNum 9999999999 0)])
   \<and> \<not> valid (verifyTokenEdge example_env (signed_token example_env example_header dangling_payload) 6000000)
   \<and> verifyToken example_env (signed_token example_env example_header nbsp_payload) 6000000 = None
   \<and> valid (verifyTokenEdge example_env (signed_token example_env example_header nbsp_payload) 6000000)"
proof -
  have 1: "JWT_SECRET_env example_env = Some ''0123456789abcdef''" "''0123456789abcdef'' \<noteq> []"
    by (simp_all add: example_env_def)
  from verifiers_disagree [OF 1 example_header_no_dot, of 6000000]
  show ?thesis by simp
qed

subsection \<open>Malformed tokens\<close>

text \<open>
  Claim C4 (malformed-token totality), as amended. \<open>verifyToken\<close> is a total
  function into an optional payload: every exception raised inside the \<open>try\<close> block
  becomes null. It returns null for every string that does not split into exactly
  three dot-separated parts, for every three-part token whose second or third part
  is empty or whose third part differs from the recomputed signature over the first
  two, whenever decoding the payload raises an exception, and whenever anything in
  the \<open>try\<close> block raises.
\<close>

theorem verifyToken_total:
  "(length (split CHR ''.'' token) \<noteq> 3 \<longrightarrow> verifyToken env token date_now = None)
   \<and> (\<forall>h p s. split CHR ''.'' token = [h, p, s]
          \<and> (p = [] \<or> s = [] \<or> s \<noteq> createSignature (h @ ''.'' @ p) (JWT_SECRET env))
        \<longrightarrow> verifyToken env token date_now = None)
   \<and> (\<forall>h p s e. split CHR ''.'' token = [h, p, s] \<and> JSON_parse (base64urlDecode p) = Inl e
        \<longrightarrow> verifyToken env token date_now = None)
   \<and> (\<forall>e. verifyToken_try env token date_now = Inl e \<longrightarrow> verifyToken env token date_now = None)"
proof (intro conjI allI impI)
  assume "length (split CHR ''.'' token) \<noteq> 3"
  then have "verifyToken_try env token date_now = Inr None"
    by (auto simp: verifyToken_try_def split: list.splits)
  then show "verifyToken env token date_now = None" by (simp add: verifyToken_def)
next
  fix h p s
  assume a: "split CHR ''.'' token = [h, p, s]
          \<and> (p = [] \<or> s = [] \<or> s \<noteq> createSignature (h @ ''.'' @ p) (JWT_SECRET env))"
  show "verifyToken env token date_now = None"
  proof (cases "s = createSignature (h @ ''.'' @ p) (JWT_SECRET env)")
    case True
    with a have "p = []" using createSignature_nonempty by auto
    with a True show ?thesis
      by (simp add: verifyToken_def verifyToken_try_def base64urlDecode_empty JSON_parse_empty)
  next
    case False
    with a show ?thesis by (simp add: verifyToken_def verifyToken_try_def)
  qed
next
  fix h p s e
  assume "split CHR ''.'' token = [h, p, s] \<and> JSON_parse (base64urlDecode p) = Inl e"
  then show "verifyToken env token date_now = None"
    by (simp add: verifyToken_def verifyToken_try_def)
next
  fix e
  assume "verifyToken_try env token date_now = Inl e"
  then show "verifyToken env token date_now = None" by (simp add: verifyToken_def)
qed

theorem verifyToken_total_witness:
  "verifyToken example_env ''only.two'' 0 = None
   \<and> verifyToken example_env ''a.b.c.d'' 0 = None
   \<and> verifyToken example_env ''a.b.c'' 0 = None
   \<and> verifyToken example_env (''a..'' @ createSignature ''a.'' (JWT_SECRET example_env)) 0 = None
   \<and> verifyToken example_env (''x.YQ.'' @ createSignature ''x.YQ'' (JWT_SECRET example_env)) 0 = None"
proof -
  note t = verifyToken_total [where env = example_env and date_now = 0]
  have 1: "verifyToken example_env ''only.two'' 0 = None"
    using t [of "''only.two''"] by (simp add: split_def)
  have 2: "verifyToken example_env ''a.b.c.d'' 0 = None"
    using t [of "''a.b.c.d''"] by (simp add: split_def)
  have "''c'' \<noteq> createSignature ''a.b'' (JWT_SECRET example_env)"
  proof
    assume "''c'' = createSignature ''a.b'' (JWT_SECRET example_env)"
    then have "length ''c'' = length (createSignature ''a.b'' (JWT_SECRET example_env))" by simp
    then show False by (simp add: length_createSignature)
  qed
  moreover have "split CHR ''.'' ''a.b.c'' = [''a'', ''b'', ''c'']" by (simp add: split_def)
  ultimately have 3: "verifyToken example_env ''a.b.c'' 0 = None"
    using t [of "''a.b.c''"] by simp
  have "split CHR ''.'' (''a..'' @ createSignature ''a.'' (JWT_SECRET example_env))
        = [''a'', [], createSignature ''a.'' (JWT_SECRET example_env)]"
    using split_three [of "''a''" "[]" "createSignature ''a.'' (JWT_SECRET example_env)"]
    by (simp add: createSignature_no_dot)
  then have 4: "verifyToken example_env (''a..'' @ createSignature ''a.'' (JWT_SECRET example_env)) 0 = None"
    using t [of "''a..'' @ createSignature ''a.'' (JWT_SECRET example_env)"] by simp
  have "split CHR ''.'' (''x.YQ.'' @ createSignature ''x.YQ'' (JWT_SECRET example_env))
        = [''x'', ''YQ'', createSignature ''x.YQ'' (JWT_SECRET example_env)]"
    using split_three [of "''x''" "''YQ''" "createSignature ''x.YQ'' (JWT_SECRET example_env)"]
    by (simp add: createSignature_no_dot)
  moreover have "JSON_parse (base64urlDecode ''YQ'') = Inl SyntaxError"
    by (simp add: base64_eval json_eval)
  ultimately have 5: "verifyToken example_env (''x.YQ.'' @ createSignature ''x.YQ'' (JWT_SECRET example_env)) 0 = None"
    using t [of "''x.YQ.'' @ createSignature ''x.YQ'' (JWT_SECRET example_env)"] by simp
  from 1 2 3 4 5 show ?thesis by blast
qed

text \<open>
  The claim C4 as stated fails for an empty first part. \<open>verifyToken\<close> tests only
  that there are three parts; a token with an empty header, a payload segment and the
  signature of \<open>.payload\<close> is accepted.
\<close>

theorem verifyToken_empty_header_counterexample:
  "split CHR ''.'' (''.eyJleHAiOjk5OTk5OTk5OTl9.''
        @ createSignature ''.eyJleHAiOjk5OTk5OTk5OTl9'' (JWT_SECRET example_env))
     = [[], ''eyJleHAiOjk5OTk5OTk5OTl9'',
        createSignature ''.eyJleHAiOjk5OTk5OTk5OTl9'' (JWT_SECRET example_env)]
   \<and> verifyToken example_env
        (''.eyJleHAiOjk5OTk5OTk5OTl9.''
           @ createSignature ''.eyJleHAiOjk5OTk5OTk5OTl9'' (JWT_SECRET example_env)) 0
     = Some (JObj [(''exp'', JNum 9999999999 0)])"
proof -
  let ?p = "''eyJleHAiOjk5OTk5OTk5OTl9''"
  let ?s = "createSignature ''.eyJleHAiOjk5OTk5OTk5OTl9'' (JWT_SECRET example_env)"
  have sp: "split CHR ''.'' (''.eyJleHAiOjk5OTk5OTk5OTl9.'' @ ?s) = [[], ?p, ?s]"
    using split_three [of "[]" ?p ?s] by (simp add: createSignature_no_dot)
  show ?thesis
    unfolding verifyToken_def verifyToken_try_def sp
    by (simp add: decode_exp_only parse_exp_only get_property_def property_def
          less_than_integer_int)
qed

subsection \<open>Forgot password\<close>

text \<open>
  Claim C7 (forgot-password anti-enumeration). For every request with a non-empty
  email field that the rate limiter allows, the response is the same generic 200
  success envelope in any two runs, whatever the user stores hold. In the run where no
  account has that email, the user store and the outbox are unchanged; in the run
  where an account \<open>u\<close> has it, the record of \<open>u\<close> receives the SHA-256 digest of the
  generated token, in hexadecimal, and an expiry one hour after the current time, and
  one password-reset mail carrying the raw token is sent to \<open>u\<close>. The account is looked
  up by the lower-case form of the email, as the platform computes it.
\<close>

theorem forgot_password_anti_enumeration:
  assumes "email_in \<noteq> []"
    and "allowed (fst (checkRateLimit (getRateLimitKey (env_or forwarded_for ''unknown'') ''passwordReset'')
                         RATE_LIMIT_CONFIGS_passwordReset date_now (rateLimitStore s)))"
    and "allowed (fst (checkRateLimit (getRateLimitKey (env_or forwarded_for' ''unknown'') ''passwordReset'')
                         RATE_LIMIT_CONFIGS_passwordReset date_now' (rateLimitStore s')))"
  shows "fst (forgot_password_POST P forwarded_for (Some email_in) generated_token date_now s)
           = fst (forgot_password_POST P forwarded_for' (Some email_in) generated_token' date_now' s')
         \<and> fst (forgot_password_POST P forwarded_for (Some email_in) generated_token date_now s)
           = json_response 200 True
               ''If an account exists with that email, a password reset link has been sent.''
         \<and> (User_findOne (\<lambda>u. email u = toLowerCase P email_in) (users s) = None \<longrightarrow>
              users (snd (forgot_password_POST P forwarded_for (Some email_in) generated_token date_now s))
                = users s
              \<and> outbox (snd (forgot_password_POST P forwarded_for (Some email_in) generated_token date_now s))
                = outbox s)
         \<and> (\<forall>u. User_findOne (\<lambda>u. email u = toLowerCase P email_in) (users s) = Some u \<longrightarrow>
              users (snd (forgot_password_POST P forwarded_for (Some email_in) generated_token date_now s))
                = replace_user (u\<lparr>resetPasswordToken := Some (hex (sha256 generated_token)),
                                   resetPasswordExpires := Some (date_now + 3600000),
                                   updatedAt := date_now\<rparr>) (users s)
              \<and> outbox (snd (forgot_password_POST P forwarded_for (Some email_in) generated_token date_now s))
                = outbox s @ [\<lparr>recipient = email u, recipientName = name u,
                                kind = PasswordResetEmail, rawToken = generated_token\<rparr>])"
proof -
  have resp: "fst (forgot_password_POST P ff (Some email_in) tok now st) = generic_reset_response"
    if "allowed (fst (checkRateLimit (getRateLimitKey (env_or ff ''unknown'') ''passwordReset'')
                         RATE_LIMIT_CONFIGS_passwordReset now (rateLimitStore st)))"
    for ff tok now st
    using that assms(1)
    by (simp add: forgot_password_POST_def Let_def split_beta split: option.splits)
  have none: "users (snd (forgot_password_POST P forwarded_for (Some email_in) generated_token date_now s))
                = users s
              \<and> outbox (snd (forgot_password_POST P forwarded_for (Some email_in) generated_token date_now s))
                = outbox s"
    if "User_findOne (\<lambda>u. email u = toLowerCase P email_in) (users s) = None"
    using that assms(1,2)
    by (simp add: forgot_password_POST_def Let_def split_beta)
  have some: "users (snd (forgot_password_POST P forwarded_for (Some email_in) generated_token date_now s))
                = replace_user (u\<lparr>resetPasswordToken := Some (hex (sha256 generated_token)),
                                   resetPasswordExpires := Some (date_now + 3600000),
                                   updatedAt := date_now\<rparr>) (users s)
              \<and> outbox (snd (forgot_password_POST P forwarded_for (Some email_in) generated_token date_now s))
                = outbox s @ [\<lparr>recipient = email u, recipientName = name u,
                                kind = PasswordResetEmail, rawToken = generated_token\<rparr>]"
    if "User_findOne (\<lambda>u. email u = toLowerCase P email_in) (users s) = Some u" for u
    using that assms(1,2)
    by (simp add: forgot_password_POST_def hashToken_def Let_def split_beta User_save_unmodified
          sendPasswordResetEmail_def)
  show ?thesis
    using resp [OF assms(2)] resp [OF assms(3)] none some
    by (simp add: generic_reset_response_def)
qed

theorem forgot_password_anti_enumeration_witness:
  "fst (forgot_password_POST example_platform None (Some ''Ann@Example.com'') ''r3s3t'' 5000
          (example_state [example_user]))
     = fst (forgot_password_POST example_platform None (Some ''Ann@Example.com'') ''r3s3t'' 5000
          (example_state []))
   \<and> status (fst (forgot_password_POST example_platform None (Some ''Ann@Example.com'') ''r3s3t'' 5000
          (example_state [example_user]))) = 200
   \<and> users (snd (forgot_password_POST example_platform None (Some ''Ann@Example.com'') ''r3s3t'' 5000
          (example_state [example_user])))
     = [example_user\<lparr>resetPasswordToken :=
                      Some ''a4f43cb2ebe7536a321e7e29decfabff15b159d7bff43f04f5daff9778ee971b'',
                      resetPasswordExpires := Some 3605000, updatedAt := 5000\<rparr>]
   \<and> outbox (snd (forgot_password_POST example_platform None (Some ''Ann@Example.com'') ''r3s3t'' 5000
          (example_state [example_user])))
     = [\<lparr>recipient = ''ann@example.com'', recipientName = ''Ann'',
         kind = PasswordResetEmail, rawToken = ''r3s3t''\<rparr>]
   \<and> users (snd (forgot_password_POST example_platform None (Some ''Ann@Example.com'') ''r3s3t'' 5000
          (example_state []))) = []
   \<and> outbox (snd (forgot_password_POST example_platform None (Some ''Ann@Example.com'') ''r3s3t'' 5000
          (example_state []))) = []"
proof -
  have f1: "User_findOne (\<lambda>u. email u = toLowerCase example_platform ''Ann@Example.com'') (users (example_state [example_user]))
            = Some example_user"
    by (simp add: User_findOne_def example_state_def toLowerCase_example example_user_def)
  have f0: "User_findOne (\<lambda>u. email u = toLowerCase example_platform ''Ann@Example.com'') (users (example_state []))
            = None"
    by (simp add: User_findOne_def example_state_def)
  have a: "allowed (fst (checkRateLimit (getRateLimitKey (env_or None ''unknown'') ''passwordReset'')
                         RATE_LIMIT_CONFIGS_passwordReset 5000 (rateLimitStore (example_state us))))" for us
    by (simp add: example_state_def fresh_allowed)
  have ne: "''Ann@Example.com'' \<noteq> []" by simp
  note w1 = forgot_password_anti_enumeration [OF ne a [of "[example_user]"] a [of "[]"],
      where P = example_platform and generated_token = "''r3s3t''" and generated_token' = "''r3s3t''"]
  note w0 = forgot_password_anti_enumeration [OF ne a [of "[]"] a [of "[]"],
      where P = example_platform and generated_token = "''r3s3t''" and generated_token' = "''r3s3t''"]
  let ?run1 = "forgot_password_POST example_platform None (Some ''Ann@Example.com'') ''r3s3t'' 5000
          (example_state [example_user])"
  let ?run0 = "forgot_password_POST example_platform None (Some ''Ann@Example.com'') ''r3s3t'' 5000
          (example_state [])"
  from w1 have 1: "fst ?run1 = fst ?run0" by blast
  from w1 have "fst ?run1 = json_response 200 True
               ''If an account exists with that email, a password reset link has been sent.''"
    by blast
  then have 2: "status (fst ?run1) = 200" by (simp add: json_response_def)
  from w1 f1 have u1: "users (snd ?run1)
      = replace_user (example_user\<lparr>resetPasswordToken := Some (hex (sha256 ''r3s3t'')),
                                   resetPasswordExpires := Some (5000 + 3600000),
                                   updatedAt := 5000\<rparr>) (users (example_state [example_user]))"
    and o1: "outbox (snd ?run1)
      = outbox (example_state [example_user])
          @ [\<lparr>recipient = email example_user, recipientName = name example_user,
               kind = PasswordResetEmail, rawToken = ''r3s3t''\<rparr>]"
    by blast+
  from u1 have 3: "users (snd ?run1)
     = [example_user\<lparr>resetPasswordToken :=
                      Some ''a4f43cb2ebe7536a321e7e29decfabff15b159d7bff43f04f5daff9778ee971b'',
                      resetPasswordExpires := Some 3605000, updatedAt := 5000\<rparr>]"
    by (simp add: replace_user_def example_state_def r3s3t_hex_sha256)
  from o1 have 4: "outbox (snd ?run1)
     = [\<lparr>recipient = ''ann@example.com'', recipientName = ''Ann'',
         kind = PasswordResetEmail, rawToken = ''r3s3t''\<rparr>]"
    by (simp add: example_state_def example_user_def)
  from w0 f0 have "users (snd ?run0) = users (example_state [])"
    and "outbox (snd ?run0) = outbox (example_state [])"
    by blast+
  then have 5: "users (snd ?run0) = []" and 6: "outbox (snd ?run0) = []"
    by (simp_all add: example_state_def)
  from 1 2 3 4 5 6 show ?thesis by blast
qed

subsection \<open>Reset password\<close>

text \<open>
  Claim C8 (reset-password contract). The endpoint answers 200 exactly when the token
  is present, the new password has a \<open>length\<close> of at least 8, and some user's stored
  \<open>resetPasswordToken\<close> equals the SHA-256 digest of the presented token, in
  hexadecimal, while the current time is strictly before that user's
  \<open>resetPasswordExpires\<close>. Every other answer is a 400
  and leaves the whole state, so every user record, unchanged. On success the record
  of the matching user has both reset fields cleared and its password set to the
  bcrypt hash of the new password, as computed by the pre-save hook.
\<close>

theorem reset_password_contract:
  "(status (fst (reset_password_POST P (Some token) (Some new_password) generated_salt date_now s)) = 200
      \<longleftrightarrow> token \<noteq> [] \<and> 8 \<le> String_length new_password
            \<and> (\<exists>u \<in> set (users s). resetPasswordToken u = Some (hex (sha256 token))
                   \<and> (\<exists>t. resetPasswordExpires u = Some t \<and> date_now < t)))
   \<and> (status (fst (reset_password_POST P (Some token) (Some new_password) generated_salt date_now s)) \<noteq> 200
      \<longrightarrow> status (fst (reset_password_POST P (Some token) (Some new_password) generated_salt date_now s)) = 400
          \<and> snd (reset_password_POST P (Some token) (Some new_password) generated_salt date_now s) = s)
   \<and> (status (fst (reset_password_POST P (Some token) (Some new_password) generated_salt date_now s)) = 200
      \<longrightarrow> (\<exists>u. User_findOne (reset_query token date_now) (users s) = Some u
               \<and> snd (reset_password_POST P (Some token) (Some new_password) generated_salt date_now s)
                 = s\<lparr>users := replace_user
                        (u\<lparr>password := bcrypt_hash P new_password generated_salt,
                           resetPasswordToken := None, resetPasswordExpires := None,
                           updatedAt := date_now\<rparr>) (users s)\<rparr>))"
proof -
  let ?r = "reset_password_POST P (Some token) (Some new_password) generated_salt date_now s"
  let ?ok = "token \<noteq> [] \<and> 8 \<le> String_length new_password"
  have q: "(\<exists>u \<in> set (users s). resetPasswordToken u = Some (hex (sha256 token))
                   \<and> (\<exists>t. resetPasswordExpires u = Some t \<and> date_now < t))
           \<longleftrightarrow> User_findOne (reset_query token date_now) (users s) \<noteq> None"
    by (auto simp: User_findOne_None reset_query_def split: option.splits)
  have bad: "status (fst ?r) = 400 \<and> snd ?r = s" if "\<not> ?ok"
    using that by (auto simp: reset_password_POST_def json_response_def Let_def String_length_def)
  have nomatch: "status (fst ?r) = 400 \<and> snd ?r = s"
    if "?ok" "User_findOne (reset_query token date_now) (users s) = None"
    using that
    by (auto simp: reset_password_POST_def json_response_def Let_def reset_query_find String_length_def)
  have match: "status (fst ?r) = 200
      \<and> snd ?r = s\<lparr>users := replace_user
                        (u\<lparr>password := bcrypt_hash P new_password generated_salt,
                           resetPasswordToken := None, resetPasswordExpires := None,
                           updatedAt := date_now\<rparr>) (users s)\<rparr>"
    if "?ok" "User_findOne (reset_query token date_now) (users s) = Some u" for u
  proof -
    have eq: "u\<lparr>resetPasswordToken := None, resetPasswordExpires := None,
            password := bcrypt_hash P new_password generated_salt, updatedAt := date_now\<rparr>
          = u\<lparr>password := bcrypt_hash P new_password generated_salt,
              resetPasswordToken := None, resetPasswordExpires := None, updatedAt := date_now\<rparr>"
      by (rule User.equality) simp_all
    show ?thesis
      using that
      by (auto simp: reset_password_POST_def json_response_def Let_def reset_query_find
            User_save_modified eq String_length_def)
  qed
  show ?thesis
  proof (cases "?ok")
    case False
    with bad show ?thesis by auto
  next
    case True
    show ?thesis
    proof (cases "User_findOne (reset_query token date_now) (users s)")
      case None
      with nomatch [OF True] q show ?thesis by simp
    next
      case (Some u)
      with match [OF True Some] q True show ?thesis by simp
    qed
  qed
qed

theorem reset_password_contract_witness:
  "status (fst (reset_password_POST example_platform (Some ''r3s3t'') (Some ''correct horse'') ''salt''
                  3604999 (example_state [example_reset_user]))) = 200
   \<and> snd (reset_password_POST example_platform (Some ''r3s3t'') (Some ''correct horse'') ''salt''
                  3604999 (example_state [example_reset_user]))
     = example_state [example_user\<lparr>password := ''$2a$12$saltesroh tcerroc'', updatedAt := 3604999\<rparr>]
   \<and> status (fst (reset_password_POST example_platform (Some ''r3s3t'') (Some ''correct horse'') ''salt''
                  3605000 (example_state [example_reset_user]))) = 400
   \<and> snd (reset_password_POST example_platform (Some ''r3s3t'') (Some ''correct horse'') ''salt''
                  3605000 (example_state [example_reset_user]))
     = example_state [example_reset_user]
   \<and> status (fst (reset_password_POST example_platform (Some ''r3s3t'') (Some ''correct horse'') ''salt''
                  3604999 (example_state [example_user]))) = 400
   \<and> snd (reset_password_POST example_platform (Some ''r3s3t'') (Some ''correct horse'') ''salt''
                  3604999 (example_state [example_user]))
     = example_state [example_user]
   \<and> String_length [CHR 0xC3, CHR 0xA9, CHR 0xC3, CHR 0xA9, CHR 0xC3, CHR 0xA9, CHR 0xC3, CHR 0xA9, CHR 0xC3, CHR 0xA9] = 5
   \<and> status (fst (reset_password_POST example_platform (Some ''r3s3t'')
                  (Some [CHR 0xC3, CHR 0xA9, CHR 0xC3, CHR 0xA9, CHR 0xC3, CHR 0xA9, CHR 0xC3, CHR 0xA9, CHR 0xC3, CHR 0xA9])
                  ''salt'' 3604999 (example_state [example_reset_user]))) = 400
   \<and> snd (reset_password_POST example_platform (Some ''r3s3t'')
                  (Some [CHR 0xC3, CHR 0xA9, CHR 0xC3, CHR 0xA9, CHR 0xC3, CHR 0xA9, CHR 0xC3, CHR 0xA9, CHR 0xC3, CHR 0xA9])
                  ''salt'' 3604999 (example_state [example_reset_user]))
     = example_state [example_reset_user]"
proof -
  let ?short = "reset_password_POST example_platform (Some ''r3s3t'')
                  (Some [CHR 0xC3, CHR 0xA9, CHR 0xC3, CHR 0xA9, CHR 0xC3, CHR 0xA9, CHR 0xC3, CHR 0xA9, CHR 0xC3, CHR 0xA9])
                  ''salt'' 3604999 (example_state [example_reset_user])"
  note sh = reset_password_contract [of example_platform "''r3s3t''"
              "[CHR 0xC3, CHR 0xA9, CHR 0xC3, CHR 0xA9, CHR 0xC3, CHR 0xA9, CHR 0xC3, CHR 0xA9, CHR 0xC3, CHR 0xA9]"
              "''salt''" 3604999 "example_state [example_reset_user]"]
  have 7: "String_length [CHR 0xC3, CHR 0xA9, CHR 0xC3, CHR 0xA9, CHR 0xC3, CHR 0xA9, CHR 0xC3, CHR 0xA9, CHR 0xC3, CHR 0xA9] = 5"
    by (simp add: String_length_def)
  from sh have "status (fst ?short) \<noteq> 200"
    by (simp add: String_length_def)
  with sh have 8: "status (fst ?short) = 400" and 9: "snd ?short = example_state [example_reset_user]"
    by blast+
  let ?good = "reset_password_POST example_platform (Some ''r3s3t'') (Some ''correct horse'') ''salt''
                  3604999 (example_state [example_reset_user])"
  let ?late = "reset_password_POST example_platform (Some ''r3s3t'') (Some ''correct horse'') ''salt''
                  3605000 (example_state [example_reset_user])"
  let ?none = "reset_password_POST example_platform (Some ''r3s3t'') (Some ''correct horse'') ''salt''
                  3604999 (example_state [example_user])"
  note g = reset_password_contract [of example_platform "''r3s3t''" "''correct horse''" "''salt''"
              3604999 "example_state [example_reset_user]"]
  note l = reset_password_contract [of example_platform "''r3s3t''" "''correct horse''" "''salt''"
              3605000 "example_state [example_reset_user]"]
  note n = reset_password_contract [of example_platform "''r3s3t''" "''correct horse''" "''salt''"
              3604999 "example_state [example_user]"]
  have fg: "User_findOne (reset_query ''r3s3t'' 3604999) (users (example_state [example_reset_user]))
            = Some example_reset_user"
    by (simp add: User_findOne_def reset_query_def example_state_def example_reset_user_def
          r3s3t_hex_sha256)
  from g have 1: "status (fst ?good) = 200"
    by (simp add: example_state_def example_reset_user_def r3s3t_hex_sha256 String_length_def)
  with g fg have "snd ?good = (example_state [example_reset_user])\<lparr>users := replace_user
                        (example_reset_user\<lparr>password := bcrypt_hash example_platform ''correct horse'' ''salt'',
                           resetPasswordToken := None, resetPasswordExpires := None,
                           updatedAt := 3604999\<rparr>) (users (example_state [example_reset_user]))\<rparr>"
    by simp
  then have 2: "snd ?good
     = example_state [example_user\<lparr>password := ''$2a$12$saltesroh tcerroc'', updatedAt := 3604999\<rparr>]"
    by (simp add: example_state_def example_reset_user_def example_user_def replace_user_def
          example_platform_def example_bcrypt_def)
  from l have "status (fst ?late) \<noteq> 200"
    by (simp add: example_state_def example_reset_user_def r3s3t_hex_sha256)
  with l have 3: "status (fst ?late) = 400" and 4: "snd ?late = example_state [example_reset_user]"
    by blast+
  from n have "status (fst ?none) \<noteq> 200"
    by (simp add: example_state_def example_user_def)
  with n have 5: "status (fst ?none) = 400" and 6: "snd ?none = example_state [example_user]"
    by blast+
  from 1 2 3 4 5 6 7 8 9 show ?thesis by blast
qed

subsection \<open>Email verification\<close>

text \<open>
  Claim C9 (re-verification), as amended. A verification token can be used once.
  When the token matches the stored hash of a user \<open>u\<close>, and of no other account, the
  first request answers 200, marks \<open>u\<close> verified and clears the stored hash; submitting
  the same token again answers 400 with the message for an invalid or expired token,
  and leaves the state as the first request left it.
\<close>

theorem verification_token_single_use:
  assumes "token \<noteq> []"
    and "User_findOne (\<lambda>u. verificationToken u = Some (hashToken token)) (users s) = Some u"
    and "\<forall>x \<in> set (users s). verificationToken x = Some (hashToken token) \<longrightarrow> user_id x = user_id u"
  shows "verify_email_GET P (Some token) date_now s
           = (json_response 200 True ''Email verified successfully. You can now log in.'',
              s\<lparr>users := replace_user (u\<lparr>isVerified := True, verificationToken := None,
                                           updatedAt := date_now\<rparr>) (users s)\<rparr>)
         \<and> verify_email_GET P (Some token) later (snd (verify_email_GET P (Some token) date_now s))
           = (json_response 400 False ''Invalid or expired verification token'',
              snd (verify_email_GET P (Some token) date_now s))"
proof -
  let ?u' = "u\<lparr>isVerified := True, verificationToken := None, updatedAt := date_now\<rparr>"
  let ?s1 = "s\<lparr>users := replace_user ?u' (users s)\<rparr>"
  have first: "verify_email_GET P (Some token) date_now s
           = (json_response 200 True ''Email verified successfully. You can now log in.'', ?s1)"
    using assms(1,2) by (simp add: verify_email_GET_def Let_def User_save_unmodified)
  have "\<forall>x \<in> set (users ?s1). verificationToken x \<noteq> Some (hashToken token)"
    using assms(3) by (auto simp: replace_user_def)
  then have "User_findOne (\<lambda>u. verificationToken u = Some (hashToken token)) (users ?s1) = None"
    by (simp add: User_findOne_None)
  then have "verify_email_GET P (Some token) later ?s1
           = (json_response 400 False ''Invalid or expired verification token'', ?s1)"
    using assms(1) by (simp add: verify_email_GET_def Let_def)
  with first show ?thesis by simp
qed

theorem verification_token_single_use_witness:
  "verify_email_GET example_platform (Some ''v3r1fy'') 7000 (example_state [example_pending_user])
     = (json_response 200 True ''Email verified successfully. You can now log in.'',
        example_state [example_user\<lparr>updatedAt := 7000\<rparr>])
   \<and> verify_email_GET example_platform (Some ''v3r1fy'') 8000
        (snd (verify_email_GET example_platform (Some ''v3r1fy'') 7000 (example_state [example_pending_user])))
     = (json_response 400 False ''Invalid or expired verification token'',
        example_state [example_user\<lparr>updatedAt := 7000\<rparr>])"
proof -
  have 1: "''v3r1fy'' \<noteq> []" by simp
  have 2: "User_findOne (\<lambda>u. verificationToken u = Some (hashToken ''v3r1fy''))
             (users (example_state [example_pending_user])) = Some example_pending_user"
    by (simp add: User_findOne_def example_state_def example_pending_user_def)
  have 3: "\<forall>x \<in> set (users (example_state [example_pending_user])).
             verificationToken x = Some (hashToken ''v3r1fy'') \<longrightarrow> user_id x = user_id example_pending_user"
    by (simp add: example_state_def)
  have s1: "(example_state [example_pending_user])\<lparr>users := replace_user
              (example_pending_user\<lparr>isVerified := True, verificationToken := None, updatedAt := 7000\<rparr>)
              (users (example_state [example_pending_user]))\<rparr>
            = example_state [example_user\<lparr>updatedAt := 7000\<rparr>]"
    by (simp add: example_state_def example_pending_user_def example_user_def replace_user_def)
  note t = verification_token_single_use [OF 1 2 3, of example_platform 7000 8000]
  from t have a: "verify_email_GET example_platform (Some ''v3r1fy'') 7000 (example_state [example_pending_user])
     = (json_response 200 True ''Email verified successfully. You can now log in.'',
        example_state [example_user\<lparr>updatedAt := 7000\<rparr>])"
    by (simp add: s1)
  then have sn: "snd (verify_email_GET example_platform (Some ''v3r1fy'') 7000
                        (example_state [example_pending_user]))
                 = example_state [example_user\<lparr>updatedAt := 7000\<rparr>]"
    by simp
  from t have "verify_email_GET example_platform (Some ''v3r1fy'') 8000
        (snd (verify_email_GET example_platform (Some ''v3r1fy'') 7000 (example_state [example_pending_user])))
     = (json_response 400 False ''Invalid or expired verification token'',
        snd (verify_email_GET example_platform (Some ''v3r1fy'') 7000 (example_state [example_pending_user])))"
    by blast
  then have b: "verify_email_GET example_platform (Some ''v3r1fy'') 8000
        (example_state [example_user\<lparr>updatedAt := 7000\<rparr>])
     = (json_response 400 False ''Invalid or expired verification token'',
        example_state [example_user\<lparr>updatedAt := 7000\<rparr>])"
    unfolding sn .
  from a b show ?thesis unfolding sn by (rule conjI)
qed

text \<open>
  The claim C9 as stated fails: after a completed verification, the same token is
  answered with a 400 failure, not with a success.
\<close>

theorem reverification_fails_counterexample:
  "status (fst (verify_email_GET example_platform (Some ''v3r1fy'') 7000
                  (example_state [example_pending_user]))) = 200
   \<and> isVerified (hd (users (snd (verify_email_GET example_platform (Some ''v3r1fy'') 7000
                  (example_state [example_pending_user])))))
   \<and> status (fst (verify_email_GET example_platform (Some ''v3r1fy'') 8000
        (snd (verify_email_GET example_platform (Some ''v3r1fy'') 7000
                (example_state [example_pending_user]))))) = 400
   \<and> success (fst (verify_email_GET example_platform (Some ''v3r1fy'') 8000
        (snd (verify_email_GET example_platform (Some ''v3r1fy'') 7000
                (example_state [example_pending_user]))))) = False"
  by (simp add: verify_email_GET_def Let_def User_findOne_def User_save_def pre_save_def
        example_state_def example_pending_user_def example_user_def json_response_def)

end
